theory Spec2Isabelle
  imports Complex_Main "HOL-Library.Multiset"
begin

section \<open>Zircon Raman batch analysis: embedding of batch\_raman\_backup\_v7.0.py\<close>

text \<open>
  The radiation-damage dose and the pre-conditioning of a spectrum column are computed in
  binary64, with rounding, overflow, the infinities and NaN. In the other functions a
  Python float is a real number, and rounding, overflow and the infinities are outside
  their model. Python exceptions are values of type \<open>py_error\<close>.
\<close>

datatype py_error =
    KeyError | IndexError | ValueError | TypeError | ZeroDivisionError | UnboundLocalError
  | OtherError

subsection \<open>Spectral regions (get\_zircon\_spectral\_regions, is\_peak\_in\_region)\<close>

datatype region_name =
    Nu3_SiO4 | Nu1_SiO4 | Nu2_SiO4
  | External_mode_1 | External_mode_2 | External_mode_3 | External_mode_4

text \<open>The dictionary literal, in insertion order: name, (min\_wave, max\_wave, is\_inclusive).\<close>

definition get_zircon_spectral_regions :: "(region_name \<times> real \<times> real \<times> bool) list" where
  "get_zircon_spectral_regions =
     [(Nu3_SiO4, 990, 1020, True),
      (Nu1_SiO4, 965, 985, True),
      (Nu2_SiO4, 430, 450, True),
      (External_mode_1, 195, 210, False),
      (External_mode_2, 210, 220, False),
      (External_mode_3, 220, 230, False),
      (External_mode_4, 350, 365, True)]"

definition is_peak_in_region :: "real \<Rightarrow> real \<Rightarrow> real \<Rightarrow> bool \<Rightarrow> bool" where
  "is_peak_in_region center_value min_wave max_wave is_inclusive =
     (if is_inclusive then min_wave \<le> center_value \<and> center_value \<le> max_wave
      else min_wave \<le> center_value \<and> center_value < max_wave)"

text \<open>The names of the regions whose membership test accepts a center.\<close>

definition regions_matching :: "real \<Rightarrow> region_name list" where
  "regions_matching c =
     map fst (filter (\<lambda>(n, lo, hi, incl). is_peak_in_region c lo hi incl)
                     get_zircon_spectral_regions)"

text \<open>Counting a list of centers: per region, and the centers no region accepts.\<close>

definition region_count :: "real list \<Rightarrow> region_name \<times> real \<times> real \<times> bool \<Rightarrow> nat" where
  "region_count cs r =
     (case r of (n, lo, hi, incl) \<Rightarrow> length (filter (\<lambda>c. is_peak_in_region c lo hi incl) cs))"

definition unclassified_count :: "real list \<Rightarrow> nat" where
  "unclassified_count cs = length (filter (\<lambda>c. regions_matching c = []) cs)"

subsection \<open>Binary64 arithmetic\<close>

text \<open>
  A Python float is an IEEE 754 binary64 value: NaN, an infinity, or a finite number
  m * 2 ^ e with an integer m of magnitude below 2 ^ 53 and an exponent e from
  - 1074 on. \<open>Finite x\<close> stands for the finite value \<open>x\<close> (the two zeros,
  which compare equal, are one value). An arithmetic operation returns the exact result
  rounded to the nearest such number, ties to the even significand, and an infinity when
  the rounded result reaches 2 ^ 1024.
\<close>

definition round_ties_even :: "real \<Rightarrow> int" where
  "round_ties_even t =
     (let f = \<lfloor>t\<rfloor>; d = t - of_int f in
      if d < 1 / 2 then f else if d > 1 / 2 then f + 1 else if even f then f else f + 1)"

text \<open>The exponent of the unit in the last place of the binade of \<open>x\<close>.\<close>

definition ulp_exponent :: "real \<Rightarrow> int" where
  "ulp_exponent x = max (\<lfloor>log 2 \<bar>x\<bar>\<rfloor> - 52) (- 1074)"

definition round64 :: "real \<Rightarrow> real" where
  "round64 x =
     (if x = 0 then 0
      else of_int (round_ties_even (x / 2 powi ulp_exponent x)) * 2 powi ulp_exponent x)"

datatype float64 = NaN64 | NegInf | PosInf | Finite real

definition to_float64 :: "real \<Rightarrow> float64" where
  "to_float64 x =
     (let r = round64 x in
      if 2 ^ 1024 \<le> r then PosInf else if r \<le> - (2 ^ 1024) then NegInf else Finite r)"

text \<open>A decimal literal of the source denotes the nearest binary64 value.\<close>

definition literal :: "real \<Rightarrow> float64" where
  "literal x = to_float64 x"

fun sign64 :: "float64 \<Rightarrow> real" where
  "sign64 (Finite x) = sgn x"
| "sign64 PosInf = 1"
| "sign64 NegInf = - 1"
| "sign64 NaN64 = 0"

fun f_mul :: "float64 \<Rightarrow> float64 \<Rightarrow> float64" where
  "f_mul (Finite x) (Finite y) = to_float64 (x * y)"
| "f_mul NaN64 b = NaN64"
| "f_mul a NaN64 = NaN64"
| "f_mul a b =
     (if sign64 a * sign64 b = 0 then NaN64
      else if 0 < sign64 a * sign64 b then PosInf else NegInf)"

fun f_add :: "float64 \<Rightarrow> float64 \<Rightarrow> float64" where
  "f_add (Finite x) (Finite y) = to_float64 (x + y)"
| "f_add NaN64 b = NaN64"
| "f_add a NaN64 = NaN64"
| "f_add PosInf NegInf = NaN64"
| "f_add NegInf PosInf = NaN64"
| "f_add PosInf b = PosInf"
| "f_add NegInf b = NegInf"
| "f_add a PosInf = PosInf"
| "f_add a NegInf = NegInf"

fun f_neg :: "float64 \<Rightarrow> float64" where
  "f_neg (Finite x) = Finite (- x)"
| "f_neg PosInf = NegInf"
| "f_neg NegInf = PosInf"
| "f_neg NaN64 = NaN64"

definition f_sub :: "float64 \<Rightarrow> float64 \<Rightarrow> float64" where
  "f_sub a b = f_add a (f_neg b)"

text \<open>The comparisons less-or-equal and less: false as soon as one side is NaN.\<close>

fun f_le :: "float64 \<Rightarrow> float64 \<Rightarrow> bool" where
  "f_le NaN64 b = False"
| "f_le a NaN64 = False"
| "f_le NegInf b = True"
| "f_le a PosInf = True"
| "f_le (Finite x) (Finite y) = (x \<le> y)"
| "f_le a b = False"

fun f_lt :: "float64 \<Rightarrow> float64 \<Rightarrow> bool" where
  "f_lt NaN64 b = False"
| "f_lt a NaN64 = False"
| "f_lt (Finite x) (Finite y) = (x < y)"
| "f_lt NegInf NegInf = False"
| "f_lt PosInf PosInf = False"
| "f_lt NegInf b = True"
| "f_lt a PosInf = True"
| "f_lt a b = False"

subsection \<open>Radiation damage (categorize\_radiation\_damage)\<close>

datatype damage_category = Baixo_dano | Dano_moderado | Alto_dano | Quase_amorfo

text \<open>
  The argument is the float read from the FWHM column. The thresholds 8 and 25 are Python
  integers, compared by value.
\<close>

definition categorize_radiation_damage :: "float64 \<Rightarrow> damage_category \<times> float64" where
  "categorize_radiation_damage fwhm =
     (let dose = f_add (f_neg (literal 0.1402)) (f_mul (literal 0.07683) fwhm) in
      if f_le fwhm (Finite 8) then (Baixo_dano, dose)
      else if f_le fwhm (literal 14.5) then (Dano_moderado, dose)
      else if f_le fwhm (Finite 25) then (Alto_dano, dose)
      else (Quase_amorfo, dose))"

subsection \<open>Pre-conditioning of a spectrum column (process\_file)\<close>

text \<open>
  \<open>df[column].values\<close> is a NumPy array with the dtype pandas chose when it read the CSV
  file: float64 (numbers, a missing cell is NaN), int64 (integers only, no missing cell),
  uint64 (integers only, one of them above 2 ^ 63 - 1), bool, or object (text,
  and every column of a file with no data row). An int64 element is an integer from
  - 2 ^ 63 up to 2 ^ 63 - 1, and int64 arithmetic wraps around.
\<close>

datatype column =
    Float64 "float64 list" | Int64 "int list" | UInt64 "nat list" | Bool "bool list" | Object

definition wrap64 :: "int \<Rightarrow> int" where
  "wrap64 v = (v + 2 ^ 63) mod 2 ^ 64 - 2 ^ 63"

fun isnan :: "float64 \<Rightarrow> bool" where
  "isnan NaN64 = True"
| "isnan v = False"

text \<open>np.count\_nonzero counts every element different from zero; NaN is one of them.\<close>

fun nonzero :: "float64 \<Rightarrow> bool" where
  "nonzero (Finite r) = (r \<noteq> 0)"
| "nonzero v = True"

text \<open>
  np.nan\_to\_num(y, nan=0.0): the infinities become the largest finite values, which is
  the default of the arguments posinf and neginf. An array that is not of a floating type
  is returned as it is.
\<close>

definition max_float64 :: real where
  "max_float64 = (2 ^ 53 - 1) * 2 ^ 971"

fun nan_to_num :: "float64 \<Rightarrow> float64" where
  "nan_to_num NaN64 = Finite 0"
| "nan_to_num PosInf = Finite max_float64"
| "nan_to_num NegInf = Finite (- max_float64)"
| "nan_to_num (Finite r) = Finite r"

text \<open>np.min: raises on an empty array, NaN as soon as one element is NaN.\<close>

fun f_min2 :: "float64 \<Rightarrow> float64 \<Rightarrow> float64" where
  "f_min2 NaN64 b = NaN64"
| "f_min2 a NaN64 = NaN64"
| "f_min2 a b = (if f_le a b then a else b)"

fun np_min :: "float64 list \<Rightarrow> py_error + float64" where
  "np_min [] = Inl ValueError"
| "np_min (v # vs) = Inr (foldl f_min2 v vs)"

fun np_min_int :: "int list \<Rightarrow> py_error + int" where
  "np_min_int [] = Inl ValueError"
| "np_min_int (v # vs) = Inr (foldl min v vs)"

datatype column_outcome = Skipped | Raised py_error | Handed column

text \<open>
  The data-quality check of line 4268, from the number of NaN, the number of elements
  different from zero and the length.
\<close>

definition invalid_data :: "nat \<Rightarrow> nat \<Rightarrow> nat \<Rightarrow> bool" where
  "invalid_data nan_count nonzero_count len =
     (real nan_count > 0.5 * real len \<or> real nonzero_count < 0.5 * real len)"

text \<open>
  Lines 4265 to 4280 of process\_file: the data-quality check, the replacement of NaN,
  the shift by the minimum; \<open>Handed y\<close> is the array passed to correct\_baseline.
  np.isnan raises TypeError on an object array (process\_file catches it, logs it and
  returns None for the whole file). An integer or boolean array has no NaN; an unsigned or
  boolean array has no element below 0.
\<close>

fun precondition_column :: "column \<Rightarrow> column_outcome" where
  "precondition_column Object = Raised TypeError"
| "precondition_column (Float64 y) =
     (if invalid_data (length (filter isnan y)) (length (filter nonzero y)) (length y)
      then Skipped
      else
        let y1 = map nan_to_num y in
        if list_ex (\<lambda>v. f_lt v (Finite 0)) y1
        then (case np_min y1 of
                Inl e \<Rightarrow> Raised e
              | Inr m \<Rightarrow> Handed (Float64 (map (\<lambda>v. f_sub v m) y1)))
        else Handed (Float64 y1))"
| "precondition_column (Int64 y) =
     (if invalid_data 0 (length (filter (\<lambda>v. v \<noteq> 0) y)) (length y)
      then Skipped
      else
        if list_ex (\<lambda>v. v < 0) y
        then (case np_min_int y of
                Inl e \<Rightarrow> Raised e
              | Inr m \<Rightarrow> Handed (Int64 (map (\<lambda>v. wrap64 (v - m)) y)))
        else Handed (Int64 y))"
| "precondition_column (UInt64 y) =
     (if invalid_data 0 (length (filter (\<lambda>v. v \<noteq> 0) y)) (length y)
      then Skipped
      else Handed (UInt64 y))"
| "precondition_column (Bool y) =
     (if invalid_data 0 (length (filter (\<lambda>v. v) y)) (length y)
      then Skipped
      else Handed (Bool y))"


subsection \<open>Configuration dictionaries\<close>

text \<open>
  The configuration is a Python dict whose groups (baseline\_correction, normalization, ...)
  are dicts themselves. Dicts are objects in a store (the list of the objects allocated so
  far, an address is a position in it), a value of a key is a string, a number or a
  reference to another dict, so that two dicts may share a nested dict. A reference
  outside the store does not occur in Python; reading one gives \<open>OtherError\<close>.
\<close>

datatype pyval = Str string | Num real | Ref nat

type_synonym pydict = "string \<Rightarrow> pyval option"
type_synonym store = "pydict list"

definition subscript :: "store \<Rightarrow> nat \<Rightarrow> string \<Rightarrow> py_error + pyval" where
  "subscript h a k =
     (if a < length h
      then (case (h ! a) k of None \<Rightarrow> Inl KeyError | Some v \<Rightarrow> Inr v)
      else Inl OtherError)"

subsection \<open>Baseline estimation (airpls\_baseline, polynomial\_baseline, spline\_baseline,
  correct\_baseline)\<close>

text \<open>
  A call returns a value, raises, or (\<open>NonFinite\<close>) goes on computing with NaN or
  infinite array elements, which the real numbers do not model.
\<close>

datatype 'a outcome = Raises py_error | NonFinite | Returns 'a

text \<open>
  What correct\_baseline returns: airpls\_baseline returns the array z alone, the two other
  functions return the tuple (corrected\_spectrum, baseline).
\<close>

datatype baseline_return = Arr "real list" | Pair "real list" "real list"

text \<open>
  The routines of scipy and numpy the source calls are parameters: spsolve (called with
  the matrix W + lambda D D', here given by lambda and the weights w, and the right-hand
  side w y), find\_peaks (with the prominence), polyfit, and UnivariateSpline (with the
  points and the smoothing s), which returns the spline, a function, or raises.
\<close>

record externals =
  spsolve :: "real \<Rightarrow> real list \<Rightarrow> real list \<Rightarrow> real list"
  find_peaks :: "real list \<Rightarrow> real \<Rightarrow> nat list"
  polyfit :: "real list \<Rightarrow> real list \<Rightarrow> real \<Rightarrow> py_error + real list"
  univariate_spline :: "real list \<Rightarrow> real list \<Rightarrow> real \<Rightarrow> py_error + (real \<Rightarrow> real)"

definition np_mean :: "real list \<Rightarrow> real" where
  "np_mean xs = sum_list xs / real (length xs)"

definition np_std :: "real list \<Rightarrow> real" where
  "np_std xs = sqrt (np_mean (map (\<lambda>v. (v - np_mean xs)\<^sup>2) xs))"

definition np_norm :: "real list \<Rightarrow> real" where
  "np_norm xs = sqrt (sum_list (map (\<lambda>v. v\<^sup>2) xs))"

text \<open>
  The weight update of airpls\_baseline, from the residuals d = y - z:
  dn = d[d<0]; m = np.mean(dn); s = np.std(dn);
  wt = 1.0 / (1 + np.exp(2 * (d-(2*s-m))/s)).
  With no negative residual m and s are NaN, with s = 0 the quotient is infinite or NaN.
\<close>

definition airpls_weights :: "real list \<Rightarrow> real list option" where
  "airpls_weights d =
     (let dn = filter (\<lambda>v. v < 0) d;
          m = np_mean dn;
          s = np_std dn
      in if dn = [] \<or> s = 0 then None
         else Some (map (\<lambda>v. 1.0 / (1 + exp (2 * (v - (2 * s - m)) / s))) d))"

text \<open>
  The loop over range(itermax); w are the weights, z the last solution (unbound before
  the first iteration).
\<close>

fun airpls_iterate ::
  "externals \<Rightarrow> real \<Rightarrow> real list \<Rightarrow> nat \<Rightarrow> real list \<Rightarrow> real list option \<Rightarrow> real list outcome"
where
  "airpls_iterate E lam y 0 w z =
     (case z of None \<Rightarrow> Raises UnboundLocalError | Some z \<Rightarrow> Returns z)"
| "airpls_iterate E lam y (Suc n) w z =
     (let z' = spsolve E lam w (map2 (*) w y);
          d = map2 (-) y z'
      in case airpls_weights d of
           None \<Rightarrow> NonFinite
         | Some wt \<Rightarrow>
             if np_norm (map2 (-) w wt) / np_norm w < 1 / 10 ^ 5 then Returns z'
             else airpls_iterate E lam y n wt (Some z'))"

text \<open>
  sparse.diags raises for a shape (L, L-2) with L < 2. The test for non-finite input is
  vacuous on real numbers.
\<close>

definition airpls_baseline :: "externals \<Rightarrow> real list \<Rightarrow> real \<Rightarrow> nat \<Rightarrow> real list outcome" where
  "airpls_baseline E y lam itermax =
     (if length y < 2 then Raises ValueError
      else airpls_iterate E lam y itermax (replicate (length y) 1) None)"

text \<open>
  The system spsolve is given: D has the columns e(j) - 2 e(j+1) + e(j+2), so D' z are the
  second differences of z, and the left-hand side is W z + lambda D (D' z).
\<close>

definition second_differences :: "real list \<Rightarrow> real list" where
  "second_differences z = map (\<lambda>j. z ! j - 2 * z ! (j + 1) + z ! (j + 2)) [0..<length z - 2]"

definition penalty :: "nat \<Rightarrow> real list \<Rightarrow> real list" where
  "penalty L u =
     map (\<lambda>i. (if i < length u then u ! i else 0)
              - 2 * (if 1 \<le> i \<and> i - 1 < length u then u ! (i - 1) else 0)
              + (if 2 \<le> i \<and> i - 2 < length u then u ! (i - 2) else 0)) [0..<L]"

definition system_lhs :: "real \<Rightarrow> real list \<Rightarrow> real list \<Rightarrow> real list" where
  "system_lhs lam w z =
     map2 (+) (map2 (*) w z) (map (\<lambda>v. lam * v) (penalty (length z) (second_differences z)))"

text \<open>
  The mask of polynomial\_baseline: True outside the windows [peak - window, peak + window)
  cut to the array, with window = int(len(y) * 0.02).
\<close>

definition peak_mask :: "nat list \<Rightarrow> nat \<Rightarrow> bool list" where
  "peak_mask peaks n =
     (let window = \<lfloor>real n * 0.02\<rfloor> in
      map (\<lambda>i. \<not> list_ex (\<lambda>peak. max 0 (int peak - window) \<le> int i
                               \<and> int i < min (int n) (int peak + window)) peaks) [0..<n])"

definition select :: "bool list \<Rightarrow> 'a list \<Rightarrow> 'a list" where
  "select msk xs = map snd (filter fst (zip msk xs))"

definition polyval :: "real list \<Rightarrow> real \<Rightarrow> real" where
  "polyval coeffs v = foldl (\<lambda>acc c. acc * v + c) 0 coeffs"

text \<open>if x is None: x = np.arange(len(y)).\<close>

definition default_x :: "real list \<Rightarrow> real list option \<Rightarrow> real list" where
  "default_x y x = (case x of None \<Rightarrow> map real [0..<length y] | Some x \<Rightarrow> x)"

text \<open>
  The call of np.polyfit polynomial\_baseline makes (lines 1253 to 1272). Indexing x with
  a mask of another length raises IndexError; polyfit raises TypeError when x and y differ
  in length.
\<close>

definition polyfit_call ::
  "externals \<Rightarrow> real list \<Rightarrow> real list \<Rightarrow> real \<Rightarrow> py_error + real list" where
  "polyfit_call E y x degree =
     (let peaks = find_peaks E y (0.02 * Max (set y));
          msk = peak_mask peaks (length y)
      in if real (length (filter id msk)) > degree + 1
         then (if length x \<noteq> length y then Inl IndexError
               else polyfit E (select msk x) (select msk y) degree)
         else (if length x \<noteq> length y then Inl TypeError
               else polyfit E x y 1))"

definition polynomial_baseline ::
  "externals \<Rightarrow> real list \<Rightarrow> real list option \<Rightarrow> real \<Rightarrow> baseline_return outcome" where
  "polynomial_baseline E y x degree =
     (let x = default_x y x in
      if y = [] then Raises ValueError
      else
        case polyfit_call E y x degree of
          Inl e \<Rightarrow> Raises e
        | Inr coeffs \<Rightarrow>
            let baseline = map (polyval coeffs) x;
                baseline = map2 min baseline y;
                corrected_spectrum = map2 (-) y baseline
            in Returns (Pair corrected_spectrum baseline))"

text \<open>np.all(np.diff(x) > 0), np.linspace and np.percentile (linear interpolation).\<close>

definition strictly_increasing :: "real list \<Rightarrow> bool" where
  "strictly_increasing x = list_all (\<lambda>i. x ! (i + 1) - x ! i > 0) [0..<length x - 1]"

definition np_linspace :: "real \<Rightarrow> real \<Rightarrow> nat \<Rightarrow> real list" where
  "np_linspace start stop num =
     (if num = 1 then [start]
      else map (\<lambda>i. start + real i * ((stop - start) / real (num - 1))) [0..<num])"

definition np_percentile :: "real list \<Rightarrow> real \<Rightarrow> real" where
  "np_percentile a q =
     (let s = sort a;
          pos = (real (length a) - 1) * (q / 100);
          lo = nat \<lfloor>pos\<rfloor>;
          hi = min (lo + 1) (length a - 1)
      in s ! lo + (pos - real lo) * (s ! hi - s ! lo))"

text \<open>
  np.interp(x, xp, fp) for sample points xp in non-decreasing order, given as the list of
  the pairs (xp, fp): the first value on the left of the first point, the last value from
  the last point on, the linear interpolant between two neighbours. It raises ValueError
  when xp is empty or xp and fp differ in length.
\<close>

fun interp_at :: "real \<Rightarrow> (real \<times> real) list \<Rightarrow> real" where
  "interp_at v [] = 0"
| "interp_at v [(a, fa)] = fa"
| "interp_at v ((a, fa) # (b, fb) # rest) =
     (if v < a then fa
      else if b \<le> v then interp_at v ((b, fb) # rest)
      else fa + (fb - fa) / (b - a) * (v - a))"

definition np_interp :: "real list \<Rightarrow> real list \<Rightarrow> real list \<Rightarrow> py_error + real list" where
  "np_interp x xp fp =
     (if xp = [] \<or> length xp \<noteq> length fp then Inl ValueError
      else Inr (map (\<lambda>v. interp_at v (zip xp fp)) x))"

text \<open>
  The baseline points of spline\_baseline (lines 1391 to 1409): the points outside the
  windows of the peaks, or, when these are fewer than half of the points, the points at
  most the median; sorted by x.
\<close>

definition spline_points :: "externals \<Rightarrow> real list \<Rightarrow> real list \<Rightarrow> (real \<times> real) list" where
  "spline_points E y x =
     (let peaks = find_peaks E y (0.02 * Max (set y));
          msk = peak_mask peaks (length y);
          msk = (if real (length (filter id msk)) < real (length y) * 0.5
                 then map (\<lambda>v. v \<le> np_percentile y 50) y
                 else msk)
      in sort_key fst (zip (select msk x) (select msk y)))"

text \<open>The call of UnivariateSpline spline\_baseline makes.\<close>

definition spline_call ::
  "externals \<Rightarrow> real list \<Rightarrow> real list \<Rightarrow> real \<Rightarrow> py_error + (real \<Rightarrow> real)" where
  "spline_call E y x smoothing_factor =
     univariate_spline E (map fst (spline_points E y x)) (map snd (spline_points E y x))
       (smoothing_factor * real (length y))"

text \<open>
  The try statement (lines 1411 to 1417): the spline evaluated on the fine grid and
  interpolated back at x; after a ValueError, the linear interpolation of the baseline
  points. Another exception leaves the function.
\<close>

definition spline_curve ::
  "externals \<Rightarrow> real list \<Rightarrow> real list \<Rightarrow> real \<Rightarrow> py_error + real list" where
  "spline_curve E y x smoothing_factor =
     (let x_high_res = np_linspace (Min (set x)) (Max (set x)) (length x * 5);
          attempt = (case spline_call E y x smoothing_factor of
                       Inl e \<Rightarrow> Inl e
                     | Inr baseline_spline \<Rightarrow>
                         np_interp x x_high_res (map baseline_spline x_high_res))
      in case attempt of
           Inl e \<Rightarrow>
             if e = ValueError
             then np_interp x (map fst (spline_points E y x)) (map snd (spline_points E y x))
             else Inl e
         | Inr baseline \<Rightarrow> Inr baseline)"

text \<open>
  spline\_baseline: x.min() and np.max(y) raise ValueError on an empty array, indexing x
  with the mask raises IndexError when x and y differ in length. After the try statement:
  np.minimum, the subtraction, the shift when the minimum is negative, the division by
  the maximum when it is positive.
\<close>

definition spline_baseline ::
  "externals \<Rightarrow> real list \<Rightarrow> real list option \<Rightarrow> real \<Rightarrow> baseline_return outcome" where
  "spline_baseline E y x smoothing_factor =
     (let x = default_x y x;
          x = (if strictly_increasing x then x
               else np_linspace 0 (real (length y) - 1) (length y))
      in if x = [] \<or> y = [] then Raises ValueError
         else if length x \<noteq> length y then Raises IndexError
         else case spline_curve E y x smoothing_factor of
           Inl e \<Rightarrow> Raises e
         | Inr baseline \<Rightarrow>
             let baseline = map2 min baseline y;
                 corrected_spectrum = map2 (-) y baseline;
                 corrected_spectrum =
                   (if Min (set corrected_spectrum) < 0
                    then map (\<lambda>v. v - Min (set corrected_spectrum)) corrected_spectrum
                    else corrected_spectrum);
                 corrected_spectrum =
                   (if Max (set corrected_spectrum) > 0
                    then map (\<lambda>v. v / Max (set corrected_spectrum)) corrected_spectrum
                    else corrected_spectrum)
             in Returns (Pair corrected_spectrum baseline))"

definition correct_baseline ::
  "store \<Rightarrow> nat \<Rightarrow> externals \<Rightarrow> real list \<Rightarrow> real list option \<Rightarrow> baseline_return outcome" where
  "correct_baseline h config E y x =
     (case subscript h config ''baseline_correction'' of
        Inl e \<Rightarrow> Raises e
      | Inr (Ref baseline_config) \<Rightarrow>
          (case subscript h baseline_config ''method'' of
             Inl e \<Rightarrow> Raises e
           | Inr method \<Rightarrow>
               if method = Str ''airpls'' then
                 (case subscript h baseline_config ''airpls_lambda'' of
                    Inl e \<Rightarrow> Raises e
                  | Inr (Num lambda) \<Rightarrow>
                      (case airpls_baseline E y lambda 10 of
                         Raises e \<Rightarrow> Raises e
                       | NonFinite \<Rightarrow> NonFinite
                       | Returns z \<Rightarrow> Returns (Arr z))
                  | Inr _ \<Rightarrow> Raises TypeError)
               else if method = Str ''polynomial'' then
                 (case subscript h baseline_config ''polynomial_degree'' of
                    Inl e \<Rightarrow> Raises e
                  | Inr (Num degree) \<Rightarrow> polynomial_baseline E y x degree
                  | Inr _ \<Rightarrow> Raises TypeError)
               else if method = Str ''spline'' then
                 (case subscript h baseline_config ''spline_smoothing'' of
                    Inl e \<Rightarrow> Raises e
                  | Inr (Num smoothing) \<Rightarrow> spline_baseline E y x smoothing
                  | Inr _ \<Rightarrow> Raises TypeError)
               else spline_baseline E y x 0.1)
      | Inr _ \<Rightarrow> Raises TypeError)"

text \<open>
  A spectrum to run the functions on: 50 samples of intensity 1 with one sample of
  intensity 5 at index 25, and no x. The externals hold what scipy and numpy return for it
  (up to rounding): find\_peaks finds the one peak, at index 25 (its prominence 4 is above
  0.02 * 5), so the window of 1 sample excludes the indices 24 and 25 and the 48 baseline
  points all have the intensity 1; the cubic that np.polyfit fits to them, and the
  smoothing spline of UnivariateSpline, are the constant 1. The two methods do not call
  spsolve. The configuration has a given method.
\<close>

definition spike :: "real list" where
  "spike = replicate 25 1 @ [5] @ replicate 24 1"

definition spike_externals :: externals where
  "spike_externals =
     \<lparr> spsolve = (\<lambda>lam w b. b),
       find_peaks = (\<lambda>y prominence. [25]),
       polyfit = (\<lambda>x y degree. Inr [0, 0, 0, 1]),
       univariate_spline = (\<lambda>x y s. Inr (\<lambda>v. 1)) \<rparr>"

definition config_store :: "string \<Rightarrow> store" where
  "config_store m =
     [Map.empty(''baseline_correction'' \<mapsto> Ref 1),
      Map.empty(''method'' \<mapsto> Str m, ''airpls_lambda'' \<mapsto> Num 1,
                ''polynomial_degree'' \<mapsto> Num 3, ''spline_smoothing'' \<mapsto> Num 0.1)]"


subsection \<open>Result tables\<close>

text \<open>
  A row of the results DataFrame: its index label and the columns the cleaning pass and
  the sweep read. The other columns (sample, spectrum, grain, areas, ...) are carried
  along unchanged by the source and are left out.
\<close>

record peak_row =
  label :: nat
  Centro :: real
  FWHM_Gauss :: real
  R2 :: real

type_synonym dataframe = "peak_row list"

text \<open>pd.concat([a, b], ignore\_index=True): the rows of both, relabelled 0, 1, 2, ...\<close>

definition concat_ignore_index :: "dataframe \<Rightarrow> dataframe \<Rightarrow> dataframe" where
  "concat_ignore_index a b =
     map2 (\<lambda>i r. r\<lparr>label := i\<rparr>) [0..<length a + length b] (a @ b)"

subsection \<open>The combinatorial sweep (test\_all\_baseline\_normalization\_combinations)\<close>

text \<open>
  config.copy() allocates a new dict with the same keys and values: a nested dict is not
  copied, the new dict refers to the same object. d[k] = v updates the object d in place.
\<close>

definition dict_copy :: "store \<Rightarrow> nat \<Rightarrow> py_error + store \<times> nat" where
  "dict_copy h a = (if a < length h then Inr (h @ [h ! a], length h) else Inl OtherError)"

definition setitem :: "store \<Rightarrow> nat \<Rightarrow> string \<Rightarrow> pyval \<Rightarrow> store" where
  "setitem h a k v = h[a := (h ! a)(k \<mapsto> v)]"

definition setitem_nested ::
  "store \<Rightarrow> nat \<Rightarrow> string \<Rightarrow> string \<Rightarrow> pyval \<Rightarrow> py_error + store" where
  "setitem_nested h a g k v =
     (case subscript h a g of
        Inl e \<Rightarrow> Inl e
      | Inr (Ref d) \<Rightarrow> Inr (setitem h d k v)
      | Inr _ \<Rightarrow> Inl TypeError)"

text \<open>Path(v) raises TypeError unless v is a string.\<close>

definition path_of :: "pyval \<Rightarrow> py_error + string" where
  "path_of v = (case v of Str s \<Rightarrow> Inr s | _ \<Rightarrow> Inl TypeError)"

text \<open>
  The RESULT lines the logger writes for a combination that adds nothing to
  combination\_summary, and an entry of combination\_summary. The formatted statistics
  of an entry (means, coefficients of variation, file names) are left out.
\<close>

datatype result_line =
  SKIPPED_missing_input_data | FAILED_no_valid_peaks | FAILED_processing_error

record combination_result =
  Baseline_Method :: string
  Normalization_Method :: string
  Total_Peaks :: nat
  Excellent_Fits :: nat
  Poor_Fits :: nat

text \<open>
  What the sweep does to, and reads from, the world outside. Before the loops: whether
  creating the output directory (in get\_output\_dir), creating the directory of the
  analysis and opening the log file raise. In the loops, by the value of
  combination\_count: the CSV files found in the input directory (0 for the search before
  the loops), whether mkdir raises, the name of the combination's directory, what
  process\_file returns or raises for a file under the combination's configuration, and
  whether computing the metrics and writing the result files of the combination raise.
  After the loops, from combination\_summary: whether writing the comparative summary and
  the regional comparison (lines 4717 to 4850) raises, whether the try statement of lines
  4854 to 4869 finds the best combinations (otherwise it returns None), and whether
  writing the conclusions and closing the log (lines 4872 to 5181) raise.
\<close>

record environment =
  make_output_dir :: "py_error option"
  make_analysis_dir :: "py_error option"
  open_log :: "py_error option"
  glob_csv :: "nat \<Rightarrow> string list"
  mkdir :: "nat \<Rightarrow> py_error option"
  combo_dir :: "nat \<Rightarrow> string"
  process_file :: "store \<Rightarrow> nat \<Rightarrow> string \<Rightarrow> py_error + dataframe option"
  write_outputs :: "nat \<Rightarrow> dataframe \<Rightarrow> py_error option"
  write_comparison :: "combination_result list \<Rightarrow> py_error option"
  rank_combinations :: "combination_result list \<Rightarrow> bool"
  write_conclusions :: "combination_result list \<Rightarrow> py_error option"

record sweep_state =
  heap :: store
  combination_count :: nat
  combination_summary :: "combination_result list"
  logged :: "(string \<times> string \<times> result_line) list"

text \<open>
  get\_output\_dir: the key output\_dir is read by subscript, the directory is created,
  its path is returned.
\<close>

definition get_output_dir :: "environment \<Rightarrow> store \<Rightarrow> nat \<Rightarrow> py_error + string" where
  "get_output_dir env h config =
     (case subscript h config ''output_dir'' of
        Inl e \<Rightarrow> Inl e
      | Inr output_dir \<Rightarrow>
      case path_of output_dir of
        Inl e \<Rightarrow> Inl e
      | Inr output_path \<Rightarrow>
      case make_output_dir env of
        Some e \<Rightarrow> Inl e
      | None \<Rightarrow> Inr output_path)"

text \<open>The loop over csv\_files; an exception of process\_file is caught for each file.\<close>

fun process_files ::
  "environment \<Rightarrow> store \<Rightarrow> nat \<Rightarrow> string list \<Rightarrow> dataframe \<Rightarrow> dataframe" where
  "process_files env h test_config [] all_results = all_results"
| "process_files env h test_config (file_path # fs) all_results =
     (case process_file env h test_config file_path of
        Inr (Some results) \<Rightarrow>
          if results \<noteq> []
          then process_files env h test_config fs (concat_ignore_index all_results results)
          else process_files env h test_config fs all_results
      | _ \<Rightarrow> process_files env h test_config fs all_results)"

text \<open>
  One iteration of the inner loop (lines 4478 to 4712). The copy of the configuration,
  the two assignments of the methods and mkdir stand before the try statement, so what
  they raise leaves the function; inside it every exception is caught and logged.
\<close>

definition run_combination ::
  "environment \<Rightarrow> nat \<Rightarrow> sweep_state \<Rightarrow> string \<Rightarrow> string \<Rightarrow> py_error + sweep_state" where
  "run_combination env config st baseline_method norm_method =
     (let cc = combination_count st + 1 in
      case dict_copy (heap st) config of
        Inl e \<Rightarrow> Inl e
      | Inr (h1, test_config) \<Rightarrow>
      case setitem_nested h1 test_config ''baseline_correction'' ''method'' (Str baseline_method) of
        Inl e \<Rightarrow> Inl e
      | Inr h2 \<Rightarrow>
      case setitem_nested h2 test_config ''normalization'' ''method'' (Str norm_method) of
        Inl e \<Rightarrow> Inl e
      | Inr h3 \<Rightarrow>
      case mkdir env cc of
        Some e \<Rightarrow> Inl e
      | None \<Rightarrow>
        let h4 = setitem h3 test_config ''output_dir'' (Str (combo_dir env cc));
            st1 = st\<lparr>heap := h4, combination_count := cc\<rparr>;
            csv_files = glob_csv env cc
        in if csv_files = []
           then Inr (st1\<lparr>logged := logged st1
                          @ [(baseline_method, norm_method, SKIPPED_missing_input_data)]\<rparr>)
           else
             let all_results = process_files env h4 test_config csv_files [] in
             if all_results = []
             then Inr (st1\<lparr>logged := logged st1
                            @ [(baseline_method, norm_method, FAILED_no_valid_peaks)]\<rparr>)
             else
               case write_outputs env cc all_results of
                 Some e \<Rightarrow>
                   Inr (st1\<lparr>logged := logged st1
                          @ [(baseline_method, norm_method, FAILED_processing_error)]\<rparr>)
               | None \<Rightarrow>
                   Inr (st1\<lparr>combination_summary := combination_summary st1
                          @ [\<lparr>Baseline_Method = baseline_method,
                              Normalization_Method = norm_method,
                              Total_Peaks = length all_results,
                              Excellent_Fits = length (filter (\<lambda>r. R2 r > 0.9) all_results),
                              Poor_Fits = length (filter (\<lambda>r. R2 r < 0.3) all_results)\<rparr>]\<rparr>))"

fun sweep_loop ::
  "environment \<Rightarrow> nat \<Rightarrow> sweep_state \<Rightarrow> (string \<times> string) list \<Rightarrow> py_error + sweep_state" where
  "sweep_loop env config st [] = Inr st"
| "sweep_loop env config st ((baseline_method, norm_method) # rest) =
     (case run_combination env config st baseline_method norm_method of
        Inl e \<Rightarrow> Inl e
      | Inr st' \<Rightarrow> sweep_loop env config st' rest)"

definition baseline_methods :: "string list" where
  "baseline_methods = [''airpls'', ''polynomial'', ''spline'']"

definition normalization_methods :: "string list" where
  "normalization_methods = [''min_max'', ''area'', ''peak'', ''vector'']"

definition combinations :: "(string \<times> string) list" where
  "combinations =
     concat (map (\<lambda>baseline_method. map (\<lambda>norm_method. (baseline_method, norm_method))
                                        normalization_methods) baseline_methods)"

text \<open>
  The statements after the loops (lines 4715 to 5213): the value the function returns,
  None or combination\_summary, unless the writing of a report raises. None of them is
  inside a try statement, but the search of the best combinations.
\<close>

definition final_reports ::
  "environment \<Rightarrow> combination_result list \<Rightarrow> py_error + combination_result list option" where
  "final_reports env summary =
     (if summary \<noteq> []
      then (case write_comparison env summary of
              Some e \<Rightarrow> Inl e
            | None \<Rightarrow>
                if rank_combinations env summary
                then (case write_conclusions env summary of
                        Some e \<Rightarrow> Inl e
                      | None \<Rightarrow> Inr (Some summary))
                else Inr None)
      else Inr None)"

text \<open>
  The function: the value returned (None or combination\_summary), with the state it
  leaves: the store of the dicts, the counter, the summary and the RESULT lines logged.
\<close>

definition test_all_baseline_normalization_combinations ::
  "environment \<Rightarrow> store \<Rightarrow> nat
     \<Rightarrow> py_error + combination_result list option \<times> sweep_state" where
  "test_all_baseline_normalization_combinations env h config =
     (case subscript h config ''input_dir'' of
        Inl e \<Rightarrow> Inl e
      | Inr input_dir \<Rightarrow>
      case get_output_dir env h config of
        Inl e \<Rightarrow> Inl e
      | Inr base_output_dir \<Rightarrow>
      case make_analysis_dir env of
        Some e \<Rightarrow> Inl e
      | None \<Rightarrow>
      case open_log env of
        Some e \<Rightarrow> Inl e
      | None \<Rightarrow>
      case path_of input_dir of
        Inl e \<Rightarrow> Inl e
      | Inr input_path \<Rightarrow>
        let st0 = \<lparr>heap = h, combination_count = 0, combination_summary = [], logged = []\<rparr>
        in if glob_csv env 0 = [] then Inr (None, st0)
           else (case sweep_loop env config st0 combinations of
                   Inl e \<Rightarrow> Inl e
                 | Inr st \<Rightarrow>
                     (case final_reports env (combination_summary st) of
                        Inl e \<Rightarrow> Inl e
                      | Inr r \<Rightarrow> Inr (r, st))))"

text \<open>
  A configuration whose groups are nested dicts (addresses 1 and 2), and two environments
  with one input file and no failure of the file system, to run the sweep: in the first
  process\_file finds no peak; in the second it finds no peak when the baseline method of
  the configuration it is given is airpls, and one peak otherwise.
\<close>

definition sweep_config_store :: store where
  "sweep_config_store =
     [Map.empty(''input_dir'' \<mapsto> Str ''data'', ''output_dir'' \<mapsto> Str ''out'',
                ''baseline_correction'' \<mapsto> Ref 1, ''normalization'' \<mapsto> Ref 2),
      Map.empty(''method'' \<mapsto> Str ''polynomial'', ''polynomial_degree'' \<mapsto> Num 3),
      Map.empty(''method'' \<mapsto> Str ''min_max'')]"

definition stub_environment :: environment where
  "stub_environment =
     \<lparr> make_output_dir = None,
       make_analysis_dir = None,
       open_log = None,
       glob_csv = (\<lambda>cc. [''sample.csv'']),
       mkdir = (\<lambda>cc. None),
       combo_dir = (\<lambda>cc. ''combination''),
       process_file = (\<lambda>h test_config file_path. Inr None),
       write_outputs = (\<lambda>cc all_results. None),
       write_comparison = (\<lambda>summary. None),
       rank_combinations = (\<lambda>summary. True),
       write_conclusions = (\<lambda>summary. None) \<rparr>"

definition baseline_method_of :: "store \<Rightarrow> nat \<Rightarrow> py_error + pyval" where
  "baseline_method_of h test_config =
     (case subscript h test_config ''baseline_correction'' of
        Inr (Ref d) \<Rightarrow> subscript h d ''method''
      | Inr _ \<Rightarrow> Inl TypeError
      | Inl e \<Rightarrow> Inl e)"

definition one_peak :: dataframe where
  "one_peak = [\<lparr>label = 0, Centro = 1008, FWHM_Gauss = 10, R2 = 19 / 20\<rparr>]"

definition airpls_fails_environment :: environment where
  "airpls_fails_environment =
     stub_environment
       \<lparr> process_file := (\<lambda>h test_config file_path.
            case baseline_method_of h test_config of
              Inl e \<Rightarrow> Inl e
            | Inr m \<Rightarrow> if m = Str ''airpls'' then Inr None else Inr (Some one_peak)) \<rparr>"

text \<open>The combination an entry of the summary, or a line of the log, stands for.\<close>

definition combination_of :: "combination_result \<Rightarrow> string \<times> string" where
  "combination_of r = (Baseline_Method r, Normalization_Method r)"

definition logged_combination :: "string \<times> string \<times> result_line \<Rightarrow> string \<times> string" where
  "logged_combination e = (fst e, fst (snd e))"


subsection \<open>Gaussian fitting (fit\_gaussian\_profiles)\<close>

text \<open>The dictionary appended to fitted\_params for a fitted peak.\<close>

record fit_result =
  amplitude :: real
  center :: real
  sigma :: real
  offset :: real
  fwhm_gaussian :: real
  area_gaussian :: real
  area_numerical :: real
  r_squared :: real
  chi_squared_reduced :: real
  fit_range :: "real \<times> real"

definition single_gaussian :: "real \<Rightarrow> real \<Rightarrow> real \<Rightarrow> real \<Rightarrow> real \<Rightarrow> real" where
  "single_gaussian v a c s off = a * exp (- (v - c)\<^sup>2 / (2 * s\<^sup>2)) + off"

definition calculate_gaussian_area :: "real \<Rightarrow> real \<Rightarrow> real" where
  "calculate_gaussian_area a s = a * s * sqrt (2 * pi)"

definition np_var :: "real list \<Rightarrow> real" where
  "np_var xs = np_mean (map (\<lambda>v. (v - np_mean xs)\<^sup>2) xs)"

text \<open>
  scipy's curve\_fit and integrate.simpson are parameters. curve\_fit is given the
  samples in the window, the initial parameters and the lower and upper bounds (method,
  maxfev and the tolerances are fixed for a call of fit\_gaussian\_profiles); it returns
  popt or raises.
\<close>

type_synonym curve_fit_args = "real list \<times> real list \<times> real list \<times> real list \<times> real list"

definition fit_window :: "real list \<Rightarrow> real \<Rightarrow> real \<Rightarrow> real \<times> real" where
  "fit_window x left_pos right_pos =
     (let width = right_pos - left_pos;
          margin = 0.2 * width;
          left_with_margin = max (Min (set x)) (left_pos - margin);
          right_with_margin = min (Max (set x)) (right_pos + margin)
      in (left_with_margin, right_with_margin))"

definition fit_mask :: "real list \<Rightarrow> real \<times> real \<Rightarrow> bool list" where
  "fit_mask x w = map (\<lambda>v. v \<ge> fst w \<and> v \<le> snd w) x"

definition fit_arguments ::
  "real list \<Rightarrow> real list \<Rightarrow> nat \<Rightarrow> real \<Rightarrow> real \<Rightarrow> curve_fit_args" where
  "fit_arguments x y peak_idx left_pos right_pos =
     (let x_peak = x ! peak_idx;
          y_peak = y ! peak_idx;
          width = right_pos - left_pos;
          msk = fit_mask x (fit_window x left_pos right_pos);
          x_fit = select msk x;
          y_fit = select msk y;
          initial_params = [y_peak, x_peak, width / 2.355, 0.0]
      in (x_fit, y_fit, initial_params,
          [0, Min (set x_fit), 0, - 0.1],
          [min 1.0 (2 * y_peak), Max (set x_fit), width, 0.1]))"

text \<open>
  The body of the loop for the i-th peak: \<open>Inl\<close> for an exception before the try
  statement, \<open>Inr None\<close> for a peak that is skipped (continue), \<open>Inr (Some r)\<close>
  for a row appended. Any exception inside the try statement is caught. A quotient
  whose denominator is zero (ss\_total, the variance) is inf or NaN in numpy and has no
  meaning here.
\<close>

definition fit_peak ::
  "(curve_fit_args \<Rightarrow> py_error + real list) \<Rightarrow> (real list \<Rightarrow> real list \<Rightarrow> py_error + real)
   \<Rightarrow> real list \<Rightarrow> real list \<Rightarrow> nat list \<Rightarrow> real list \<Rightarrow> real list \<Rightarrow> nat
   \<Rightarrow> py_error + fit_result option" where
  "fit_peak curve_fit simpson x y peaks_indices fwhm_left_ips fwhm_right_ips i =
     (let peak_idx = peaks_indices ! i in
      if \<not> peak_idx < length x \<or> \<not> peak_idx < length y then Inl IndexError
      else if \<not> i < length fwhm_left_ips \<or> \<not> i < length fwhm_right_ips then Inl IndexError
      else
        let left_pos = fwhm_left_ips ! i;
            right_pos = fwhm_right_ips ! i;
            w = fit_window x left_pos right_pos;
            msk = fit_mask x w;
            x_fit = select msk x
        in if length y \<noteq> length x then Inl IndexError
           else
             let y_fit = select msk y in
             if length x_fit < 5 then Inr None
             else
               case curve_fit (fit_arguments x y peak_idx left_pos right_pos) of
                 Inl e \<Rightarrow> Inr None
               | Inr popt \<Rightarrow>
                   (case popt of
                      [a, c, s, off] \<Rightarrow>
                        let residuals = map2 (-) y_fit (map (\<lambda>v. single_gaussian v a c s off) x_fit);
                            ss_residuals = sum_list (map (\<lambda>v. v\<^sup>2) residuals);
                            ss_total = sum_list (map (\<lambda>v. (v - np_mean y_fit)\<^sup>2) y_fit);
                            r_sq = 1 - ss_residuals / ss_total;
                            degrees_of_freedom = max 1 (int (length y_fit) - int (length popt));
                            chi_squared = sum_list (map (\<lambda>v. v\<^sup>2 / np_var y_fit) residuals);
                            chi_red = chi_squared / real_of_int degrees_of_freedom;
                            gaussian_area = calculate_gaussian_area a s;
                            y_fitted_range = map (\<lambda>v. single_gaussian v a c s off - off) x_fit
                        in (case simpson y_fitted_range x_fit of
                              Inl e \<Rightarrow> Inr None
                            | Inr numerical_area \<Rightarrow>
                                Inr (Some \<lparr>amplitude = a, center = c, sigma = s, offset = off,
                                           fwhm_gaussian = 2.355 * s,
                                           area_gaussian = gaussian_area,
                                           area_numerical = numerical_area,
                                           r_squared = r_sq,
                                           chi_squared_reduced = chi_red,
                                           fit_range = w\<rparr>))
                    | _ \<Rightarrow> Inr None))"

fun fit_loop ::
  "(nat \<Rightarrow> py_error + fit_result option) \<Rightarrow> nat list \<Rightarrow> fit_result list
   \<Rightarrow> py_error + fit_result list" where
  "fit_loop body [] fitted_params = Inr fitted_params"
| "fit_loop body (i # rest) fitted_params =
     (case body i of
        Inl e \<Rightarrow> Inl e
      | Inr None \<Rightarrow> fit_loop body rest fitted_params
      | Inr (Some fit_res) \<Rightarrow> fit_loop body rest (fitted_params @ [fit_res]))"

definition fit_gaussian_profiles ::
  "(curve_fit_args \<Rightarrow> py_error + real list) \<Rightarrow> (real list \<Rightarrow> real list \<Rightarrow> py_error + real)
   \<Rightarrow> real list \<Rightarrow> real list \<Rightarrow> nat list \<Rightarrow> real list \<Rightarrow> real list
   \<Rightarrow> py_error + fit_result list" where
  "fit_gaussian_profiles curve_fit simpson x y peaks_indices fwhm_left_ips fwhm_right_ips =
     fit_loop (fit_peak curve_fit simpson x y peaks_indices fwhm_left_ips fwhm_right_ips)
              [0..<length peaks_indices] []"

text \<open>The row a peak contributes, if any.\<close>

definition fitted_row :: "py_error + fit_result option \<Rightarrow> fit_result option" where
  "fitted_row r = (case r of Inl e \<Rightarrow> None | Inr v \<Rightarrow> v)"

text \<open>
  An optimizer that raises for the peak at x = 5 and returns fixed parameters otherwise,
  and a constant integral, to run the fitter at a concrete input.
\<close>

definition stub_curve_fit :: "curve_fit_args \<Rightarrow> py_error + real list" where
  "stub_curve_fit args =
     (case args of (x_fit, y_fit, p0, lower, upper) \<Rightarrow>
        if p0 ! 1 = 5 then Inl OtherError else Inr [1, 8, 1, 0])"

definition stub_simpson :: "real list \<Rightarrow> real list \<Rightarrow> py_error + real" where
  "stub_simpson ys xs = Inr 2.5"

subsection \<open>Outlier detection (detect\_and\_remove\_outliers)\<close>

text \<open>
  pandas statistics of a Series: the mean, the standard deviation with n - 1 in the
  denominator, and the quantile with linear interpolation between the two nearest order
  statistics. The mean of no value and the standard deviation of fewer than two are NaN
  in pandas and have no meaning here; the code reads the quantiles from 4 values on and
  the standard deviation from 3 values on.
\<close>

definition pd_mean :: "real list \<Rightarrow> real" where
  "pd_mean xs = sum_list xs / real (length xs)"

definition pd_std :: "real list \<Rightarrow> real" where
  "pd_std xs = sqrt (sum_list (map (\<lambda>v. (v - pd_mean xs)\<^sup>2) xs) / (real (length xs) - 1))"

definition quantile :: "real list \<Rightarrow> real \<Rightarrow> real" where
  "quantile xs q =
     (let s = sort xs;
          pos = (real (length xs) - 1) * q;
          lo = nat \<lfloor>pos\<rfloor>;
          hi = min (lo + 1) (length xs - 1)
      in s ! lo + (pos - real lo) * (s ! hi - s ! lo))"

text \<open>The mask of a region over the column Centro, as the loop builds it.\<close>

definition region_mask :: "region_name \<times> real \<times> real \<times> bool \<Rightarrow> peak_row \<Rightarrow> bool" where
  "region_mask reg r =
     (case reg of (region_name, min_wave, max_wave, is_inclusive) \<Rightarrow>
        if is_inclusive then Centro r \<ge> min_wave \<and> Centro r \<le> max_wave
        else Centro r \<ge> min_wave \<and> Centro r < max_wave)"

text \<open>
  df[mask].index, the labels of the selected rows, and df.drop(labels), which raises
  KeyError for a label that is not in the index and removes every row with a label given.
\<close>

definition index_of :: "(peak_row \<Rightarrow> bool) \<Rightarrow> dataframe \<Rightarrow> nat list" where
  "index_of msk df = map label (filter msk df)"

definition drop_labels :: "dataframe \<Rightarrow> nat set \<Rightarrow> py_error + dataframe" where
  "drop_labels df labels =
     (if labels \<subseteq> set (map label df) then Inr (filter (\<lambda>r. label r \<notin> labels) df)
      else Inl KeyError)"

text \<open>The masks of criteria 2 and 3 over the FWHM values of a region.\<close>

definition iqr_outliers_mask :: "real list \<Rightarrow> peak_row \<Rightarrow> bool" where
  "iqr_outliers_mask fwhm_values r =
     (let Q1 = quantile fwhm_values 0.25;
          Q3 = quantile fwhm_values 0.75;
          IQR = Q3 - Q1;
          lower_bound = Q1 - 1.5 * IQR;
          upper_bound = Q3 + 1.5 * IQR
      in FWHM_Gauss r < lower_bound \<or> FWHM_Gauss r > upper_bound)"

definition z_outliers_mask :: "real list \<Rightarrow> peak_row \<Rightarrow> bool" where
  "z_outliers_mask fwhm_values r =
     (\<bar>(FWHM_Gauss r - pd_mean fwhm_values) / pd_std fwhm_values\<bar> > 3)"

text \<open>
  The set outliers\_indices of a region: the labels flagged by the four criteria, each
  added with set.update.
\<close>

definition region_outliers :: "dataframe \<Rightarrow> nat set" where
  "region_outliers region_data =
     (let outliers_indices = {};
          poor_fit_indices = index_of (\<lambda>r. R2 r < 0.3) region_data;
          outliers_indices = outliers_indices \<union> set poor_fit_indices;
          fwhm_values = map FWHM_Gauss region_data;
          outliers_indices =
            (if length fwhm_values \<ge> 4
             then outliers_indices \<union> set (index_of (iqr_outliers_mask fwhm_values) region_data)
             else outliers_indices);
          outliers_indices =
            (if length fwhm_values \<ge> 3 \<and> pd_std fwhm_values > 0
             then outliers_indices \<union> set (index_of (z_outliers_mask fwhm_values) region_data)
             else outliers_indices);
          extreme_fwhm_indices = index_of (\<lambda>r. FWHM_Gauss r > 60) region_data;
          outliers_indices = outliers_indices \<union> set extreme_fwhm_indices
      in outliers_indices)"

text \<open>The statistics dictionaries and the report entry of a region.\<close>

record region_stats =
  stat_count :: nat
  fwhm_mean :: real
  fwhm_std :: real
  fwhm_cv :: real
  r2_mean :: real
  fwhm_min :: real
  fwhm_max :: real

definition describe :: "dataframe \<Rightarrow> region_stats" where
  "describe d =
     \<lparr>stat_count = length d,
      fwhm_mean = pd_mean (map FWHM_Gauss d),
      fwhm_std = pd_std (map FWHM_Gauss d),
      fwhm_cv = (pd_std (map FWHM_Gauss d) / pd_mean (map FWHM_Gauss d)) * 100,
      r2_mean = pd_mean (map R2 d),
      fwhm_min = Min (set (map FWHM_Gauss d)),
      fwhm_max = Max (set (map FWHM_Gauss d))\<rparr>"

definition zero_stats :: region_stats where
  "zero_stats = \<lparr>stat_count = 0, fwhm_mean = 0, fwhm_std = 0, fwhm_cv = 0, r2_mean = 0,
                 fwhm_min = 0, fwhm_max = 0\<rparr>"

record region_report =
  initial_count :: nat
  outliers_removed :: nat
  remaining_count :: nat
  outlier_percentage :: real
  outlier_indices :: "nat set"
  stats_before :: "region_stats option"
  stats_after :: "region_stats option"

text \<open>
  The variables the loop over the regions updates. stats\_before is a local variable
  that one branch leaves unassigned: it is unbound (None here) until an iteration
  assigns it, and keeps the value of an earlier iteration afterwards.
\<close>

record clean_state =
  cleaned_df :: dataframe
  outlier_report :: "(region_name \<times> region_report) list"
  total_outliers_removed :: nat
  stats_before_var :: "region_stats option option"

text \<open>
  One iteration of the loop over spectral\_regions.items(). When every row of the region
  is an outlier only stats\_after is assigned, and building the report entry reads
  stats\_before: UnboundLocalError if no earlier iteration assigned it.
\<close>

definition process_region ::
  "dataframe \<Rightarrow> clean_state \<Rightarrow> region_name \<times> real \<times> real \<times> bool \<Rightarrow> py_error + clean_state" where
  "process_region results_df st reg =
     (let region_data = filter (region_mask reg) results_df in
      if length region_data = 0 then Inr st
      else
        let n0 = length region_data;
            outliers_indices = region_outliers region_data;
            region_outliers_count = card outliers_indices
        in case drop_labels (cleaned_df st) outliers_indices of
             Inl e \<Rightarrow> Inl e
           | Inr cleaned \<Rightarrow>
               let remaining_data = filter (\<lambda>r. label r \<notin> outliers_indices) region_data;
                   before =
                     (if region_outliers_count > 0
                      then (if length remaining_data > 0 then Some (Some (describe region_data))
                            else stats_before_var st)
                      else Some None);
                   after =
                     (if region_outliers_count > 0
                      then (if length remaining_data > 0 then Some (describe remaining_data)
                            else Some zero_stats)
                      else None)
               in case before of
                    None \<Rightarrow> Inl UnboundLocalError
                  | Some sb \<Rightarrow>
                      Inr (st\<lparr>cleaned_df := cleaned,
                              total_outliers_removed :=
                                total_outliers_removed st + region_outliers_count,
                              stats_before_var := Some sb,
                              outlier_report := outlier_report st @
                                [(fst reg,
                                  \<lparr>initial_count = n0,
                                   outliers_removed = region_outliers_count,
                                   remaining_count = n0 - region_outliers_count,
                                   outlier_percentage =
                                     (real region_outliers_count / real n0) * 100,
                                   outlier_indices = outliers_indices,
                                   stats_before = sb,
                                   stats_after = after\<rparr>)]\<rparr>))"

fun region_loop ::
  "dataframe \<Rightarrow> clean_state \<Rightarrow> (region_name \<times> real \<times> real \<times> bool) list
   \<Rightarrow> py_error + clean_state" where
  "region_loop results_df st [] = Inr st"
| "region_loop results_df st (reg # regs) =
     (case process_region results_df st reg of
        Inl e \<Rightarrow> Inl e
      | Inr st' \<Rightarrow> region_loop results_df st' regs)"

text \<open>
  The function: the loop, then the peaks outside every region, then (verbose) the
  summary, whose percentage divides by len(results\_df). The other printed lines are
  left out.
\<close>

definition detect_and_remove_outliers ::
  "dataframe \<Rightarrow> bool \<Rightarrow> py_error + dataframe \<times> (region_name \<times> region_report) list" where
  "detect_and_remove_outliers results_df verbose =
     (case region_loop results_df
             \<lparr>cleaned_df = results_df, outlier_report = [], total_outliers_removed = 0,
              stats_before_var = None\<rparr>
             get_zircon_spectral_regions of
        Inl e \<Rightarrow> Inl e
      | Inr st \<Rightarrow>
          let unclassified_data =
                filter (\<lambda>r. \<not> list_ex (\<lambda>reg. region_mask reg r) get_zircon_spectral_regions)
                       results_df;
              unclassified_outliers_indices =
                index_of (\<lambda>r. R2 r < 0.5 \<or> FWHM_Gauss r > 50) unclassified_data;
              dropped =
                (if length unclassified_data > 0 \<and> length unclassified_outliers_indices > 0
                 then drop_labels (cleaned_df st) (set unclassified_outliers_indices)
                 else Inr (cleaned_df st))
          in case dropped of
               Inl e \<Rightarrow> Inl e
             | Inr cleaned \<Rightarrow>
                 if verbose \<and> length results_df = 0 then Inl ZeroDivisionError
                 else Inr (cleaned, outlier_report st))"

text \<open>
  The four criteria for a row of a region with the rows d, and the rows the pass removes:
  an outlier of its region, or a peak outside every region with R2 < 0.5 or FWHM > 50.
\<close>

definition is_outlier :: "dataframe \<Rightarrow> peak_row \<Rightarrow> bool" where
  "is_outlier d r =
     (R2 r < 0.3
      \<or> (length d \<ge> 4 \<and> iqr_outliers_mask (map FWHM_Gauss d) r)
      \<or> (length d \<ge> 3 \<and> pd_std (map FWHM_Gauss d) > 0 \<and> z_outliers_mask (map FWHM_Gauss d) r)
      \<or> FWHM_Gauss r > 60)"

definition removed_row :: "dataframe \<Rightarrow> peak_row \<Rightarrow> bool" where
  "removed_row t x =
     ((\<exists>A\<in>set get_zircon_spectral_regions.
          region_mask A x \<and> is_outlier (filter (region_mask A) t) x)
      \<or> (\<not> list_ex (\<lambda>reg. region_mask reg x) get_zircon_spectral_regions
          \<and> (R2 x < 0.5 \<or> FWHM_Gauss x > 50)))"


text \<open>
  Tables to run the pass on. table\_a: five peaks of the region nu2 (430 to 450) with FWHM
  10, 10, 10, 11, 20; table\_a1 and table\_a2 are its first four and first three rows.
  table\_b: five peaks of the region nu3 (990 to 1020), the last with R2 = 0.1 and
  FWHM = 70, and two peaks outside every region, with R2 = 0.4 and R2 = 0.6.
\<close>

definition mk_row :: "nat \<Rightarrow> real \<Rightarrow> real \<Rightarrow> real \<Rightarrow> peak_row" where
  "mk_row i c f r = \<lparr>label = i, Centro = c, FWHM_Gauss = f, R2 = r\<rparr>"

definition table_a :: dataframe where
  "table_a = [mk_row 0 440 10 0.9, mk_row 1 440 10 0.9, mk_row 2 440 10 0.9,
              mk_row 3 440 11 0.9, mk_row 4 440 20 0.9]"

definition table_a1 :: dataframe where
  "table_a1 = [mk_row 0 440 10 0.9, mk_row 1 440 10 0.9, mk_row 2 440 10 0.9,
               mk_row 3 440 11 0.9]"

definition table_a2 :: dataframe where
  "table_a2 = [mk_row 0 440 10 0.9, mk_row 1 440 10 0.9, mk_row 2 440 10 0.9]"




section \<open>Properties\<close>

subsection \<open>Region classification\<close>

lemma regions_matching_cases:
  "regions_matching c =
     (if 990 \<le> c \<and> c \<le> 1020 then [Nu3_SiO4]
      else if 965 \<le> c \<and> c \<le> 985 then [Nu1_SiO4]
      else if 430 \<le> c \<and> c \<le> 450 then [Nu2_SiO4]
      else if 195 \<le> c \<and> c < 210 then [External_mode_1]
      else if 210 \<le> c \<and> c < 220 then [External_mode_2]
      else if 220 \<le> c \<and> c < 230 then [External_mode_3]
      else if 350 \<le> c \<and> c \<le> 365 then [External_mode_4]
      else [])"
  by (simp add: regions_matching_def get_zircon_spectral_regions_def is_peak_in_region_def)

lemma region_counts_sum:
  "sum_list (map (region_count cs) get_zircon_spectral_regions) + unclassified_count cs
     = length cs"
proof (induction cs)
  case Nil
  show ?case
    by (simp add: get_zircon_spectral_regions_def region_count_def unclassified_count_def)
next
  case (Cons c cs)
  have step: "sum_list (map (region_count (c # cs)) get_zircon_spectral_regions)
                + unclassified_count (c # cs)
            = Suc (sum_list (map (region_count cs) get_zircon_spectral_regions)
                + unclassified_count cs)"
    by (simp add: get_zircon_spectral_regions_def region_count_def unclassified_count_def
                  regions_matching_cases is_peak_in_region_def)
  show ?case using Cons.IH step by simp
qed

text \<open>
  C6 (as stated, at the boundary 230): the claim says that 230 maps to exactly one region.
  External mode 3 is the half-open interval [220, 230) and no other region contains 230,
  so no membership test accepts it.
\<close>

theorem boundary_230_counterexample:
  "\<not> (length (regions_matching 230) = 1)"
  by (simp add: regions_matching_cases)

text \<open>
  C6 (amended): for every center at most one of the seven membership tests is true; the
  region counts plus the unclassified count of any list of centers equal its length; the
  boundaries 210, 220 and 365 map to exactly one region each (External mode 2, External
  mode 3, External mode 4) and 230 maps to none.
\<close>

theorem region_classification_partition:
  "length (regions_matching c) \<le> 1
   \<and> sum_list (map (region_count cs) get_zircon_spectral_regions) + unclassified_count cs
       = length cs
   \<and> regions_matching 210 = [External_mode_2]
   \<and> regions_matching 220 = [External_mode_3]
   \<and> regions_matching 365 = [External_mode_4]
   \<and> regions_matching 230 = []"
proof -
  have a: "length (regions_matching c) \<le> 1"
    by (simp add: regions_matching_cases)
  have b: "regions_matching 210 = [External_mode_2]" "regions_matching 220 = [External_mode_3]"
          "regions_matching 365 = [External_mode_4]" "regions_matching 230 = []"
    by (simp_all add: regions_matching_cases)
  show ?thesis using a b region_counts_sum [of cs] by simp
qed

theorem region_classification_partition_witness:
  "length (regions_matching 209.5) \<le> 1
   \<and> sum_list (map (region_count [209.5, 210, 230, 1008]) get_zircon_spectral_regions)
       + unclassified_count [209.5, 210, 230, 1008] = 4
   \<and> regions_matching 210 = [External_mode_2]"
  using region_classification_partition [of "209.5" "[209.5, 210, 230, 1008]"] by simp

subsection \<open>Binary64 rounding\<close>

lemma rte_bounds: "\<lfloor>t\<rfloor> \<le> round_ties_even t \<and> round_ties_even t \<le> \<lfloor>t\<rfloor> + 1"
  by (simp add: round_ties_even_def Let_def)

lemma rte_of_int [simp]: "round_ties_even (of_int n) = n"
  by (simp add: round_ties_even_def Let_def)

lemma rte_mono:
  assumes "a \<le> b"
  shows "round_ties_even a \<le> round_ties_even b"
proof (cases "\<lfloor>a\<rfloor> = \<lfloor>b\<rfloor>")
  case True
  with assms show ?thesis
    by (auto simp: round_ties_even_def Let_def)
next
  case False
  with assms have "\<lfloor>a\<rfloor> < \<lfloor>b\<rfloor>" using floor_mono [OF assms] by linarith
  with rte_bounds [of a] rte_bounds [of b] show ?thesis by linarith
qed

text \<open>A multiple of the unit in the last place of \<open>x\<close> bounds the rounded value as it bounds \<open>x\<close>.\<close>

lemma round64_grid_le:
  assumes x: "x \<noteq> 0" and xB: "x \<le> B" and g: "B / 2 powi ulp_exponent x = of_int n"
  shows "round64 x \<le> B"
proof -
  let ?u = "(2::real) powi ulp_exponent x"
  have u: "0 < ?u" by simp
  have "x / ?u \<le> B / ?u" using xB u by (simp add: divide_right_mono)
  then have "round_ties_even (x / ?u) \<le> round_ties_even (B / ?u)" by (rule rte_mono)
  then have "round_ties_even (x / ?u) \<le> n" using g by simp
  then have "of_int (round_ties_even (x / ?u)) * ?u \<le> of_int n * ?u"
    using u by simp
  also have "of_int n * ?u = B" using g u by (simp add: field_simps)
  finally show ?thesis using x by (simp add: round64_def)
qed

lemma round64_grid_ge:
  assumes x: "x \<noteq> 0" and xB: "B \<le> x" and g: "B / 2 powi ulp_exponent x = of_int n"
  shows "B \<le> round64 x"
proof -
  let ?u = "(2::real) powi ulp_exponent x"
  have u: "0 < ?u" by simp
  have "B / ?u \<le> x / ?u" using xB u by (simp add: divide_right_mono)
  then have "round_ties_even (B / ?u) \<le> round_ties_even (x / ?u)" by (rule rte_mono)
  then have "n \<le> round_ties_even (x / ?u)" using g by simp
  then have "of_int n * ?u \<le> of_int (round_ties_even (x / ?u)) * ?u"
    using u by simp
  moreover have "of_int n * ?u = B" using g u by (simp add: field_simps)
  ultimately show ?thesis using x by (simp add: round64_def)
qed

lemma binade:
  assumes "0 < (x::real)"
  shows "2 powi \<lfloor>log 2 x\<rfloor> \<le> x \<and> x < 2 powi (\<lfloor>log 2 x\<rfloor> + 1)"
proof -
  have "2 powr (of_int \<lfloor>log 2 x\<rfloor>) \<le> x \<and> x < 2 powr (of_int \<lfloor>log 2 x\<rfloor> + 1)"
    using floor_log_eq_powr_iff [of x 2 "\<lfloor>log 2 x\<rfloor>"] assms by simp
  moreover have "(2::real) powr (of_int \<lfloor>log 2 x\<rfloor>) = 2 powi \<lfloor>log 2 x\<rfloor>"
    by (rule powr_real_of_int') simp_all
  moreover have "(2::real) powr (of_int \<lfloor>log 2 x\<rfloor> + 1) = 2 powi (\<lfloor>log 2 x\<rfloor> + 1)"
    using powr_real_of_int' [of 2 "\<lfloor>log 2 x\<rfloor> + 1"] by simp
  ultimately show ?thesis by simp
qed

lemma pow2_quotient_int:
  assumes "b \<le> a"
  shows "(2::real) powi a / 2 powi b = of_int (2 ^ nat (a - b))"
proof -
  have "(2::real) powi a / 2 powi b = 2 powi (a - b)"
    by (simp add: power_int_diff)
  also have "\<dots> = 2 powi int (nat (a - b))" using assms by simp
  also have "\<dots> = 2 ^ nat (a - b)" by (rule power_int_of_nat)
  finally show ?thesis by simp
qed

lemma ulp_exponent_mono:
  assumes "0 < \<bar>x\<bar>" "\<bar>x\<bar> \<le> \<bar>y\<bar>"
  shows "ulp_exponent x \<le> ulp_exponent y"
proof -
  have "log 2 \<bar>x\<bar> \<le> log 2 \<bar>y\<bar>" using assms by simp
  then have "\<lfloor>log 2 \<bar>x\<bar>\<rfloor> \<le> \<lfloor>log 2 \<bar>y\<bar>\<rfloor>" by (rule floor_mono)
  then show ?thesis by (simp add: ulp_exponent_def)
qed

text \<open>
  Rounding is monotone. Inside one binade it is the monotone rounding of the significand;
  between two binades lies a power of two, a multiple of both units in the last place.
\<close>

lemma round64_mono_pos:
  assumes x: "0 < x" and xy: "x \<le> y"
  shows "round64 x \<le> round64 y"
proof (cases "ulp_exponent x = ulp_exponent y")
  case True
  let ?u = "(2::real) powi ulp_exponent y"
  have "x / ?u \<le> y / ?u" using xy by (simp add: divide_right_mono)
  then have "round_ties_even (x / ?u) \<le> round_ties_even (y / ?u)" by (rule rte_mono)
  then have "of_int (round_ties_even (x / ?u)) * ?u \<le> of_int (round_ties_even (y / ?u)) * ?u"
    by simp
  with True x xy show ?thesis by (simp add: round64_def)
next
  case False
  let ?ex = "\<lfloor>log 2 x\<rfloor>" and ?ey = "\<lfloor>log 2 y\<rfloor>"
  have y: "0 < y" using x xy by simp
  have le: "ulp_exponent x \<le> ulp_exponent y"
    using ulp_exponent_mono [of x y] x xy by simp
  with False have lt: "ulp_exponent x < ulp_exponent y" by simp
  have ux: "ulp_exponent x = max (?ex - 52) (- 1074)"
    and uy: "ulp_exponent y = max (?ey - 52) (- 1074)"
    using x y by (simp_all add: ulp_exponent_def)
  from lt ux uy have uy': "ulp_exponent y = ?ey - 52" and exy: "?ex < ?ey" by auto
  let ?B = "(2::real) powi ?ey"
  have "x < 2 powi (?ex + 1)" using binade [OF x] by simp
  also have "(2::real) powi (?ex + 1) \<le> ?B"
    using exy by (intro power_int_increasing) auto
  finally have xB: "x \<le> ?B" by simp
  have By: "?B \<le> y" using binade [OF y] by simp
  have gy: "?B / 2 powi ulp_exponent y = of_int (2 ^ nat (?ey - ulp_exponent y))"
    by (rule pow2_quotient_int) (simp add: uy')
  have gx: "?B / 2 powi ulp_exponent x = of_int (2 ^ nat (?ey - ulp_exponent x))"
    by (rule pow2_quotient_int) (use lt uy' in simp)
  have "round64 x \<le> ?B" using round64_grid_le [OF _ xB gx] x by simp
  also have "?B \<le> round64 y" using round64_grid_ge [OF _ By gy] y by simp
  finally show ?thesis .
qed

lemma round64_mono_neg:
  assumes y: "y < 0" and xy: "x \<le> y"
  shows "round64 x \<le> round64 y"
proof (cases "ulp_exponent x = ulp_exponent y")
  case True
  let ?u = "(2::real) powi ulp_exponent y"
  have "x / ?u \<le> y / ?u" using xy by (simp add: divide_right_mono)
  then have "round_ties_even (x / ?u) \<le> round_ties_even (y / ?u)" by (rule rte_mono)
  then have "of_int (round_ties_even (x / ?u)) * ?u \<le> of_int (round_ties_even (y / ?u)) * ?u"
    by simp
  with True y xy show ?thesis by (simp add: round64_def)
next
  case False
  let ?ex = "\<lfloor>log 2 \<bar>x\<bar>\<rfloor>" and ?ey = "\<lfloor>log 2 \<bar>y\<bar>\<rfloor>"
  have x: "x < 0" using y xy by simp
  have le: "ulp_exponent y \<le> ulp_exponent x"
    using ulp_exponent_mono [of y x] y xy by simp
  with False have lt: "ulp_exponent y < ulp_exponent x" by simp
  have ux: "ulp_exponent x = max (?ex - 52) (- 1074)"
    and uy: "ulp_exponent y = max (?ey - 52) (- 1074)"
    by (simp_all add: ulp_exponent_def)
  from lt ux uy have ux': "ulp_exponent x = ?ex - 52" and exy: "?ey < ?ex" by auto
  let ?B = "- ((2::real) powi ?ex)"
  have ax: "0 < \<bar>x\<bar>" and ay: "0 < \<bar>y\<bar>" using x y by simp_all
  have "\<bar>y\<bar> < 2 powi (?ey + 1)" using binade [OF ay] by simp
  also have "(2::real) powi (?ey + 1) \<le> 2 powi ?ex"
    using exy by (intro power_int_increasing) auto
  finally have By: "?B \<le> y" using y by simp
  have "2 powi ?ex \<le> \<bar>x\<bar>" using binade [OF ax] by simp
  then have xB: "x \<le> ?B" using x by simp
  have gx: "?B / 2 powi ulp_exponent x = of_int (- (2 ^ nat (?ex - ulp_exponent x)))"
    using pow2_quotient_int [of "ulp_exponent x" ?ex] by (simp add: ux')
  have gy: "?B / 2 powi ulp_exponent y = of_int (- (2 ^ nat (?ex - ulp_exponent y)))"
    using pow2_quotient_int [of "ulp_exponent y" ?ex] lt ux' by simp
  have "round64 x \<le> ?B" using round64_grid_le [OF _ xB gx] x by simp
  also have "?B \<le> round64 y" using round64_grid_ge [OF _ By gy] y by simp
  finally show ?thesis .
qed

lemma round64_nonneg: "0 \<le> x \<Longrightarrow> 0 \<le> round64 x"
proof (cases "x = 0")
  case True then show ?thesis by (simp add: round64_def)
next
  case False
  assume "0 \<le> x"
  have "(0::real) / 2 powi ulp_exponent x = of_int 0" by simp
  from round64_grid_ge [OF False \<open>0 \<le> x\<close> this] show ?thesis .
qed

lemma round64_nonpos: "x \<le> 0 \<Longrightarrow> round64 x \<le> 0"
proof (cases "x = 0")
  case True then show ?thesis by (simp add: round64_def)
next
  case False
  assume "x \<le> 0"
  have "(0::real) / 2 powi ulp_exponent x = of_int 0" by simp
  from round64_grid_le [OF False \<open>x \<le> 0\<close> this] show ?thesis .
qed

lemma round64_mono:
  assumes "x \<le> y"
  shows "round64 x \<le> round64 y"
proof -
  consider "0 < x" | "y < 0" | "x \<le> 0" "0 \<le> y" by linarith
  then show ?thesis
  proof cases
    case 1 then show ?thesis using assms by (rule round64_mono_pos)
  next
    case 2 then show ?thesis using assms by (rule round64_mono_neg)
  next
    case 3
    then have "round64 x \<le> 0" "0 \<le> round64 y"
      by (simp_all add: round64_nonpos round64_nonneg)
    then show ?thesis by simp
  qed
qed

text \<open>Evaluation of a rounding, from the binade of the exact value.\<close>

lemma ulp_exponent_eval:
  assumes "2 powi k \<le> \<bar>x\<bar>" "\<bar>x\<bar> < 2 powi (k + 1)" "- 1022 \<le> k"
  shows "ulp_exponent x = k - 52"
proof -
  have pos: "0 < \<bar>x\<bar>" using assms(1) zero_less_power_int [of "2::real" k] by linarith
  have a: "(2::real) powr (of_int k) = 2 powi k"
    by (rule powr_real_of_int') simp_all
  have b: "(2::real) powr (of_int k + 1) = 2 powi (k + 1)"
    using powr_real_of_int' [of 2 "k + 1"] by simp
  have "\<lfloor>log 2 \<bar>x\<bar>\<rfloor> = k"
    using floor_log_eq_powr_iff [of "\<bar>x\<bar>" 2 k] pos assms a b by simp
  then show ?thesis using assms(3) by (simp add: ulp_exponent_def)
qed

lemma to_float64_cases:
  "to_float64 x = PosInf \<or> to_float64 x = NegInf \<or> to_float64 x = Finite (round64 x)"
  by (simp add: to_float64_def Let_def)

lemma to_float64_not_nan [simp]: "to_float64 x \<noteq> NaN64"
  using to_float64_cases [of x] by auto

lemma to_float64_zero: "to_float64 0 = Finite 0"
  by (simp add: to_float64_def round64_def)

lemma f_le_NegInf [simp]: "f_le NegInf b = (b \<noteq> NaN64)"
  by (cases b) simp_all

lemma f_le_PosInf [simp]: "f_le a PosInf = (a \<noteq> NaN64)"
  by (cases a) simp_all

lemma to_float64_mono:
  assumes "x \<le> y"
  shows "f_le (to_float64 x) (to_float64 y)"
proof -
  have "round64 x \<le> round64 y" using assms by (rule round64_mono)
  then show ?thesis by (simp add: to_float64_def Let_def)
qed

lemma f_mul_mono:
  assumes c: "0 < c" and ab: "f_le a b"
  shows "f_le (f_mul (Finite c) a) (f_mul (Finite c) b)"
proof (cases a)
  case (Finite x)
  show ?thesis
  proof (cases b)
    case (Finite y)
    with \<open>a = Finite x\<close> ab have "c * x \<le> c * y" using c by simp
    then show ?thesis using \<open>a = Finite x\<close> Finite by (simp add: to_float64_mono)
  qed (use Finite ab c in simp_all)
next
  case NegInf
  with ab c show ?thesis by (cases b) simp_all
qed (use ab c in \<open>cases b; simp\<close>)+

lemma f_add_mono:
  assumes ab: "f_le a b"
  shows "f_le (f_add (Finite c) a) (f_add (Finite c) b)"
proof (cases a)
  case (Finite x)
  show ?thesis
  proof (cases b)
    case (Finite y)
    with \<open>a = Finite x\<close> ab have "c + x \<le> c + y" by simp
    then show ?thesis using \<open>a = Finite x\<close> Finite by (simp add: to_float64_mono)
  qed (use Finite ab in simp_all)
next
  case NegInf
  with ab show ?thesis by (cases b) simp_all
qed (use ab in \<open>cases b; simp\<close>)+

lemma to_float64_eval:
  assumes "2 powi k \<le> \<bar>x\<bar>" "\<bar>x\<bar> < 2 powi (k + 1)" "- 1022 \<le> k" "k < 1023"
  shows "to_float64 x = Finite (of_int (round_ties_even (x / 2 powi (k - 52))) * 2 powi (k - 52))"
proof -
  let ?u = "(2::real) powi (k - 52)"
  let ?B = "(2::real) powi (k + 1)"
  have uk: "ulp_exponent x = k - 52" using assms(1-3) by (rule ulp_exponent_eval)
  have "0 < (2::real) powi k" by simp
  with assms(1) have "0 < \<bar>x\<bar>" by linarith
  then have x0: "x \<noteq> 0" by simp
  have r: "round64 x = of_int (round_ties_even (x / ?u)) * ?u"
    using x0 uk by (simp add: round64_def)
  have g1: "?B / 2 powi ulp_exponent x = of_int (2 ^ nat (k + 1 - ulp_exponent x))"
    by (rule pow2_quotient_int) (simp add: uk)
  have g2: "(- ?B) / 2 powi ulp_exponent x = of_int (- (2 ^ nat (k + 1 - ulp_exponent x)))"
    using g1 by simp
  have "x \<le> ?B" "- ?B \<le> x" using assms(2) by simp_all
  then have "round64 x \<le> ?B" "- ?B \<le> round64 x"
    using round64_grid_le [OF x0 _ g1] round64_grid_ge [OF x0 _ g2] by simp_all
  moreover have "?B < 2 ^ 1024"
  proof -
    have "?B \<le> 2 powi 1023" using assms(4) by (intro power_int_increasing) simp_all
    also have "(2::real) powi 1023 < 2 powi 1024"
      by (intro power_int_strict_increasing) simp_all
    also have "(2::real) powi 1024 = 2 ^ 1024" using power_int_of_nat [of "2::real" 1024] by simp
    finally show ?thesis .
  qed
  ultimately have "\<not> 2 ^ 1024 \<le> round64 x" "\<not> round64 x \<le> - (2 ^ 1024)" by linarith+
  then show ?thesis unfolding to_float64_def Let_def r [symmetric] by simp
qed

lemma f_mul_eval:
  assumes "2 powi k \<le> \<bar>x * y\<bar>" "\<bar>x * y\<bar> < 2 powi (k + 1)" "- 1022 \<le> k" "k < 1023"
  shows "f_mul (Finite x) (Finite y) =
           Finite (of_int (round_ties_even (x * y / 2 powi (k - 52))) * 2 powi (k - 52))"
  using to_float64_eval [OF assms] by simp

lemma f_add_eval:
  assumes "2 powi k \<le> \<bar>x + y\<bar>" "\<bar>x + y\<bar> < 2 powi (k + 1)" "- 1022 \<le> k" "k < 1023"
  shows "f_add (Finite x) (Finite y) =
           Finite (of_int (round_ties_even ((x + y) / 2 powi (k - 52))) * 2 powi (k - 52))"
  using to_float64_eval [OF assms] by simp

subsection \<open>Radiation damage\<close>

text \<open>The three float literals of the function, as binary64 values.\<close>

lemma literal_c0: "literal 0.1402 = Finite (5051237342058748 / 2 ^ 55)"
  unfolding literal_def using to_float64_eval [of "- 3" "0.1402"]
  by (simp add: power_int_minus round_ties_even_def Let_def)

lemma literal_c1: "literal 0.07683 = Finite (5536184949934003 / 2 ^ 56)"
  unfolding literal_def using to_float64_eval [of "- 4" "0.07683"]
  by (simp add: power_int_minus round_ties_even_def Let_def)

lemma literal_14_5: "literal 14.5 = Finite 14.5"
  unfolding literal_def using to_float64_eval [of 3 "14.5"]
  by (simp add: power_int_minus round_ties_even_def Let_def)

lemma snd_categorize:
  "snd (categorize_radiation_damage f)
     = f_add (f_neg (literal 0.1402)) (f_mul (literal 0.07683) f)"
  by (simp add: categorize_radiation_damage_def Let_def)

lemma dose_mono:
  "f_le a b \<Longrightarrow>
   f_le (snd (categorize_radiation_damage a)) (snd (categorize_radiation_damage b))"
  unfolding snd_categorize literal_c0 literal_c1 f_neg.simps
  by (intro f_add_mono f_mul_mono) simp_all

lemma dose_0:
  "snd (categorize_radiation_damage (Finite 0)) = Finite (- (5051237342058748 / 2 ^ 55))"
  unfolding snd_categorize literal_c0 literal_c1 f_neg.simps
  using to_float64_eval [of "- 3" "- (5051237342058748 / 2 ^ 55)"]
  by (simp add: power_int_minus round_ties_even_def Let_def to_float64_def round64_def)

lemma dose_tiny:
  "snd (categorize_radiation_damage (Finite (1 / 2 ^ 60)))
     = Finite (- (5051237342058748 / 2 ^ 55))"
proof -
  have p: "f_mul (Finite (5536184949934003 / 2 ^ 56)) (Finite (1 / 2 ^ 60))
             = Finite (5536184949934003 / 2 ^ 116)"
    using f_mul_eval [of "- 64" "5536184949934003 / 2 ^ 56" "1 / 2 ^ 60"]
    by (simp add: power_int_minus round_ties_even_def Let_def)
  have s: "f_add (Finite (- (5051237342058748 / 2 ^ 55))) (Finite (5536184949934003 / 2 ^ 116))
             = Finite (- (5051237342058748 / 2 ^ 55))"
    using f_add_eval [of "- 3" "- (5051237342058748 / 2 ^ 55)" "5536184949934003 / 2 ^ 116"]
    by (simp add: power_int_minus round_ties_even_def Let_def)
  show ?thesis
    unfolding snd_categorize literal_c0 literal_c1 f_neg.simps p s ..
qed

lemma dose_16_a:
  "snd (categorize_radiation_damage (Finite (1181772935509723 / 2 ^ 46)))
     = Finite (5179514668896226 / 2 ^ 52)"
proof -
  have p: "f_mul (Finite (5536184949934003 / 2 ^ 56)) (Finite (1181772935509723 / 2 ^ 46))
             = Finite (5810919336653569 / 2 ^ 52)"
    using f_mul_eval [of 0 "5536184949934003 / 2 ^ 56" "1181772935509723 / 2 ^ 46"]
    by (simp add: power_int_minus round_ties_even_def Let_def)
  have s: "f_add (Finite (- (5051237342058748 / 2 ^ 55))) (Finite (5810919336653569 / 2 ^ 52))
             = Finite (5179514668896226 / 2 ^ 52)"
    using f_add_eval [of 0 "- (5051237342058748 / 2 ^ 55)" "5810919336653569 / 2 ^ 52"]
    by (simp add: power_int_minus round_ties_even_def Let_def)
  show ?thesis
    unfolding snd_categorize literal_c0 literal_c1 f_neg.simps p s ..
qed

lemma dose_16_b:
  "snd (categorize_radiation_damage (Finite (4727091742038893 / 2 ^ 48)))
     = Finite (5179514668896226 / 2 ^ 52)"
proof -
  have p: "f_mul (Finite (5536184949934003 / 2 ^ 56)) (Finite (4727091742038893 / 2 ^ 48))
             = Finite (5810919336653570 / 2 ^ 52)"
    using f_mul_eval [of 0 "5536184949934003 / 2 ^ 56" "4727091742038893 / 2 ^ 48"]
    by (simp add: power_int_minus round_ties_even_def Let_def)
  have s: "f_add (Finite (- (5051237342058748 / 2 ^ 55))) (Finite (5810919336653570 / 2 ^ 52))
             = Finite (5179514668896226 / 2 ^ 52)"
    using f_add_eval [of 0 "- (5051237342058748 / 2 ^ 55)" "5810919336653570 / 2 ^ 52"]
    by (simp add: power_int_minus round_ties_even_def Let_def)
  show ?thesis
    unfolding snd_categorize literal_c0 literal_c1 f_neg.simps p s ..
qed

lemma dose_8:
  "snd (categorize_radiation_damage (Finite 8)) = Finite (8546751228838632 / 2 ^ 54)"
proof -
  have p: "f_mul (Finite (5536184949934003 / 2 ^ 56)) (Finite 8)
             = Finite (5536184949934003 / 2 ^ 53)"
    using f_mul_eval [of "- 1" "5536184949934003 / 2 ^ 56" 8]
    by (simp add: power_int_minus round_ties_even_def Let_def)
  have s: "f_add (Finite (- (5051237342058748 / 2 ^ 55))) (Finite (5536184949934003 / 2 ^ 53))
             = Finite (8546751228838632 / 2 ^ 54)"
    using f_add_eval [of "- 2" "- (5051237342058748 / 2 ^ 55)" "5536184949934003 / 2 ^ 53"]
    by (simp add: power_int_minus round_ties_even_def Let_def)
  show ?thesis
    unfolding snd_categorize literal_c0 literal_c1 f_neg.simps p s ..
qed

lemma dose_8_5:
  "snd (categorize_radiation_damage (Finite (17 / 2))) = Finite (4619387173790191 / 2 ^ 53)"
proof -
  have p: "f_mul (Finite (5536184949934003 / 2 ^ 56)) (Finite (17 / 2))
             = Finite (5882196509304878 / 2 ^ 53)"
    using f_mul_eval [of "- 1" "5536184949934003 / 2 ^ 56" "17 / 2"]
    by (simp add: power_int_minus round_ties_even_def Let_def)
  have s: "f_add (Finite (- (5051237342058748 / 2 ^ 55))) (Finite (5882196509304878 / 2 ^ 53))
             = Finite (4619387173790191 / 2 ^ 53)"
    using f_add_eval [of "- 1" "- (5051237342058748 / 2 ^ 55)" "5882196509304878 / 2 ^ 53"]
    by (simp add: power_int_minus round_ties_even_def Let_def)
  show ?thesis
    unfolding snd_categorize literal_c0 literal_c1 f_neg.simps p s ..
qed

lemma category_cases:
  "(fst (categorize_radiation_damage f) = Baixo_dano \<longleftrightarrow> f_le f (Finite 8))
   \<and> (fst (categorize_radiation_damage f) = Dano_moderado
        \<longleftrightarrow> \<not> f_le f (Finite 8) \<and> f_le f (Finite 14.5))
   \<and> (fst (categorize_radiation_damage f) = Alto_dano
        \<longleftrightarrow> \<not> f_le f (Finite 14.5) \<and> f_le f (Finite 25))
   \<and> (fst (categorize_radiation_damage f) = Quase_amorfo \<longleftrightarrow> \<not> f_le f (Finite 25))"
  unfolding categorize_radiation_damage_def literal_14_5 Let_def
  by (cases f) auto

text \<open>
  C7, as the claim states it, fails: the dose is not strictly increasing in FWHM. The dose
  is computed in binary64, and two different FWHM can round to one dose: 0 and
  1 / 2 ^ 60 both give - 0.1402, and 16.79400349288646 and the next float above it,
  16.794003492886464, both give 1.1500832883584668.
\<close>

theorem dose_not_strictly_increasing_counterexample:
  "f_lt (Finite 0) (Finite (1 / 2 ^ 60))
   \<and> snd (categorize_radiation_damage (Finite 0)) = Finite (- (5051237342058748 / 2 ^ 55))
   \<and> snd (categorize_radiation_damage (Finite (1 / 2 ^ 60)))
        = Finite (- (5051237342058748 / 2 ^ 55))
   \<and> f_lt (Finite (1181772935509723 / 2 ^ 46)) (Finite (4727091742038893 / 2 ^ 48))
   \<and> snd (categorize_radiation_damage (Finite (1181772935509723 / 2 ^ 46)))
        = Finite (5179514668896226 / 2 ^ 52)
   \<and> snd (categorize_radiation_damage (Finite (4727091742038893 / 2 ^ 48)))
        = Finite (5179514668896226 / 2 ^ 52)
   \<and> \<not> f_lt (snd (categorize_radiation_damage (Finite (1181772935509723 / 2 ^ 46))))
             (snd (categorize_radiation_damage (Finite (4727091742038893 / 2 ^ 48))))"
  unfolding dose_0 dose_tiny dose_16_a dose_16_b
  by simp

text \<open>
  C7, amended: the dose returned is - 0.1402 + 0.07683 * FWHM evaluated in binary64 (the
  product rounded, then the sum rounded); it is a non-decreasing function of FWHM (whenever
  FWHM a is at most FWHM b, the dose of a is at most the dose of b); and the thresholds
  8, 14.5 and 25 belong to the lower category: the category is the low one exactly when
  FWHM is at most 8, the moderate one exactly when it is above 8 and at most 14.5, the
  high one exactly when it is above 14.5 and at most 25, and the last one otherwise.
\<close>

theorem dose_nondecreasing_boundaries_inclusive:
  "snd (categorize_radiation_damage f)
     = f_add (f_neg (literal 0.1402)) (f_mul (literal 0.07683) f)
   \<and> (f_le a b \<longrightarrow>
        f_le (snd (categorize_radiation_damage a)) (snd (categorize_radiation_damage b)))
   \<and> fst (categorize_radiation_damage (Finite 8)) = Baixo_dano
   \<and> fst (categorize_radiation_damage (Finite 14.5)) = Dano_moderado
   \<and> fst (categorize_radiation_damage (Finite 25)) = Alto_dano
   \<and> (fst (categorize_radiation_damage f) = Baixo_dano \<longleftrightarrow> f_le f (Finite 8))
   \<and> (fst (categorize_radiation_damage f) = Dano_moderado
        \<longleftrightarrow> \<not> f_le f (Finite 8) \<and> f_le f (Finite 14.5))
   \<and> (fst (categorize_radiation_damage f) = Alto_dano
        \<longleftrightarrow> \<not> f_le f (Finite 14.5) \<and> f_le f (Finite 25))
   \<and> (fst (categorize_radiation_damage f) = Quase_amorfo \<longleftrightarrow> \<not> f_le f (Finite 25))"
proof -
  have 1: "snd (categorize_radiation_damage f)
             = f_add (f_neg (literal 0.1402)) (f_mul (literal 0.07683) f)"
    by (rule snd_categorize)
  have 2: "f_le a b \<longrightarrow>
        f_le (snd (categorize_radiation_damage a)) (snd (categorize_radiation_damage b))"
    using dose_mono by blast
  have 3: "fst (categorize_radiation_damage (Finite 8)) = Baixo_dano"
    using category_cases [of "Finite 8"] by simp
  have 4: "fst (categorize_radiation_damage (Finite 14.5)) = Dano_moderado"
    using category_cases [of "Finite 14.5"] by simp
  have 5: "fst (categorize_radiation_damage (Finite 25)) = Alto_dano"
    using category_cases [of "Finite 25"] by simp
  from 1 2 3 4 5 category_cases [of f] show ?thesis by blast
qed

theorem dose_nondecreasing_boundaries_inclusive_witness:
  "f_le (Finite 8) (Finite (17 / 2))
   \<and> f_le (snd (categorize_radiation_damage (Finite 8)))
          (snd (categorize_radiation_damage (Finite (17 / 2))))
   \<and> snd (categorize_radiation_damage (Finite 8)) = Finite (8546751228838632 / 2 ^ 54)
   \<and> snd (categorize_radiation_damage (Finite (17 / 2))) = Finite (4619387173790191 / 2 ^ 53)
   \<and> fst (categorize_radiation_damage (Finite 8)) = Baixo_dano
   \<and> fst (categorize_radiation_damage (Finite (17 / 2))) = Dano_moderado"
proof -
  have l: "f_le (Finite 8) (Finite (17 / 2))" by simp
  from dose_nondecreasing_boundaries_inclusive [of "Finite (17 / 2)" "Finite 8" "Finite (17 / 2)"]
  have "(f_le (Finite 8) (Finite (17 / 2)) \<longrightarrow>
          f_le (snd (categorize_radiation_damage (Finite 8)))
               (snd (categorize_radiation_damage (Finite (17 / 2)))))
        \<and> fst (categorize_radiation_damage (Finite 8)) = Baixo_dano
        \<and> (fst (categorize_radiation_damage (Finite (17 / 2))) = Dano_moderado
             \<longleftrightarrow> \<not> f_le (Finite (17 / 2)) (Finite 8) \<and> f_le (Finite (17 / 2)) (Finite 14.5))"
    by blast
  with l dose_8 dose_8_5 show ?thesis by simp
qed

subsection \<open>Pre-conditioning\<close>

lemma nan_to_num_finite: "\<exists>r. nan_to_num v = Finite r"
  by (cases v) simp_all

lemma foldl_min2_Finite:
  "\<forall>v\<in>set vs. \<exists>r. v = Finite r \<Longrightarrow>
   \<exists>m. foldl f_min2 (Finite a) vs = Finite m \<and> m \<le> a \<and> (m = a \<or> Finite m \<in> set vs)
       \<and> (\<forall>v\<in>set vs. \<forall>r. v = Finite r \<longrightarrow> m \<le> r)"
proof (induction vs arbitrary: a)
  case Nil
  show ?case by simp
next
  case (Cons v vs)
  from Cons.prems obtain b where vb: "v = Finite b" by auto
  from Cons.prems have rest: "\<forall>v\<in>set vs. \<exists>r. v = Finite r" by simp
  have step: "f_min2 (Finite a) (Finite b) = Finite (min a b)"
    by (simp add: min_def)
  from Cons.IH [OF rest, of "min a b"]
  obtain m where m: "foldl f_min2 (Finite (min a b)) vs = Finite m" "m \<le> min a b"
    "m = min a b \<or> Finite m \<in> set vs"
    "\<forall>v\<in>set vs. \<forall>r. v = Finite r \<longrightarrow> m \<le> r" by blast
  have "m = a \<or> Finite m \<in> set (v # vs)"
    using m(3) vb by (auto simp: min_def split: if_splits)
  then show ?case using m vb step by auto
qed

lemma np_min_finite:
  assumes "\<forall>v\<in>set ys. \<exists>r. v = Finite r" and "ys \<noteq> []"
  shows "\<exists>m. np_min ys = Inr (Finite m) \<and> Finite m \<in> set ys
           \<and> (\<forall>v\<in>set ys. \<forall>r. v = Finite r \<longrightarrow> m \<le> r)"
proof -
  from assms obtain v vs where ys: "ys = v # vs" by (cases ys) auto
  from assms ys obtain a where va: "v = Finite a" by auto
  from assms ys have "\<forall>v\<in>set vs. \<exists>r. v = Finite r" by simp
  from foldl_min2_Finite [OF this, of a] show ?thesis using ys va by auto
qed

lemma f_sub_nonneg:
  assumes "m \<le> r"
  shows "f_sub (Finite r) (Finite m) \<noteq> NaN64 \<and> f_le (Finite 0) (f_sub (Finite r) (Finite m))"
proof -
  have "f_le (to_float64 0) (to_float64 (r - m))"
    using assms by (intro to_float64_mono) simp
  then show ?thesis by (simp add: f_sub_def to_float64_zero)
qed

text \<open>
  A float64 column that passes the data-quality check is handed to the baseline estimator
  (no exception, no skip) with the length of the input, no NaN and every element at least 0.
\<close>

lemma precondition_float64_nonnegative:
  assumes "\<not> invalid_data (length (filter isnan y)) (length (filter nonzero y)) (length y)"
  shows "\<exists>out. precondition_column (Float64 y) = Handed (Float64 out)
           \<and> length out = length y
           \<and> (\<forall>v\<in>set out. v \<noteq> NaN64 \<and> f_le (Finite 0) v)"
proof -
  let ?y1 = "map nan_to_num y"
  have fin: "\<forall>v\<in>set ?y1. \<exists>r. v = Finite r"
    using nan_to_num_finite by auto
  show ?thesis
  proof (cases "list_ex (\<lambda>v. f_lt v (Finite 0)) ?y1")
    case False
    have "\<forall>v\<in>set ?y1. v \<noteq> NaN64 \<and> f_le (Finite 0) v"
    proof
      fix v assume v: "v \<in> set ?y1"
      with fin obtain r where r: "v = Finite r" by blast
      from False v have "\<not> f_lt v (Finite 0)" unfolding list_ex_iff by blast
      with r show "v \<noteq> NaN64 \<and> f_le (Finite 0) v" by simp
    qed
    with False assms show ?thesis
      by (simp add: Let_def)
  next
    case True
    then have ne: "?y1 \<noteq> []" by auto
    from np_min_finite [OF fin ne]
    obtain m where m: "np_min ?y1 = Inr (Finite m)" "Finite m \<in> set ?y1"
      "\<forall>v\<in>set ?y1. \<forall>r. v = Finite r \<longrightarrow> m \<le> r" by blast
    have nonneg:
      "\<forall>v\<in>set (map (\<lambda>v. f_sub v (Finite m)) ?y1). v \<noteq> NaN64 \<and> f_le (Finite 0) v"
    proof
      fix w assume "w \<in> set (map (\<lambda>v. f_sub v (Finite m)) ?y1)"
      then obtain v where v: "v \<in> set ?y1" "w = f_sub v (Finite m)" by auto
      with fin obtain r where r: "v = Finite r" by blast
      with m v have "m \<le> r" by blast
      from f_sub_nonneg [OF this] r v show "w \<noteq> NaN64 \<and> f_le (Finite 0) w" by simp
    qed
    have run: "precondition_column (Float64 y)
                 = Handed (Float64 (map (\<lambda>v. f_sub v (Finite m)) ?y1))"
      using True m(1) assms by (simp add: Let_def)
    show ?thesis
      using run nonneg by simp
  qed
qed

lemma float64_column_example:
  "precondition_column (Float64 [Finite 3, NaN64, Finite (- 2), Finite 5])
     = Handed (Float64 [Finite 5, Finite 2, Finite 0, Finite 7])"
  using to_float64_eval [of 2 5] to_float64_eval [of 1 2] to_float64_eval [of 2 7]
  by (simp add: invalid_data_def Let_def f_sub_def to_float64_zero power_int_minus
        round_ties_even_def)

text \<open>
  C10, at the int64 column 9223372036854775807, - 1, 1, 1 (a CSV column of integers):
  the column passes the data-quality check (no NaN, four elements different from zero),
  it has a negative element, its minimum is - 1, and the int64 subtraction
  9223372036854775807 - (- 1) wraps around to - 9223372036854775808. The array handed to the
  baseline estimator has a negative element, where the comment of line 4275 announces a
  positive array.
\<close>

theorem int64_column_shift_wraps:
  "precondition_column (Int64 [9223372036854775807, - 1, 1, 1])
     = Handed (Int64 [- 9223372036854775808, 0, 2, 2])"
  by (simp add: invalid_data_def wrap64_def)

subsection \<open>Baseline estimation\<close>

text \<open>With the method airpls correct\_baseline passes on the array airpls\_baseline returns: no pair.\<close>

lemma airpls_never_pair:
  assumes "subscript h config ''baseline_correction'' = Inr (Ref bc)"
    and "subscript h bc ''method'' = Inr (Str ''airpls'')"
  shows "correct_baseline h config E y x \<noteq> Returns (Pair c b)"
  using assms
  by (auto simp: correct_baseline_def split: sum.splits pyval.splits outcome.splits)

lemma polyfit_call_lengths:
  "polyfit_call E y x deg = Inr cf \<Longrightarrow> length x = length y"
  by (auto simp: polyfit_call_def Let_def split: if_splits)

lemma polynomial_baseline_pair:
  assumes ynz: "y \<noteq> []"
    and fit: "polyfit_call E y (default_x y x) deg = Inr cf"
  shows "polynomial_baseline E y x deg
           = Returns (Pair (map2 (-) y (map2 min (map (polyval cf) (default_x y x)) y))
                           (map2 min (map (polyval cf) (default_x y x)) y))"
  using ynz fit by (simp add: polynomial_baseline_def Let_def)

lemma length_select:
  "length msk = length xs \<Longrightarrow> length (select msk xs) = length (filter id msk)"
  unfolding select_def
  by (induction msk xs rule: list_induct2) simp_all

lemma percentile_above_min:
  assumes "a \<noteq> []"
  shows "Min (set a) \<le> np_percentile a 50"
proof -
  define s where "s = sort a"
  define pos where "pos = (real (length a) - 1) * (50 / 100)"
  define lo where "lo = nat \<lfloor>pos\<rfloor>"
  define hi where "hi = min (lo + 1) (length a - 1)"
  have n: "0 < length a" using assms by simp
  have n1: "1 \<le> real (length a)" using assms by (cases a) simp_all
  have p0: "0 \<le> pos" using n1 by (simp add: pos_def)
  have "pos \<le> real (length a) - 1" using n1 by (simp add: pos_def)
  then have "\<lfloor>pos\<rfloor> \<le> int (length a) - 1" by linarith
  then have lo: "lo \<le> length a - 1" unfolding lo_def by linarith
  have lop: "real lo \<le> pos" using p0 by (simp add: lo_def)
  have lohi: "lo \<le> hi" using lo by (simp add: hi_def)
  have hin: "hi < length s" using assms by (cases a) (auto simp: hi_def s_def)
  have srt: "sorted s" by (simp add: s_def)
  have "s ! lo \<le> s ! hi" using srt lohi hin by (rule sorted_nth_mono)
  then have "0 \<le> (pos - real lo) * (s ! hi - s ! lo)" using lop by simp
  moreover have "s ! lo \<in> set a"
  proof -
    have "lo < length s" using lohi hin by simp
    then have "s ! lo \<in> set s" by simp
    then show ?thesis by (simp add: s_def)
  qed
  then have "Min (set a) \<le> s ! lo" by simp
  ultimately have "Min (set a) \<le> s ! lo + (pos - real lo) * (s ! hi - s ! lo)" by linarith
  then show ?thesis
    unfolding np_percentile_def Let_def s_def pos_def lo_def hi_def by simp
qed

lemma spline_points_nonempty:
  assumes ynz: "y \<noteq> []" and lx: "length x = length y"
  shows "spline_points E y x \<noteq> []"
proof -
  define m0 where "m0 = peak_mask (find_peaks E y (0.02 * Max (set y))) (length y)"
  define msk where "msk = (if real (length (filter id m0)) < real (length y) * 0.5
                           then map (\<lambda>v. v \<le> np_percentile y 50) y else m0)"
  have lm0: "length m0 = length y" by (simp add: m0_def peak_mask_def Let_def)
  have lm: "length msk = length y" using lm0 by (simp add: msk_def)
  have some: "filter id msk \<noteq> []"
  proof (cases "real (length (filter id m0)) < real (length y) * 0.5")
    case True
    have "Min (set y) \<in> set y" using ynz by (intro Min_in) auto
    moreover have "Min (set y) \<le> np_percentile y 50" using ynz by (rule percentile_above_min)
    ultimately have "True \<in> set (map (\<lambda>v. v \<le> np_percentile y 50) y)" by force
    then have "filter id (map (\<lambda>v. v \<le> np_percentile y 50) y) \<noteq> []"
      by (simp add: filter_empty_conv)
    with True show ?thesis by (simp add: msk_def)
  next
    case False
    have "0 < real (length y) * 0.5" using ynz by simp
    with False have "0 < length (filter id m0)" by linarith
    with False show ?thesis by (simp add: msk_def)
  qed
  have "length (select msk x) = length (filter id msk)"
    "length (select msk y) = length (filter id msk)"
    using lm lx by (simp_all add: length_select)
  with some have "zip (select msk x) (select msk y) \<noteq> []" by (cases "select msk x"; cases "select msk y") auto
  then have "sort_key fst (zip (select msk x) (select msk y)) \<noteq> []"
    by (metis length_sort length_0_conv)
  then show ?thesis
    unfolding spline_points_def Let_def m0_def [symmetric] msk_def [symmetric] .
qed

lemma np_linspace_nonempty: "0 < n \<Longrightarrow> np_linspace a b n \<noteq> []"
  by (simp add: np_linspace_def)

text \<open>The curve of the try statement, when UnivariateSpline returns or raises ValueError.\<close>

lemma spline_curve_returns:
  assumes ynz: "y \<noteq> []" and lx: "length x = length y"
  shows "(spline_call E y x s = Inr f \<longrightarrow>
            spline_curve E y x s
              = Inr (map (\<lambda>v. interp_at v
                        (zip (np_linspace (Min (set x)) (Max (set x)) (length x * 5))
                             (map f (np_linspace (Min (set x)) (Max (set x)) (length x * 5))))) x))
       \<and> (spline_call E y x s = Inl ValueError \<longrightarrow>
            spline_curve E y x s = Inr (map (\<lambda>v. interp_at v (spline_points E y x)) x))"
proof (intro conjI impI)
  assume c: "spline_call E y x s = Inr f"
  have "np_linspace (Min (set x)) (Max (set x)) (length x * 5) \<noteq> []"
    using ynz lx by (intro np_linspace_nonempty) simp
  then show "spline_curve E y x s
              = Inr (map (\<lambda>v. interp_at v
                        (zip (np_linspace (Min (set x)) (Max (set x)) (length x * 5))
                             (map f (np_linspace (Min (set x)) (Max (set x)) (length x * 5))))) x)"
    using c by (simp add: spline_curve_def Let_def np_interp_def)
next
  assume c: "spline_call E y x s = Inl ValueError"
  have "spline_points E y x \<noteq> []" using ynz lx by (rule spline_points_nonempty)
  then show "spline_curve E y x s = Inr (map (\<lambda>v. interp_at v (spline_points E y x)) x)"
    using c by (simp add: spline_curve_def Let_def np_interp_def zip_map_fst_snd)
qed

lemma spline_baseline_pair:
  assumes ynz: "y \<noteq> []"
    and x1: "x1 = (if strictly_increasing (default_x y x) then default_x y x
                   else np_linspace 0 (real (length y) - 1) (length y))"
    and lx: "length x1 = length y"
    and fit: "spline_curve E y x1 s = Inr b0" and lb0: "length b0 = length y"
    and b: "b = map2 min b0 y"
    and M: "M = Max (set (map2 (-) y b))"
  shows "spline_baseline E y x s
           = Returns (Pair (if M > 0 then map (\<lambda>v. v / M) (map2 (-) y b) else map2 (-) y b) b)
         \<and> length b = length y
         \<and> (\<forall>i<length y. b ! i \<le> y ! i)
         \<and> (\<forall>v\<in>set (if M > 0 then map (\<lambda>v. v / M) (map2 (-) y b) else map2 (-) y b).
               0 \<le> v \<and> v \<le> 1)"
proof -
  define r where "r = map2 (-) y b"
  define c where "c = (if M > 0 then map (\<lambda>v. v / M) r else r)"
  have lb: "length b = length y" using lb0 by (simp add: b)
  have lr: "length r = length y" using lb by (simp add: r_def)
  have rne: "r \<noteq> []" using lr ynz by auto
  have bi: "\<forall>i<length y. b ! i \<le> y ! i" using lb0 by (simp add: b)
  have ri: "\<forall>i<length y. r ! i = y ! i - b ! i" using lb by (simp add: r_def)
  have rpos: "\<forall>v\<in>set r. 0 \<le> v"
  proof
    fix v assume "v \<in> set r"
    then obtain i where "i < length r" "v = r ! i" by (auto simp: in_set_conv_nth)
    with ri bi lr show "0 \<le> v" by simp
  qed
  have "Min (set r) \<in> set r" using rne by (intro Min_in) auto
  with rpos have nomin: "\<not> Min (set r) < 0" by fastforce
  have xne: "x1 \<noteq> []" using lx ynz by auto
  have res: "spline_baseline E y x s = Returns (Pair c b)"
    unfolding spline_baseline_def Let_def x1 [symmetric]
    using ynz xne lx fit nomin unfolding c_def M r_def b
    by simp
  have rM: "\<forall>v\<in>set r. v \<le> M" unfolding M r_def [symmetric] by simp
  have cb: "\<forall>v\<in>set c. 0 \<le> v \<and> v \<le> 1"
  proof (cases "M > 0")
    case True
    show ?thesis
    proof
      fix v assume "v \<in> set c"
      with True obtain u where u: "u \<in> set r" "v = u / M" by (auto simp: c_def)
      from u(1) rpos rM have "0 \<le> u" "u \<le> M" by blast+
      with True u(2) show "0 \<le> v \<and> v \<le> 1" by simp
    qed
  next
    case False
    show ?thesis
    proof
      fix v assume "v \<in> set c"
      with False have "v \<in> set r" by (simp add: c_def)
      with rpos rM False show "0 \<le> v \<and> v \<le> 1" by force
    qed
  qed
  show ?thesis using res lb bi cb unfolding c_def r_def by simp
qed

lemma length_np_linspace: "length (np_linspace a b n) = n"
  by (simp add: np_linspace_def)

lemma interp_at_const:
  "ps \<noteq> [] \<Longrightarrow> \<forall>p\<in>set ps. snd p = c \<Longrightarrow> interp_at v ps = c"
  by (induction v ps rule: interp_at.induct) auto

lemma interp_const_curve:
  assumes "xp \<noteq> []"
  shows "map (\<lambda>v. interp_at v (zip xp (map (\<lambda>u. c) xp))) x = replicate (length x) c"
proof -
  have ne: "zip xp (map (\<lambda>u. c) xp) \<noteq> []" using assms by (cases xp) simp_all
  have all: "\<forall>p\<in>set (zip xp (map (\<lambda>u. c) xp)). snd p = c"
    by (auto simp: set_zip)
  have "\<And>v. interp_at v (zip xp (map (\<lambda>u. c) xp)) = c"
    using ne all by (rule interp_at_const)
  then show ?thesis by (simp add: map_replicate_const)
qed

lemma strictly_increasing_arange: "strictly_increasing (map real [0..<n])"
  by (simp add: strictly_increasing_def list_all_iff)

text \<open>The spectrum with one spike.\<close>

lemma length_spike: "length spike = 50"
  by (simp add: spike_def)

lemma spike_x1:
  "(if strictly_increasing (default_x spike None) then default_x spike None
    else np_linspace 0 (real (length spike) - 1) (length spike)) = map real [0..<50]"
  by (simp add: default_x_def strictly_increasing_arange length_spike)

lemma spike_clip: "map2 min (replicate 50 1) spike = replicate 50 1"
  by (simp add: spike_def numeral_nat)

lemma spike_difference:
  "map2 (-) spike (replicate 50 1) = replicate 25 0 @ [4] @ replicate 24 0"
  by (simp add: spike_def numeral_nat)

lemma spike_max: "Max (set (replicate 25 0 @ [4] @ replicate 24 (0::real))) = 4"
  by simp

lemma spike_normalised:
  "map (\<lambda>v. v / 4) (replicate 25 0 @ [4] @ replicate 24 (0::real))
     = replicate 25 0 @ [1] @ replicate 24 0"
  by simp

lemma spike_polyfit_call:
  "polyfit_call spike_externals spike (map real [0..<50]) 3 = Inr [0, 0, 0, 1]"
  by (simp add: polyfit_call_def spike_externals_def Let_def length_spike)

lemma spike_polynomial_curve:
  "map (polyval [0, 0, 0, 1]) (map real [0..<50]) = replicate 50 1"
  by (simp add: o_def polyval_def map_replicate_const)

lemma spike_spline_call:
  "spline_call spike_externals spike x s = Inr (\<lambda>v. 1)"
  by (simp add: spline_call_def spike_externals_def)

lemma spike_spline_curve:
  "spline_curve spike_externals spike (map real [0..<50]) s = Inr (replicate 50 1)"
proof -
  have l: "length (map real [0..<50]) = length spike" by (simp add: length_spike)
  have ne: "spike \<noteq> []" by (simp add: spike_def)
  let ?g = "np_linspace (Min (set (map real [0..<50]))) (Max (set (map real [0..<50])))
              (length (map real [0..<50]) * 5)"
  have g: "?g \<noteq> []" by (intro np_linspace_nonempty) simp
  from spline_curve_returns [OF ne l, of spike_externals s "\<lambda>v. 1"] spike_spline_call
  have "spline_curve spike_externals spike (map real [0..<50]) s
          = Inr (map (\<lambda>v. interp_at v (zip ?g (map (\<lambda>v. 1) ?g))) (map real [0..<50]))"
    by blast
  also have "map (\<lambda>v. interp_at v (zip ?g (map (\<lambda>v. 1) ?g))) (map real [0..<50])
               = replicate (length (map real [0..<50])) 1"
    using g by (rule interp_const_curve)
  finally show ?thesis by simp
qed

lemma spike_spline_run:
  "correct_baseline (config_store ''spline'') 0 spike_externals spike None
     = Returns (Pair (replicate 25 0 @ [1] @ replicate 24 0) (replicate 50 1))"
proof -
  have ne: "spike \<noteq> []" by (simp add: spike_def)
  have l: "length (map real [0..<50]) = length spike" by (simp add: length_spike)
  have lb: "length (replicate 50 (1::real)) = length spike" by (simp add: length_spike)
  from spline_baseline_pair [OF ne spike_x1 [symmetric] l spike_spline_curve lb
         spike_clip [symmetric] refl]
  have "spline_baseline spike_externals spike None (1 / 10)
          = Returns (Pair (replicate 25 0 @ [1] @ replicate 24 0) (replicate 50 1))"
    unfolding spike_difference spike_max by (simp add: spike_normalised)
  then show ?thesis
    by (simp add: correct_baseline_def config_store_def subscript_def)
qed

text \<open>The baseline points of the spectrum with one spike: all but the indices 24 and 25.\<close>

lemma spike_baseline_points:
  "spline_points spike_externals spike (map real [0..<50])
     = map (\<lambda>i. (real i, 1)) ([0..<24] @ [26..<50])"
  by code_simp

text \<open>
  C1 (as stated) fails for the method spline, which normalises its corrected spectrum: for
  the spectrum with one spike the baseline is the constant 1, the input minus the baseline
  is 0 everywhere but 4 at the spike, and the corrected spectrum returned is that
  difference divided by its maximum, 0 everywhere but 1 at the spike.
\<close>

theorem correct_baseline_pair_counterexample:
  "correct_baseline (config_store ''spline'') 0 spike_externals spike None
     = Returns (Pair (replicate 25 0 @ [1] @ replicate 24 0) (replicate 50 1))
   \<and> map2 (-) spike (replicate 50 1) = replicate 25 0 @ [4] @ replicate 24 0
   \<and> \<not> (\<exists>c b. correct_baseline (config_store ''spline'') 0 spike_externals spike None
                 = Returns (Pair c b) \<and> c = map2 (-) spike b)"
  unfolding spike_spline_run using spike_difference by simp

text \<open>
  C1 (amended): for a non-empty spectrum y. With the method polynomial, when the call of
  np.polyfit the function makes returns coefficients, correct\_baseline returns the pair
  (y - baseline, baseline) where baseline is the fitted polynomial evaluated at x (the
  indices when x is absent) and clipped pointwise to y. With the method spline, when x is
  absent or as long as y and the call of UnivariateSpline returns a spline or raises
  ValueError, correct\_baseline returns a pair (corrected, baseline) where baseline is,
  clipped pointwise to y, the spline evaluated on the grid of 5 len(x) points and
  interpolated at x (after a ValueError: the linear interpolation of the baseline points),
  and corrected is y - baseline divided by its maximum when that maximum is positive (so
  all its values lie between 0 and 1), and y - baseline itself otherwise. Nothing is said
  of the method airpls.
\<close>

theorem correct_baseline_polynomial_spline:
  assumes cfg: "subscript h config ''baseline_correction'' = Inr (Ref bc)"
    and ynz: "y \<noteq> []"
  shows "(subscript h bc ''method'' = Inr (Str ''polynomial'')
          \<and> subscript h bc ''polynomial_degree'' = Inr (Num deg)
          \<and> polyfit_call E y (default_x y x) deg = Inr cf
          \<longrightarrow> (let b = map2 min (map (polyval cf) (default_x y x)) y in
                 correct_baseline h config E y x = Returns (Pair (map2 (-) y b) b)
                 \<and> length b = length y \<and> (\<forall>i<length y. b ! i \<le> y ! i)))
       \<and> (subscript h bc ''method'' = Inr (Str ''spline'')
          \<and> subscript h bc ''spline_smoothing'' = Inr (Num s)
          \<and> length (default_x y x) = length y
          \<and> x1 = (if strictly_increasing (default_x y x) then default_x y x
                   else np_linspace 0 (real (length y) - 1) (length y))
          \<and> x_high_res = np_linspace (Min (set x1)) (Max (set x1)) (length x1 * 5)
          \<and> (spline_call E y x1 s = Inr f \<or> spline_call E y x1 s = Inl ValueError)
          \<longrightarrow> (let b0 = (case spline_call E y x1 s of
                            Inr f \<Rightarrow> map (\<lambda>v. interp_at v (zip x_high_res (map f x_high_res))) x1
                          | Inl e \<Rightarrow> map (\<lambda>v. interp_at v (spline_points E y x1)) x1);
                     b = map2 min b0 y;
                     r = map2 (-) y b;
                     c = (if Max (set r) > 0 then map (\<lambda>v. v / Max (set r)) r else r)
                 in correct_baseline h config E y x = Returns (Pair c b)
                    \<and> length b = length y \<and> (\<forall>i<length y. b ! i \<le> y ! i)
                    \<and> (\<forall>v\<in>set c. 0 \<le> v \<and> v \<le> 1)))"
proof (intro conjI impI)
  assume p: "subscript h bc ''method'' = Inr (Str ''polynomial'')
          \<and> subscript h bc ''polynomial_degree'' = Inr (Num deg)
          \<and> polyfit_call E y (default_x y x) deg = Inr cf"
  then have eq: "correct_baseline h config E y x = polynomial_baseline E y x deg"
    using cfg by (simp add: correct_baseline_def)
  from p have fit: "polyfit_call E y (default_x y x) deg = Inr cf" by blast
  have lx: "length (default_x y x) = length y" using fit by (rule polyfit_call_lengths)
  show "let b = map2 min (map (polyval cf) (default_x y x)) y in
                 correct_baseline h config E y x = Returns (Pair (map2 (-) y b) b)
                 \<and> length b = length y \<and> (\<forall>i<length y. b ! i \<le> y ! i)"
    unfolding Let_def eq polynomial_baseline_pair [OF ynz fit]
    using lx by simp
next
  assume p: "subscript h bc ''method'' = Inr (Str ''spline'')
          \<and> subscript h bc ''spline_smoothing'' = Inr (Num s)
          \<and> length (default_x y x) = length y
          \<and> x1 = (if strictly_increasing (default_x y x) then default_x y x
                   else np_linspace 0 (real (length y) - 1) (length y))
          \<and> x_high_res = np_linspace (Min (set x1)) (Max (set x1)) (length x1 * 5)
          \<and> (spline_call E y x1 s = Inr f \<or> spline_call E y x1 s = Inl ValueError)"
  then have eq: "correct_baseline h config E y x = spline_baseline E y x s"
    using cfg by (simp add: correct_baseline_def)
  from p have x1: "x1 = (if strictly_increasing (default_x y x) then default_x y x
                   else np_linspace 0 (real (length y) - 1) (length y))"
    and xh: "x_high_res = np_linspace (Min (set x1)) (Max (set x1)) (length x1 * 5)"
    and ld: "length (default_x y x) = length y"
    and call: "spline_call E y x1 s = Inr f \<or> spline_call E y x1 s = Inl ValueError"
    by blast+
  have lx: "length x1 = length y" using ld by (simp add: x1 length_np_linspace)
  define b0 where "b0 = (case spline_call E y x1 s of
                            Inr f \<Rightarrow> map (\<lambda>v. interp_at v (zip x_high_res (map f x_high_res))) x1
                          | Inl e \<Rightarrow> map (\<lambda>v. interp_at v (spline_points E y x1)) x1)"
  have curve: "spline_curve E y x1 s = Inr b0"
    using call spline_curve_returns [OF ynz lx, of E s]
    unfolding b0_def xh by auto
  have lb0: "length b0 = length y"
    using lx by (simp add: b0_def split: sum.splits)
  note R = spline_baseline_pair [OF ynz x1 lx curve lb0 refl refl]
  show "let b0 = (case spline_call E y x1 s of
                            Inr f \<Rightarrow> map (\<lambda>v. interp_at v (zip x_high_res (map f x_high_res))) x1
                          | Inl e \<Rightarrow> map (\<lambda>v. interp_at v (spline_points E y x1)) x1);
                     b = map2 min b0 y;
                     r = map2 (-) y b;
                     c = (if Max (set r) > 0 then map (\<lambda>v. v / Max (set r)) r else r)
                 in correct_baseline h config E y x = Returns (Pair c b)
                    \<and> length b = length y \<and> (\<forall>i<length y. b ! i \<le> y ! i)
                    \<and> (\<forall>v\<in>set c. 0 \<le> v \<and> v \<le> 1)"
    unfolding Let_def b0_def [symmetric] eq by (rule R)
qed

theorem correct_baseline_polynomial_spline_witness:
  "correct_baseline (config_store ''polynomial'') 0 spike_externals spike None
     = Returns (Pair (replicate 25 0 @ [4] @ replicate 24 0) (replicate 50 1))
   \<and> correct_baseline (config_store ''spline'') 0 spike_externals spike None
     = Returns (Pair (replicate 25 0 @ [1] @ replicate 24 0) (replicate 50 1))"
proof -
  have cp: "subscript (config_store ''polynomial'') 0 ''baseline_correction'' = Inr (Ref 1)"
    and cs: "subscript (config_store ''spline'') 0 ''baseline_correction'' = Inr (Ref 1)"
    by (simp_all add: subscript_def config_store_def)
  have ynz: "spike \<noteq> []" by (simp add: spike_def)
  have dx: "default_x spike None = map real [0..<50]"
    by (simp add: default_x_def length_spike)
  have hp: "subscript (config_store ''polynomial'') 1 ''method'' = Inr (Str ''polynomial'')
          \<and> subscript (config_store ''polynomial'') 1 ''polynomial_degree'' = Inr (Num 3)
          \<and> polyfit_call spike_externals spike (default_x spike None) 3 = Inr [0, 0, 0, 1]"
    unfolding dx spike_polyfit_call by (simp add: subscript_def config_store_def)
  have hs: "subscript (config_store ''spline'') 1 ''method'' = Inr (Str ''spline'')
          \<and> subscript (config_store ''spline'') 1 ''spline_smoothing'' = Inr (Num (1 / 10))
          \<and> length (default_x spike None) = length spike
          \<and> map real [0..<50] =
              (if strictly_increasing (default_x spike None) then default_x spike None
               else np_linspace 0 (real (length spike) - 1) (length spike))
          \<and> np_linspace (Min (set (map real [0..<50]))) (Max (set (map real [0..<50])))
                (length (map real [0..<50]) * 5)
              = np_linspace (Min (set (map real [0..<50]))) (Max (set (map real [0..<50])))
                  (length (map real [0..<50]) * 5)
          \<and> (spline_call spike_externals spike (map real [0..<50]) (1 / 10) = Inr (\<lambda>v. 1)
               \<or> spline_call spike_externals spike (map real [0..<50]) (1 / 10) = Inl ValueError)"
    unfolding spike_x1 spike_spline_call
    by (simp add: subscript_def config_store_def dx length_spike)
  let ?g = "np_linspace (Min (set (map real [0..<50]))) (Max (set (map real [0..<50])))
              (length (map real [0..<50]) * 5)"
  have g: "?g \<noteq> []" by (intro np_linspace_nonempty) simp
  have curve: "map (\<lambda>v. interp_at v (zip ?g (map (\<lambda>v. 1) ?g))) (map real [0..<50])
                 = replicate 50 1"
    using interp_const_curve [OF g, of 1 "map real [0..<50]"] by simp
  from correct_baseline_polynomial_spline [OF cp ynz, where deg = 3 and E = spike_externals
         and x = None and cf = "[0, 0, 0, 1]"] hp
  have 1: "correct_baseline (config_store ''polynomial'') 0 spike_externals spike None
             = Returns (Pair (replicate 25 0 @ [4] @ replicate 24 0) (replicate 50 1))"
    unfolding Let_def dx spike_polynomial_curve spike_clip spike_difference by blast
  from correct_baseline_polynomial_spline [OF cs ynz, where s = "1 / 10" and E = spike_externals
         and x = None and ?x1.0 = "map real [0..<50]" and x_high_res = ?g and f = "\<lambda>v. 1"] hs
  have 2: "correct_baseline (config_store ''spline'') 0 spike_externals spike None
             = Returns (Pair (replicate 25 0 @ [1] @ replicate 24 0) (replicate 50 1))"
    unfolding Let_def spike_spline_call sum.case curve spike_clip spike_difference spike_max
    by (simp add: spike_normalised)
  from 1 2 show ?thesis by simp
qed

lemma airpls_weights_positive:
  assumes "airpls_weights d = Some wt"
  shows "\<forall>w\<in>set wt. 0 < w \<and> w < 1"
proof -
  have pos: "\<And>t::real. 0 < 1 / (1 + exp t) \<and> 1 / (1 + exp t) < 1"
  proof -
    fix t :: real
    have "1 < 1 + exp t" by simp
    then show "0 < 1 / (1 + exp t) \<and> 1 / (1 + exp t) < 1"
      by (simp add: add_pos_pos)
  qed
  from assms show ?thesis
    using pos by (auto simp: airpls_weights_def Let_def split: if_splits)
qed

text \<open>
  C2 (the code at a failing input): airpls\_baseline on y = [5, 0, 6, 1] with lambda = 1.
  The first system, with unit weights, has the solution z = [4, 3, 3, 2], so the residuals
  are d = [1, -3, 3, -1]; the negative ones have mean -2 and standard deviation 1. The
  weights computed are 1 / (1 + exp (2 (d - 4))): the point with d = 1 gets
  1 / (1 + exp (-6)), not 0, and the point with d = -1 gets 1 / (1 + exp (-10)), not
  exp (-1 / 1).
\<close>

theorem airpls_weights_at_failing_input:
  "system_lhs 1 [1, 1, 1, 1] [4, 3, 3, 2] = [5, 0, 6, 1]
   \<and> map2 (-) [5, 0, 6, 1] [4, 3, 3, 2] = [1, - 3, 3, - 1 :: real]
   \<and> np_mean [- 3, - 1] = - 2 \<and> np_std [- 3, - 1] = 1
   \<and> airpls_weights [1, - 3, 3, - 1] =
       Some [1 / (1 + exp (- 6)), 1 / (1 + exp (- 14)), 1 / (1 + exp (- 2)),
             1 / (1 + exp (- 10))]
   \<and> 1 / (1 + exp (- 6 :: real)) \<noteq> 0
   \<and> 1 / (1 + exp (- 10 :: real)) \<noteq> exp (- 1 / 1)"
proof -
  have s: "system_lhs 1 [1, 1, 1, 1] [4, 3, 3, 2] = [5, 0, 6, 1]"
    by (simp add: system_lhs_def penalty_def second_differences_def upt_rec numeral_nat)
  have m: "np_mean [- 3, - 1] = - 2" "np_std [- 3, - 1] = 1"
    by (simp_all add: np_mean_def np_std_def)
  have w: "airpls_weights [1, - 3, 3, - 1] =
       Some [1 / (1 + exp (- 6)), 1 / (1 + exp (- 14)), 1 / (1 + exp (- 2)),
             1 / (1 + exp (- 10))]"
    by (simp add: airpls_weights_def np_mean_def np_std_def Let_def)
  have "0 < 1 + exp (- 6 :: real)" by (simp add: add_pos_pos)
  then have w2: "1 / (1 + exp (- 6 :: real)) \<noteq> 0" by simp
  have a: "exp (- 10 :: real) < 1" by simp
  have "(2::real) \<le> exp 1" using exp_ge_add_one_self [of "1::real"] by simp
  then have b: "exp (- 1 :: real) \<le> 1 / 2"
    by (simp add: exp_minus field_simps)
  have p: "0 < 1 + exp (- 10 :: real)" by (simp add: add_pos_pos)
  have "1 + exp (- 10 :: real) < 2" using a by simp
  then have "1 / 2 < 1 / (1 + exp (- 10 :: real))"
    using p by (simp add: field_simps)
  with b have w3: "1 / (1 + exp (- 10 :: real)) \<noteq> exp (- 1 / 1)" by simp
  show ?thesis using s m w w2 w3 by simp
qed

subsection \<open>The combinatorial sweep\<close>

lemma length_setitem: "length (setitem h a k v) = length h"
  by (simp add: setitem_def)

lemma nth_setitem:
  "a' < length h \<Longrightarrow> setitem h a k v ! a' = (if a' = a then (h ! a)(k \<mapsto> v) else h ! a')"
  by (simp add: setitem_def)

lemma run_combination_effect:
  assumes c: "config < length (heap st)"
    and gb: "(heap st ! config) ''baseline_correction'' = Some (Ref b)"
    and gn: "(heap st ! config) ''normalization'' = Some (Ref n)"
    and b: "b < length (heap st)" and n: "n < length (heap st)"
    and mk: "mkdir env (Suc (combination_count st)) = None"
  shows "\<exists>st'. run_combination env config st bm nm = Inr st'
          \<and> combination_count st' = Suc (combination_count st)
          \<and> length (heap st') = Suc (length (heap st))
          \<and> (\<forall>a<length (heap st). \<forall>k. k \<noteq> ''method'' \<longrightarrow> (heap st' ! a) k = (heap st ! a) k)
          \<and> (heap st' ! n) ''method'' = Some (Str nm)
          \<and> (b \<noteq> n \<longrightarrow> (heap st' ! b) ''method'' = Some (Str bm))
          \<and> ((\<exists>r. combination_summary st' = combination_summary st @ [r]
                   \<and> Baseline_Method r = bm \<and> Normalization_Method r = nm
                   \<and> 0 < Total_Peaks r \<and> logged st' = logged st)
              \<or> (\<exists>l. logged st' = logged st @ [(bm, nm, l)]
                   \<and> combination_summary st' = combination_summary st
                   \<and> (glob_csv env (Suc (combination_count st)) \<noteq> []
                        \<longrightarrow> l \<noteq> SKIPPED_missing_input_data)))"
proof -
  define h where "h = heap st"
  define tc where "tc = length h"
  define h1 where "h1 = h @ [h ! config]"
  define h2 where "h2 = setitem h1 b ''method'' (Str bm)"
  define h3 where "h3 = setitem h2 n ''method'' (Str nm)"
  define h4 where "h4 = setitem h3 tc ''output_dir'' (Str (combo_dir env (Suc (combination_count st))))"
  have cp: "dict_copy (heap st) config = Inr (h1, tc)"
    using c by (simp add: dict_copy_def h1_def tc_def h_def)
  have l1: "length h1 = Suc (length h)" by (simp add: h1_def)
  have tcb: "tc \<noteq> b" "tc \<noteq> n" using b n by (auto simp: tc_def h_def)
  have h1tc: "h1 ! tc = h ! config" by (simp add: h1_def tc_def)
  have s1: "setitem_nested h1 tc ''baseline_correction'' ''method'' (Str bm) = Inr h2"
    using gb l1 h1tc by (simp add: setitem_nested_def subscript_def tc_def h2_def h_def)
  have l2: "length h2 = Suc (length h)" by (simp add: h2_def length_setitem l1)
  have h2tc: "h2 ! tc = h ! config"
    using tcb l1 h1tc by (simp add: h2_def nth_setitem tc_def)
  have s2: "setitem_nested h2 tc ''normalization'' ''method'' (Str nm) = Inr h3"
    using gn l2 h2tc by (simp add: setitem_nested_def subscript_def tc_def h3_def h_def)
  have l3: "length h3 = Suc (length h)" by (simp add: h3_def length_setitem l2)
  have l4: "length h4 = Suc (length h)" by (simp add: h4_def length_setitem l3)
  have frame: "\<forall>a<length h. \<forall>k. k \<noteq> ''method'' \<longrightarrow> (h4 ! a) k = (h ! a) k"
  proof (intro allI impI)
    fix a k assume a: "a < length h" and k: "k \<noteq> ''method''"
    have "h4 ! a = h3 ! a" using a l3 by (simp add: h4_def nth_setitem tc_def)
    moreover have "(h3 ! a) k = (h2 ! a) k" using a l2 k by (simp add: h3_def nth_setitem)
    moreover have "(h2 ! a) k = (h1 ! a) k" using a l1 k by (simp add: h2_def nth_setitem)
    moreover have "h1 ! a = h ! a" using a by (simp add: h1_def nth_append)
    ultimately show "(h4 ! a) k = (h ! a) k" by simp
  qed
  have mn: "(h4 ! n) ''method'' = Some (Str nm)"
    using n l3 l2 tcb by (simp add: h4_def h3_def nth_setitem h_def)
  have mb: "b \<noteq> n \<longrightarrow> (h4 ! b) ''method'' = Some (Str bm)"
    using b n l3 l2 l1 tcb by (simp add: h4_def h3_def h2_def nth_setitem h_def)
  show ?thesis
    unfolding run_combination_def Let_def
    using cp s1 s2 mk l4 frame mn mb
    by (auto simp: h4_def [symmetric] h_def [symmetric] split: option.splits)
qed

lemma sweep_loop_effect:
  assumes c: "config < length (heap st)"
    and gb: "(heap st ! config) ''baseline_correction'' = Some (Ref b)"
    and gn: "(heap st ! config) ''normalization'' = Some (Ref n)"
    and b: "b < length (heap st)" and n: "n < length (heap st)"
    and mk: "\<forall>cc. mkdir env cc = None"
  shows "\<exists>st'. sweep_loop env config st combos = Inr st'
          \<and> length (heap st) \<le> length (heap st')
          \<and> (\<forall>a<length (heap st). \<forall>k. k \<noteq> ''method'' \<longrightarrow> (heap st' ! a) k = (heap st ! a) k)
          \<and> (combos \<noteq> [] \<longrightarrow> (heap st' ! n) ''method'' = Some (Str (snd (last combos)))
                \<and> (b \<noteq> n \<longrightarrow> (heap st' ! b) ''method'' = Some (Str (fst (last combos)))))
          \<and> (\<exists>rs ls. combination_summary st' = combination_summary st @ rs
                \<and> logged st' = logged st @ ls
                \<and> mset (map combination_of rs) + mset (map logged_combination ls) = mset combos
                \<and> (\<forall>r\<in>set rs. 0 < Total_Peaks r)
                \<and> ((\<forall>cc. glob_csv env cc \<noteq> [])
                      \<longrightarrow> (\<forall>e\<in>set ls. snd (snd e) \<noteq> SKIPPED_missing_input_data)))"
  using c gb gn b n
proof (induction combos arbitrary: st)
  case Nil
  show ?case by simp
next
  case (Cons p combos)
  obtain bm nm where p: "p = (bm, nm)" by (cases p)
  have mk1: "mkdir env (Suc (combination_count st)) = None" using mk by simp
  from run_combination_effect [OF Cons.prems(1-5) mk1, of bm nm]
  obtain st1 where st1: "run_combination env config st bm nm = Inr st1"
    and l1: "length (heap st1) = Suc (length (heap st))"
    and f1: "\<forall>a<length (heap st). \<forall>k. k \<noteq> ''method'' \<longrightarrow> (heap st1 ! a) k = (heap st ! a) k"
    and n1: "(heap st1 ! n) ''method'' = Some (Str nm)"
    and b1: "b \<noteq> n \<longrightarrow> (heap st1 ! b) ''method'' = Some (Str bm)"
    and r1: "(\<exists>r. combination_summary st1 = combination_summary st @ [r]
                   \<and> Baseline_Method r = bm \<and> Normalization_Method r = nm
                   \<and> 0 < Total_Peaks r \<and> logged st1 = logged st)
              \<or> (\<exists>l. logged st1 = logged st @ [(bm, nm, l)]
                   \<and> combination_summary st1 = combination_summary st
                   \<and> (glob_csv env (Suc (combination_count st)) \<noteq> []
                        \<longrightarrow> l \<noteq> SKIPPED_missing_input_data))"
    by blast
  have c1: "config < length (heap st1)" using Cons.prems(1) l1 by simp
  have gb1: "(heap st1 ! config) ''baseline_correction'' = Some (Ref b)"
    using f1 Cons.prems(1,2) by simp
  have gn1: "(heap st1 ! config) ''normalization'' = Some (Ref n)"
    using f1 Cons.prems(1,3) by simp
  have bl1: "b < length (heap st1)" and nl1: "n < length (heap st1)"
    using Cons.prems(4,5) l1 by simp_all
  from Cons.IH [OF c1 gb1 gn1 bl1 nl1]
  obtain st' rs ls where st': "sweep_loop env config st1 combos = Inr st'"
    and l': "length (heap st1) \<le> length (heap st')"
    and f': "\<forall>a<length (heap st1). \<forall>k. k \<noteq> ''method'' \<longrightarrow> (heap st' ! a) k = (heap st1 ! a) k"
    and m': "combos \<noteq> [] \<longrightarrow> (heap st' ! n) ''method'' = Some (Str (snd (last combos)))
                \<and> (b \<noteq> n \<longrightarrow> (heap st' ! b) ''method'' = Some (Str (fst (last combos))))"
    and rs: "combination_summary st' = combination_summary st1 @ rs"
    and ls: "logged st' = logged st1 @ ls"
    and ms: "mset (map combination_of rs) + mset (map logged_combination ls) = mset combos"
    and tp: "\<forall>r\<in>set rs. 0 < Total_Peaks r"
    and sk: "(\<forall>cc. glob_csv env cc \<noteq> [])
                      \<longrightarrow> (\<forall>e\<in>set ls. snd (snd e) \<noteq> SKIPPED_missing_input_data)"
    by blast
  have run: "sweep_loop env config st (p # combos) = Inr st'"
    using st1 st' p by simp
  have len: "length (heap st) \<le> length (heap st')" using l1 l' by simp
  have frame: "\<forall>a<length (heap st). \<forall>k. k \<noteq> ''method'' \<longrightarrow> (heap st' ! a) k = (heap st ! a) k"
    using f1 f' l1 by simp
  have meth: "(heap st' ! n) ''method'' = Some (Str (snd (last (p # combos))))
                \<and> (b \<noteq> n \<longrightarrow> (heap st' ! b) ''method'' = Some (Str (fst (last (p # combos)))))"
  proof (cases "combos = []")
    case True
    with st' have "st' = st1" by simp
    with True n1 b1 p show ?thesis by simp
  next
    case False
    with m' show ?thesis by simp
  qed
  from r1 have acc: "\<exists>rs ls. combination_summary st' = combination_summary st @ rs
                \<and> logged st' = logged st @ ls
                \<and> mset (map combination_of rs) + mset (map logged_combination ls)
                    = mset (p # combos)
                \<and> (\<forall>r\<in>set rs. 0 < Total_Peaks r)
                \<and> ((\<forall>cc. glob_csv env cc \<noteq> [])
                      \<longrightarrow> (\<forall>e\<in>set ls. snd (snd e) \<noteq> SKIPPED_missing_input_data))"
  proof
    assume "\<exists>r. combination_summary st1 = combination_summary st @ [r]
                   \<and> Baseline_Method r = bm \<and> Normalization_Method r = nm
                   \<and> 0 < Total_Peaks r \<and> logged st1 = logged st"
    then obtain r where r: "combination_summary st1 = combination_summary st @ [r]"
      "combination_of r = p" "0 < Total_Peaks r" "logged st1 = logged st"
      using p by (auto simp: combination_of_def)
    have "combination_summary st' = combination_summary st @ (r # rs)" using rs r by simp
    moreover have "logged st' = logged st @ ls" using ls r by simp
    moreover have "mset (map combination_of (r # rs)) + mset (map logged_combination ls)
                    = mset (p # combos)" using ms r by simp
    moreover have "\<forall>r\<in>set (r # rs). 0 < Total_Peaks r" using tp r by simp
    ultimately show ?thesis using sk by blast
  next
    assume "\<exists>l. logged st1 = logged st @ [(bm, nm, l)]
                   \<and> combination_summary st1 = combination_summary st
                   \<and> (glob_csv env (Suc (combination_count st)) \<noteq> []
                        \<longrightarrow> l \<noteq> SKIPPED_missing_input_data)"
    then obtain l where l: "logged st1 = logged st @ [(bm, nm, l)]"
      "combination_summary st1 = combination_summary st"
      "glob_csv env (Suc (combination_count st)) \<noteq> [] \<longrightarrow> l \<noteq> SKIPPED_missing_input_data"
      by blast
    have "combination_summary st' = combination_summary st @ rs" using rs l by simp
    moreover have "logged st' = logged st @ ((bm, nm, l) # ls)" using ls l by simp
    moreover have "mset (map combination_of rs) + mset (map logged_combination ((bm, nm, l) # ls))
                    = mset (p # combos)" using ms p by (simp add: logged_combination_def)
    moreover have "(\<forall>cc. glob_csv env cc \<noteq> [])
                      \<longrightarrow> (\<forall>e\<in>set ((bm, nm, l) # ls). snd (snd e) \<noteq> SKIPPED_missing_input_data)"
      using sk l by simp
    ultimately show ?thesis using tp by blast
  qed
  show ?case using run len frame meth acc by blast
qed

lemma length_combinations: "length combinations = 12"
  by (simp add: combinations_def baseline_methods_def normalization_methods_def)

text \<open>When process\_file never finds a peak, no combination enters the summary.\<close>

lemma process_files_no_peaks:
  assumes "\<forall>h t f. process_file env h t f = Inr None"
  shows "process_files env h t fs acc = acc"
  using assms by (induction fs arbitrary: acc) simp_all

lemma run_combination_no_peaks:
  assumes np: "\<forall>h t f. process_file env h t f = Inr None"
    and run: "run_combination env config st bm nm = Inr st'"
  shows "combination_summary st' = combination_summary st"
  using run unfolding run_combination_def Let_def process_files_no_peaks [OF np]
  by (auto split: sum.splits prod.splits option.splits if_splits)

lemma sweep_loop_no_peaks:
  assumes np: "\<forall>h t f. process_file env h t f = Inr None"
  shows "sweep_loop env config st combos = Inr st'
           \<Longrightarrow> combination_summary st' = combination_summary st"
proof (induction combos arbitrary: st)
  case Nil
  then show ?case by simp
next
  case (Cons p combos)
  obtain bm nm where p: "p = (bm, nm)" by (cases p)
  from Cons.prems p obtain st1 where 1: "run_combination env config st bm nm = Inr st1"
    and 2: "sweep_loop env config st1 combos = Inr st'"
    by (auto split: sum.splits)
  from Cons.IH [OF 2] run_combination_no_peaks [OF np 1] show ?case by simp
qed

text \<open>
  C4 (the code at a failing input): a configuration with baseline method polynomial and
  normalization method min\_max. The sweep returns; the caller's configuration (address
  0) still refers to the same two nested dicts and keeps its own output\_dir, but their
  methods are now those of the last combination, spline and vector: each combination's
  copy shares the nested groups with the caller's configuration.
\<close>

theorem sweep_changes_caller_config:
  "\<exists>st. test_all_baseline_normalization_combinations stub_environment sweep_config_store 0
           = Inr (None, st)
        \<and> subscript sweep_config_store 1 ''method'' = Inr (Str ''polynomial'')
        \<and> subscript sweep_config_store 2 ''method'' = Inr (Str ''min_max'')
        \<and> subscript (heap st) 0 ''baseline_correction'' = Inr (Ref 1)
        \<and> subscript (heap st) 0 ''normalization'' = Inr (Ref 2)
        \<and> subscript (heap st) 0 ''output_dir'' = Inr (Str ''out'')
        \<and> subscript (heap st) 1 ''method'' = Inr (Str ''spline'')
        \<and> subscript (heap st) 2 ''method'' = Inr (Str ''vector'')"
proof -
  let ?st0 = "\<lparr>heap = sweep_config_store, combination_count = 0,
               combination_summary = [], logged = []\<rparr>"
  have c: "0 < length (heap ?st0)" by (simp add: sweep_config_store_def)
  have gb: "(heap ?st0 ! 0) ''baseline_correction'' = Some (Ref 1)"
    and gn: "(heap ?st0 ! 0) ''normalization'' = Some (Ref 2)"
    and od: "(heap ?st0 ! 0) ''output_dir'' = Some (Str ''out'')"
    by (simp_all add: sweep_config_store_def)
  have b: "1 < length (heap ?st0)" and n: "2 < length (heap ?st0)"
    by (simp_all add: sweep_config_store_def)
  have mk: "\<forall>cc. mkdir stub_environment cc = None" by (simp add: stub_environment_def)
  have np: "\<forall>h t f. process_file stub_environment h t f = Inr None"
    by (simp add: stub_environment_def)
  have lst: "last combinations = (''spline'', ''vector'')" "combinations \<noteq> []"
    by (simp_all add: combinations_def baseline_methods_def normalization_methods_def)
  from sweep_loop_effect [OF c gb gn b n mk, of combinations]
  obtain st where st: "sweep_loop stub_environment 0 ?st0 combinations = Inr st"
    and len: "length (heap ?st0) \<le> length (heap st)"
    and frame: "\<forall>a<length (heap ?st0). \<forall>k. k \<noteq> ''method''
                   \<longrightarrow> (heap st ! a) k = (heap ?st0 ! a) k"
    and meth: "combinations \<noteq> [] \<longrightarrow>
                 (heap st ! 2) ''method'' = Some (Str (snd (last combinations)))
                 \<and> ((1::nat) \<noteq> 2 \<longrightarrow>
                      (heap st ! 1) ''method'' = Some (Str (fst (last combinations))))"
    by blast
  have empty: "combination_summary st = []"
    using sweep_loop_no_peaks [OF np st] by simp
  have pre: "subscript sweep_config_store 0 ''input_dir'' = Inr (Str ''data'')"
    "get_output_dir stub_environment sweep_config_store 0 = Inr ''out''"
    "make_analysis_dir stub_environment = None" "open_log stub_environment = None"
    "glob_csv stub_environment 0 \<noteq> []"
    by (simp_all add: get_output_dir_def path_of_def subscript_def sweep_config_store_def
                      stub_environment_def)
  have run: "test_all_baseline_normalization_combinations stub_environment sweep_config_store 0
               = Inr (None, st)"
    unfolding test_all_baseline_normalization_combinations_def Let_def
    using pre st empty by (simp add: path_of_def final_reports_def)
  have l: "3 \<le> length (heap st)" using len by (simp add: sweep_config_store_def)
  have k0: "(heap st ! 0) ''baseline_correction'' = Some (Ref 1)"
           "(heap st ! 0) ''normalization'' = Some (Ref 2)"
           "(heap st ! 0) ''output_dir'' = Some (Str ''out'')"
    using frame c gb gn od by simp_all
  have m: "(heap st ! 2) ''method'' = Some (Str ''vector'')"
          "(heap st ! 1) ''method'' = Some (Str ''spline'')"
    using meth lst by simp_all
  have before: "subscript sweep_config_store 1 ''method'' = Inr (Str ''polynomial'')"
               "subscript sweep_config_store 2 ''method'' = Inr (Str ''min_max'')"
    by (simp_all add: subscript_def sweep_config_store_def)
  show ?thesis using run before k0 m l by (auto simp: subscript_def)
qed

text \<open>The run of the loops in the second environment.\<close>

lemma airpls_fails_run:
  "map_sum id (\<lambda>st. (map combination_of (combination_summary st),
                        map Total_Peaks (combination_summary st), logged st))
     (sweep_loop airpls_fails_environment 0
        \<lparr>heap = sweep_config_store, combination_count = 0, combination_summary = [],
         logged = []\<rparr> combinations)
   = Inr ([(''polynomial'', ''min_max''), (''polynomial'', ''area''), (''polynomial'', ''peak''),
           (''polynomial'', ''vector''), (''spline'', ''min_max''), (''spline'', ''area''),
           (''spline'', ''peak''), (''spline'', ''vector'')],
          [1, 1, 1, 1, 1, 1, 1, 1],
          [(''airpls'', ''min_max'', FAILED_no_valid_peaks),
           (''airpls'', ''area'', FAILED_no_valid_peaks),
           (''airpls'', ''peak'', FAILED_no_valid_peaks),
           (''airpls'', ''vector'', FAILED_no_valid_peaks)])"
  by code_simp

text \<open>
  C5: with a configuration that has its input and output directories (strings) and its
  two method groups, directories and a log file that can be created, and CSV files
  present, the two loops run to their end whatever process\_file, the metrics and the
  writing of the result files do (finding no peak and raising included): each of the
  twelve combinations is, exactly once, either an entry of combination\_summary (with at
  least one peak) or a line of the log marked FAILED, so their numbers add up to 12.
  What the function then returns: None when no combination succeeded; otherwise the
  exception the writing of the comparative reports or of the conclusions raises, None
  when the search of the best combinations fails, and combination\_summary when the
  reports are written.
\<close>

theorem sweep_completeness:
  assumes c: "config < length h"
    and inp: "(h ! config) ''input_dir'' = Some (Str input_dir)"
    and out: "(h ! config) ''output_dir'' = Some (Str output_dir)"
    and gb: "(h ! config) ''baseline_correction'' = Some (Ref b)"
    and gn: "(h ! config) ''normalization'' = Some (Ref n)"
    and b: "b < length h" and n: "n < length h"
    and dirs: "make_output_dir env = None" "make_analysis_dir env = None"
    and lg: "open_log env = None"
    and mk: "\<forall>cc. mkdir env cc = None"
    and files: "\<forall>cc. glob_csv env cc \<noteq> []"
  shows "\<exists>st. sweep_loop env config
                \<lparr>heap = h, combination_count = 0, combination_summary = [], logged = []\<rparr>
                combinations = Inr st
          \<and> length (combination_summary st) + length (logged st) = 12
          \<and> mset (map combination_of (combination_summary st))
              + mset (map logged_combination (logged st)) = mset combinations
          \<and> (\<forall>r\<in>set (combination_summary st). 0 < Total_Peaks r)
          \<and> (\<forall>e\<in>set (logged st). snd (snd e) = FAILED_no_valid_peaks
                                    \<or> snd (snd e) = FAILED_processing_error)
          \<and> test_all_baseline_normalization_combinations env h config =
              (if combination_summary st = [] then Inr (None, st)
               else case write_comparison env (combination_summary st) of
                      Some e \<Rightarrow> Inl e
                    | None \<Rightarrow>
                        if rank_combinations env (combination_summary st)
                        then (case write_conclusions env (combination_summary st) of
                                Some e \<Rightarrow> Inl e
                              | None \<Rightarrow> Inr (Some (combination_summary st), st))
                        else Inr (None, st))"
proof -
  let ?st0 = "\<lparr>heap = h, combination_count = 0, combination_summary = [], logged = []\<rparr>"
  have c0: "config < length (heap ?st0)" using c by simp
  have gb0: "(heap ?st0 ! config) ''baseline_correction'' = Some (Ref b)" using gb by simp
  have gn0: "(heap ?st0 ! config) ''normalization'' = Some (Ref n)" using gn by simp
  have b0: "b < length (heap ?st0)" and n0: "n < length (heap ?st0)" using b n by simp_all
  from sweep_loop_effect [OF c0 gb0 gn0 b0 n0 mk, of combinations]
  obtain st rs ls where st: "sweep_loop env config ?st0 combinations = Inr st"
    and rs: "combination_summary st = combination_summary ?st0 @ rs"
    and ls: "logged st = logged ?st0 @ ls"
    and ms: "mset (map combination_of rs) + mset (map logged_combination ls) = mset combinations"
    and tp: "\<forall>r\<in>set rs. 0 < Total_Peaks r"
    and sk: "(\<forall>cc. glob_csv env cc \<noteq> [])
               \<longrightarrow> (\<forall>e\<in>set ls. snd (snd e) \<noteq> SKIPPED_missing_input_data)"
    by blast
  have pre: "subscript h config ''input_dir'' = Inr (Str input_dir)"
    "get_output_dir env h config = Inr output_dir"
    using c inp out dirs by (simp_all add: get_output_dir_def path_of_def subscript_def)
  have g0: "glob_csv env 0 \<noteq> []" using files by simp
  have run: "test_all_baseline_normalization_combinations env h config =
              (if combination_summary st = [] then Inr (None, st)
               else case write_comparison env (combination_summary st) of
                      Some e \<Rightarrow> Inl e
                    | None \<Rightarrow>
                        if rank_combinations env (combination_summary st)
                        then (case write_conclusions env (combination_summary st) of
                                Some e \<Rightarrow> Inl e
                              | None \<Rightarrow> Inr (Some (combination_summary st), st))
                        else Inr (None, st))"
  proof -
    have "test_all_baseline_normalization_combinations env h config =
            (case final_reports env (combination_summary st) of
               Inl e \<Rightarrow> Inl e
             | Inr r \<Rightarrow> Inr (r, st))"
      unfolding test_all_baseline_normalization_combinations_def Let_def
      using pre dirs lg g0 st by (simp add: path_of_def)
    then show ?thesis
      by (cases "write_comparison env (combination_summary st)";
          cases "write_conclusions env (combination_summary st)")
         (simp_all add: final_reports_def)
  qed
  have rs': "combination_summary st = rs" and ls': "logged st = ls" using rs ls by simp_all
  have "size (mset (map combination_of rs) + mset (map logged_combination ls))
          = size (mset combinations)" using ms by simp
  then have cnt: "length rs + length ls = 12" by (simp add: length_combinations)
  have failed: "\<forall>e\<in>set ls. snd (snd e) = FAILED_no_valid_peaks
                                    \<or> snd (snd e) = FAILED_processing_error"
  proof
    fix e assume "e \<in> set ls"
    with sk files have "snd (snd e) \<noteq> SKIPPED_missing_input_data" by blast
    then show "snd (snd e) = FAILED_no_valid_peaks \<or> snd (snd e) = FAILED_processing_error"
      by (cases "snd (snd e)") simp_all
  qed
  have counted: "length (combination_summary st) + length (logged st) = 12"
    "mset (map combination_of (combination_summary st))
       + mset (map logged_combination (logged st)) = mset combinations"
    "\<forall>r\<in>set (combination_summary st). 0 < Total_Peaks r"
    "\<forall>e\<in>set (logged st). snd (snd e) = FAILED_no_valid_peaks
                             \<or> snd (snd e) = FAILED_processing_error"
    using rs' ls' cnt ms tp failed by simp_all
  show ?thesis
  proof (intro exI conjI)
    show "sweep_loop env config ?st0 combinations = Inr st" by (rule st)
  qed (use counted run in simp_all)
qed

theorem sweep_completeness_witness:
  "\<exists>st. test_all_baseline_normalization_combinations airpls_fails_environment
           sweep_config_store 0 = Inr (Some (combination_summary st), st)
        \<and> length (combination_summary st) + length (logged st) = 12
        \<and> map combination_of (combination_summary st)
            = [(''polynomial'', ''min_max''), (''polynomial'', ''area''),
               (''polynomial'', ''peak''), (''polynomial'', ''vector''),
               (''spline'', ''min_max''), (''spline'', ''area''),
               (''spline'', ''peak''), (''spline'', ''vector'')]
        \<and> map Total_Peaks (combination_summary st) = [1, 1, 1, 1, 1, 1, 1, 1]
        \<and> logged st = [(''airpls'', ''min_max'', FAILED_no_valid_peaks),
                       (''airpls'', ''area'', FAILED_no_valid_peaks),
                       (''airpls'', ''peak'', FAILED_no_valid_peaks),
                       (''airpls'', ''vector'', FAILED_no_valid_peaks)]"
proof -
  have c: "0 < length sweep_config_store" by (simp add: sweep_config_store_def)
  have inp: "(sweep_config_store ! 0) ''input_dir'' = Some (Str ''data'')"
    and out: "(sweep_config_store ! 0) ''output_dir'' = Some (Str ''out'')"
    and gb: "(sweep_config_store ! 0) ''baseline_correction'' = Some (Ref 1)"
    and gn: "(sweep_config_store ! 0) ''normalization'' = Some (Ref 2)"
    by (simp_all add: sweep_config_store_def)
  have b: "1 < length sweep_config_store" and n: "2 < length sweep_config_store"
    by (simp_all add: sweep_config_store_def)
  have dirs: "make_output_dir airpls_fails_environment = None"
    "make_analysis_dir airpls_fails_environment = None"
    and lg: "open_log airpls_fails_environment = None"
    and mk: "\<forall>cc. mkdir airpls_fails_environment cc = None"
    and files: "\<forall>cc. glob_csv airpls_fails_environment cc \<noteq> []"
    and reports: "\<And>s. write_comparison airpls_fails_environment s = None"
      "\<And>s. rank_combinations airpls_fails_environment s"
      "\<And>s. write_conclusions airpls_fails_environment s = None"
    by (simp_all add: airpls_fails_environment_def stub_environment_def)
  from sweep_completeness [OF c inp out gb gn b n dirs lg mk files]
  obtain st where all:
    "sweep_loop airpls_fails_environment 0
       \<lparr>heap = sweep_config_store, combination_count = 0, combination_summary = [],
        logged = []\<rparr> combinations = Inr st
     \<and> length (combination_summary st) + length (logged st) = 12
     \<and> mset (map combination_of (combination_summary st))
              + mset (map logged_combination (logged st)) = mset combinations
     \<and> (\<forall>r\<in>set (combination_summary st). 0 < Total_Peaks r)
     \<and> (\<forall>e\<in>set (logged st). snd (snd e) = FAILED_no_valid_peaks
                                    \<or> snd (snd e) = FAILED_processing_error)
     \<and> test_all_baseline_normalization_combinations airpls_fails_environment
                sweep_config_store 0 =
              (if combination_summary st = [] then Inr (None, st)
               else case write_comparison airpls_fails_environment (combination_summary st) of
                      Some e \<Rightarrow> Inl e
                    | None \<Rightarrow>
                        if rank_combinations airpls_fails_environment (combination_summary st)
                        then (case write_conclusions airpls_fails_environment
                                     (combination_summary st) of
                                Some e \<Rightarrow> Inl e
                              | None \<Rightarrow> Inr (Some (combination_summary st), st))
                        else Inr (None, st))" ..
  from all have st: "sweep_loop airpls_fails_environment 0
                \<lparr>heap = sweep_config_store, combination_count = 0, combination_summary = [],
                 logged = []\<rparr> combinations = Inr st"
    by (elim conjE)
  from all have cnt: "length (combination_summary st) + length (logged st) = 12"
    by (elim conjE)
  from all have run: "test_all_baseline_normalization_combinations airpls_fails_environment
                sweep_config_store 0 =
              (if combination_summary st = [] then Inr (None, st)
               else case write_comparison airpls_fails_environment (combination_summary st) of
                      Some e \<Rightarrow> Inl e
                    | None \<Rightarrow>
                        if rank_combinations airpls_fails_environment (combination_summary st)
                        then (case write_conclusions airpls_fails_environment
                                     (combination_summary st) of
                                Some e \<Rightarrow> Inl e
                              | None \<Rightarrow> Inr (Some (combination_summary st), st))
                        else Inr (None, st))"
    by (elim conjE)
  have ev: "map combination_of (combination_summary st)
            = [(''polynomial'', ''min_max''), (''polynomial'', ''area''),
               (''polynomial'', ''peak''), (''polynomial'', ''vector''),
               (''spline'', ''min_max''), (''spline'', ''area''),
               (''spline'', ''peak''), (''spline'', ''vector'')]"
    "map Total_Peaks (combination_summary st) = [1, 1, 1, 1, 1, 1, 1, 1]"
    "logged st = [(''airpls'', ''min_max'', FAILED_no_valid_peaks),
                       (''airpls'', ''area'', FAILED_no_valid_peaks),
                       (''airpls'', ''peak'', FAILED_no_valid_peaks),
                       (''airpls'', ''vector'', FAILED_no_valid_peaks)]"
    using airpls_fails_run unfolding st by simp_all
  have ne: "combination_summary st \<noteq> []"
  proof
    assume "combination_summary st = []"
    with ev(2) show False by simp
  qed
  have ret: "test_all_baseline_normalization_combinations airpls_fails_environment
           sweep_config_store 0 = Inr (Some (combination_summary st), st)"
    unfolding run using ne by (simp add: reports)
  show ?thesis
    by (rule exI [of _ st], intro conjI) (rule ret cnt ev)+
qed

subsection \<open>Gaussian fitting\<close>

lemma fit_loop_rows:
  assumes "\<forall>i\<in>set idxs. \<exists>v. body i = Inr v"
  shows "fit_loop body idxs acc = Inr (acc @ List.map_filter (\<lambda>i. fitted_row (body i)) idxs)"
  using assms
proof (induction idxs arbitrary: acc)
  case Nil
  show ?case by (simp add: List.map_filter_simps)
next
  case (Cons i idxs)
  from Cons.prems obtain v where v: "body i = Inr v" by auto
  from Cons.prems have rest: "\<forall>i\<in>set idxs. \<exists>v. body i = Inr v" by simp
  show ?case
  proof (cases v)
    case None
    with v Cons.IH [OF rest, of acc] show ?thesis
      by (simp add: List.map_filter_simps fitted_row_def)
  next
    case (Some r)
    with v Cons.IH [OF rest, of "acc @ [r]"] show ?thesis
      by (simp add: List.map_filter_simps fitted_row_def)
  qed
qed

lemma fit_peak_cases:
  assumes "peaks ! i < length x" "length y = length x" "i < length ls" "i < length rs"
  shows "\<exists>v. fit_peak cf sp x y peaks ls rs i = Inr v
           \<and> (length (filter (\<lambda>v. fst (fit_window x (ls ! i) (rs ! i)) \<le> v
                                  \<and> v \<le> snd (fit_window x (ls ! i) (rs ! i))) x) < 5
                \<longrightarrow> v = None)
           \<and> ((\<exists>e. cf (fit_arguments x y (peaks ! i) (ls ! i) (rs ! i)) = Inl e) \<longrightarrow> v = None)
           \<and> (\<forall>r. v = Some r \<longrightarrow>
                  fit_range r = fit_window x (ls ! i) (rs ! i)
                  \<and> 5 \<le> length (filter (\<lambda>v. fst (fit_window x (ls ! i) (rs ! i)) \<le> v
                                  \<and> v \<le> snd (fit_window x (ls ! i) (rs ! i))) x)
                  \<and> cf (fit_arguments x y (peaks ! i) (ls ! i) (rs ! i))
                      = Inr [amplitude r, center r, sigma r, offset r]
                  \<and> fwhm_gaussian r = 2.355 * sigma r)"
proof -
  have sel: "\<And>w. length (select (fit_mask x w) x) = length (filter (\<lambda>v. fst w \<le> v \<and> v \<le> snd w) x)"
  proof -
    fix w
    have "select (map P x) x = filter P x" for P
      by (induction x) (simp_all add: select_def)
    then show "length (select (fit_mask x w) x) = length (filter (\<lambda>v. fst w \<le> v \<and> v \<le> snd w) x)"
      by (simp add: fit_mask_def)
  qed
  show ?thesis
    using assms
    by (auto simp: fit_peak_def Let_def sel split: sum.splits list.splits)
qed

text \<open>
  C9: with peak indices inside the spectrum and a half-maximum position on each side for
  every peak, fit\_gaussian\_profiles returns (no exception); the rows returned are, in
  order, those of the peaks that are not skipped; for every peak the window is
  [left - 0.2 width, right + 0.2 width] cut to [min x, max x]; a peak with fewer than 5
  samples in its window, or whose optimizer call raises, contributes no row; a row
  carries the window of its peak as fit\_range and the optimizer's parameters.
\<close>

theorem fit_windows_and_skips:
  assumes idx: "\<forall>p\<in>set peaks. p < length x" and ly: "length y = length x"
    and ll: "length peaks \<le> length ls" and lr: "length peaks \<le> length rs"
  shows "\<exists>res. fit_gaussian_profiles cf sp x y peaks ls rs = Inr res
          \<and> res = List.map_filter (\<lambda>i. fitted_row (fit_peak cf sp x y peaks ls rs i))
                                     [0..<length peaks]
          \<and> length res \<le> length peaks
          \<and> (\<forall>i<length peaks.
                 fit_window x (ls ! i) (rs ! i)
                   = (max (Min (set x)) (ls ! i - 0.2 * (rs ! i - ls ! i)),
                      min (Max (set x)) (rs ! i + 0.2 * (rs ! i - ls ! i)))
                 \<and> (length (filter (\<lambda>v. fst (fit_window x (ls ! i) (rs ! i)) \<le> v
                                        \<and> v \<le> snd (fit_window x (ls ! i) (rs ! i))) x) < 5
                      \<longrightarrow> fitted_row (fit_peak cf sp x y peaks ls rs i) = None)
                 \<and> ((\<exists>e. cf (fit_arguments x y (peaks ! i) (ls ! i) (rs ! i)) = Inl e)
                      \<longrightarrow> fitted_row (fit_peak cf sp x y peaks ls rs i) = None)
                 \<and> (\<forall>r. fitted_row (fit_peak cf sp x y peaks ls rs i) = Some r
                      \<longrightarrow> fit_range r = fit_window x (ls ! i) (rs ! i)
                          \<and> 5 \<le> length (filter (\<lambda>v. fst (fit_window x (ls ! i) (rs ! i)) \<le> v
                                        \<and> v \<le> snd (fit_window x (ls ! i) (rs ! i))) x)
                          \<and> cf (fit_arguments x y (peaks ! i) (ls ! i) (rs ! i))
                               = Inr [amplitude r, center r, sigma r, offset r]))"
proof -
  let ?body = "fit_peak cf sp x y peaks ls rs"
  have each: "\<And>i. i < length peaks \<Longrightarrow>
      \<exists>v. ?body i = Inr v
           \<and> (length (filter (\<lambda>v. fst (fit_window x (ls ! i) (rs ! i)) \<le> v
                                  \<and> v \<le> snd (fit_window x (ls ! i) (rs ! i))) x) < 5
                \<longrightarrow> v = None)
           \<and> ((\<exists>e. cf (fit_arguments x y (peaks ! i) (ls ! i) (rs ! i)) = Inl e) \<longrightarrow> v = None)
           \<and> (\<forall>r. v = Some r \<longrightarrow>
                  fit_range r = fit_window x (ls ! i) (rs ! i)
                  \<and> 5 \<le> length (filter (\<lambda>v. fst (fit_window x (ls ! i) (rs ! i)) \<le> v
                                  \<and> v \<le> snd (fit_window x (ls ! i) (rs ! i))) x)
                  \<and> cf (fit_arguments x y (peaks ! i) (ls ! i) (rs ! i))
                      = Inr [amplitude r, center r, sigma r, offset r]
                  \<and> fwhm_gaussian r = 2.355 * sigma r)"
  proof -
    fix i assume i: "i < length peaks"
    then have "peaks ! i < length x" using idx by simp
    moreover have "i < length ls" "i < length rs" using i ll lr by simp_all
    ultimately show "\<exists>v. ?body i = Inr v
           \<and> (length (filter (\<lambda>v. fst (fit_window x (ls ! i) (rs ! i)) \<le> v
                                  \<and> v \<le> snd (fit_window x (ls ! i) (rs ! i))) x) < 5
                \<longrightarrow> v = None)
           \<and> ((\<exists>e. cf (fit_arguments x y (peaks ! i) (ls ! i) (rs ! i)) = Inl e) \<longrightarrow> v = None)
           \<and> (\<forall>r. v = Some r \<longrightarrow>
                  fit_range r = fit_window x (ls ! i) (rs ! i)
                  \<and> 5 \<le> length (filter (\<lambda>v. fst (fit_window x (ls ! i) (rs ! i)) \<le> v
                                  \<and> v \<le> snd (fit_window x (ls ! i) (rs ! i))) x)
                  \<and> cf (fit_arguments x y (peaks ! i) (ls ! i) (rs ! i))
                      = Inr [amplitude r, center r, sigma r, offset r]
                  \<and> fwhm_gaussian r = 2.355 * sigma r)"
      using fit_peak_cases [OF _ ly, of peaks i ls rs cf sp] by blast
  qed
  have all: "\<forall>i\<in>set [0..<length peaks]. \<exists>v. ?body i = Inr v"
  proof
    fix i assume "i \<in> set [0..<length peaks]"
    then have "i < length peaks" by simp
    from each [OF this] show "\<exists>v. ?body i = Inr v" by blast
  qed
  have run: "fit_gaussian_profiles cf sp x y peaks ls rs
               = Inr (List.map_filter (\<lambda>i. fitted_row (?body i)) [0..<length peaks])"
    using fit_loop_rows [OF all, of "[]"] by (simp add: fit_gaussian_profiles_def)
  have len: "length (List.map_filter (\<lambda>i. fitted_row (?body i)) [0..<length peaks])
               \<le> length peaks"
    using length_filter_le [of "\<lambda>i. fitted_row (?body i) \<noteq> None" "[0..<length peaks]"]
    by (simp add: List.map_filter_def)
  have win: "\<And>l r. fit_window x l r
                   = (max (Min (set x)) (l - 0.2 * (r - l)), min (Max (set x)) (r + 0.2 * (r - l)))"
    by (simp add: fit_window_def Let_def)
  have per: "\<forall>i<length peaks.
                 fit_window x (ls ! i) (rs ! i)
                   = (max (Min (set x)) (ls ! i - 0.2 * (rs ! i - ls ! i)),
                      min (Max (set x)) (rs ! i + 0.2 * (rs ! i - ls ! i)))
                 \<and> (length (filter (\<lambda>v. fst (fit_window x (ls ! i) (rs ! i)) \<le> v
                                        \<and> v \<le> snd (fit_window x (ls ! i) (rs ! i))) x) < 5
                      \<longrightarrow> fitted_row (?body i) = None)
                 \<and> ((\<exists>e. cf (fit_arguments x y (peaks ! i) (ls ! i) (rs ! i)) = Inl e)
                      \<longrightarrow> fitted_row (?body i) = None)
                 \<and> (\<forall>r. fitted_row (?body i) = Some r
                      \<longrightarrow> fit_range r = fit_window x (ls ! i) (rs ! i)
                          \<and> 5 \<le> length (filter (\<lambda>v. fst (fit_window x (ls ! i) (rs ! i)) \<le> v
                                        \<and> v \<le> snd (fit_window x (ls ! i) (rs ! i))) x)
                          \<and> cf (fit_arguments x y (peaks ! i) (ls ! i) (rs ! i))
                               = Inr [amplitude r, center r, sigma r, offset r])"
  proof (intro allI impI)
    fix i assume i: "i < length peaks"
    from each [OF i] obtain v where v: "?body i = Inr v"
      and a: "length (filter (\<lambda>v. fst (fit_window x (ls ! i) (rs ! i)) \<le> v
                                  \<and> v \<le> snd (fit_window x (ls ! i) (rs ! i))) x) < 5
                \<longrightarrow> v = None"
      and b: "(\<exists>e. cf (fit_arguments x y (peaks ! i) (ls ! i) (rs ! i)) = Inl e) \<longrightarrow> v = None"
      and c: "\<forall>r. v = Some r \<longrightarrow>
                  fit_range r = fit_window x (ls ! i) (rs ! i)
                  \<and> 5 \<le> length (filter (\<lambda>v. fst (fit_window x (ls ! i) (rs ! i)) \<le> v
                                  \<and> v \<le> snd (fit_window x (ls ! i) (rs ! i))) x)
                  \<and> cf (fit_arguments x y (peaks ! i) (ls ! i) (rs ! i))
                      = Inr [amplitude r, center r, sigma r, offset r]
                  \<and> fwhm_gaussian r = 2.355 * sigma r"
      by blast
    have fr: "fitted_row (?body i) = v" using v by (simp add: fitted_row_def)
    show "fit_window x (ls ! i) (rs ! i)
                   = (max (Min (set x)) (ls ! i - 0.2 * (rs ! i - ls ! i)),
                      min (Max (set x)) (rs ! i + 0.2 * (rs ! i - ls ! i)))
                 \<and> (length (filter (\<lambda>v. fst (fit_window x (ls ! i) (rs ! i)) \<le> v
                                        \<and> v \<le> snd (fit_window x (ls ! i) (rs ! i))) x) < 5
                      \<longrightarrow> fitted_row (?body i) = None)
                 \<and> ((\<exists>e. cf (fit_arguments x y (peaks ! i) (ls ! i) (rs ! i)) = Inl e)
                      \<longrightarrow> fitted_row (?body i) = None)
                 \<and> (\<forall>r. fitted_row (?body i) = Some r
                      \<longrightarrow> fit_range r = fit_window x (ls ! i) (rs ! i)
                          \<and> 5 \<le> length (filter (\<lambda>v. fst (fit_window x (ls ! i) (rs ! i)) \<le> v
                                        \<and> v \<le> snd (fit_window x (ls ! i) (rs ! i))) x)
                          \<and> cf (fit_arguments x y (peaks ! i) (ls ! i) (rs ! i))
                               = Inr [amplitude r, center r, sigma r, offset r])"
      unfolding fr using a b c win by blast
  qed
  show ?thesis using run len per by blast
qed

theorem fit_windows_and_skips_witness:
  "\<exists>res. fit_gaussian_profiles stub_curve_fit stub_simpson
            [0, 1, 2, 3, 4, 5, 6, 7, 8, 9] [0, 0, 1, 0, 0, 1, 0, 0, 1, 0]
            [2, 5, 8] [3 / 2, 3, 5] [5 / 2, 7, 10] = Inr res
         \<and> map fit_range res = [(4, 9)]"
proof -
  let ?x = "[0, 1, 2, 3, 4, 5, 6, 7, 8, 9] :: real list"
  let ?y = "[0, 0, 1, 0, 0, 1, 0, 0, 1, 0] :: real list"
  let ?ls = "[3 / 2, 3, 5] :: real list"
  let ?rs = "[5 / 2, 7, 10] :: real list"
  let ?body = "fit_peak stub_curve_fit stub_simpson ?x ?y [2, 5, 8] ?ls ?rs"
  have idx: "\<forall>p\<in>set [2, 5, 8 :: nat]. p < length ?x" by simp
  have ly: "length ?y = length ?x" by simp
  have ll: "length [2, 5, 8 :: nat] \<le> length ?ls" and lr: "length [2, 5, 8 :: nat] \<le> length ?rs"
    by simp_all
  from fit_windows_and_skips [OF idx ly ll lr, of stub_curve_fit stub_simpson]
  obtain res where run: "fit_gaussian_profiles stub_curve_fit stub_simpson ?x ?y [2, 5, 8] ?ls ?rs
                           = Inr res"
    and res: "res = List.map_filter (\<lambda>i. fitted_row (?body i)) [0..<length [2, 5, 8 :: nat]]"
    by blast
  have w0: "fit_window ?x (3 / 2) (5 / 2) = (13 / 10, 27 / 10)"
    and w1: "fit_window ?x 3 7 = (11 / 5, 39 / 5)"
    and w2: "fit_window ?x 5 10 = (4, 9)"
    by (simp_all add: fit_window_def Let_def)
  have e0: "?body 0 = Inr None"
    by (simp add: fit_peak_def Let_def w0 fit_mask_def select_def)
  have e1: "?body 1 = Inr None"
    by (simp add: fit_peak_def Let_def w1 fit_mask_def select_def fit_arguments_def
                  stub_curve_fit_def)
  have e2: "\<exists>r. ?body 2 = Inr (Some r) \<and> fit_range r = (4, 9)"
    by (simp add: fit_peak_def Let_def w2 fit_mask_def select_def fit_arguments_def
                  stub_curve_fit_def stub_simpson_def)
  then obtain r where r: "?body 2 = Inr (Some r)" "fit_range r = (4, 9)" by blast
  have "res = [r]"
    using res e0 e1 r
    by (simp add: upt_rec numeral_nat List.map_filter_simps fitted_row_def)
  with run r show ?thesis by simp
qed

subsection \<open>Outlier detection\<close>

lemma z_test:
  assumes "0 < v"
  shows "(\<bar>a / sqrt v\<bar> > 3) = (a\<^sup>2 > 9 * v)"
proof -
  have s: "0 < sqrt v" using assms by simp
  have "(\<bar>a\<bar> \<le> 3 * sqrt v) = (\<bar>a\<bar> \<le> \<bar>3 * sqrt v\<bar>)"
    using s by simp
  also have "\<dots> = (a\<^sup>2 \<le> (3 * sqrt v)\<^sup>2)"
    by (rule abs_le_square_iff)
  also have "\<dots> = (a\<^sup>2 \<le> 9 * v)"
    using assms by (simp add: power_mult_distrib)
  finally have le: "(\<bar>a\<bar> \<le> 3 * sqrt v) = (a\<^sup>2 \<le> 9 * v)" .
  have "(\<bar>a / sqrt v\<bar> > 3) = (\<bar>a\<bar> > 3 * sqrt v)"
    using s by (simp add: field_simps)
  with le show ?thesis by (simp add: not_le [symmetric])
qed

lemma z_mask_eval:
  assumes "pd_std xs = sqrt V" "0 < V"
  shows "z_outliers_mask xs r = ((FWHM_Gauss r - pd_mean xs)\<^sup>2 > 9 * V)"
  unfolding z_outliers_mask_def assms(1) by (rule z_test [OF assms(2)])

lemma region_mask_is_peak_in_region:
  "region_mask (n, lo, hi, incl) r = is_peak_in_region (Centro r) lo hi incl"
  by (simp add: region_mask_def is_peak_in_region_def)

lemma region_outliers_iff:
  "n \<in> region_outliers d \<longleftrightarrow> (\<exists>r\<in>set d. label r = n \<and> is_outlier d r)"
  by (auto simp: region_outliers_def Let_def index_of_def is_outlier_def)

lemma label_inj:
  assumes "distinct (map label t)" "x \<in> set t" "r \<in> set t" "label r = label x"
  shows "r = x"
  using assms by (auto simp: distinct_map inj_on_def)

lemma region_outliers_row:
  assumes dist: "distinct (map label t)" and x: "x \<in> set t"
  shows "label x \<in> region_outliers (filter (region_mask A) t)
           \<longleftrightarrow> region_mask A x \<and> is_outlier (filter (region_mask A) t) x"
proof
  assume "label x \<in> region_outliers (filter (region_mask A) t)"
  then obtain r where r: "r \<in> set (filter (region_mask A) t)" "label r = label x"
      "is_outlier (filter (region_mask A) t) r"
    by (auto simp: region_outliers_iff)
  then have "r \<in> set t" by simp
  with dist x r have "r = x" by (intro label_inj [of t x r]) auto
  with r show "region_mask A x \<and> is_outlier (filter (region_mask A) t) x" by auto
next
  assume "region_mask A x \<and> is_outlier (filter (region_mask A) t) x"
  with x show "label x \<in> region_outliers (filter (region_mask A) t)"
    by (auto simp: region_outliers_iff)
qed

lemma process_region_cleaned:
  assumes dist: "distinct (map label t)"
    and cl: "cleaned_df st = filter (\<lambda>x. \<not> P x) t"
    and run: "process_region t st A = Inr st'"
  shows "cleaned_df st'
           = filter (\<lambda>x. \<not> (P x \<or> (region_mask A x \<and> is_outlier (filter (region_mask A) t) x))) t"
proof (cases "filter (region_mask A) t = []")
  case True
  then have none: "\<forall>x\<in>set t. \<not> region_mask A x" by (simp add: filter_empty_conv)
  from True run have "st' = st" by (simp add: process_region_def)
  with cl none show ?thesis by (auto intro: filter_cong)
next
  case False
  let ?d = "filter (region_mask A) t"
  from False run obtain cleaned where
    dr: "drop_labels (cleaned_df st) (region_outliers ?d) = Inr cleaned"
    and st': "cleaned_df st' = cleaned"
    by (auto simp: process_region_def Let_def split: sum.splits option.splits)
  from dr have "cleaned = filter (\<lambda>r. label r \<notin> region_outliers ?d) (cleaned_df st)"
    by (auto simp: drop_labels_def split: if_splits)
  with cl st' have "cleaned_df st' = filter (\<lambda>x. \<not> P x \<and> label x \<notin> region_outliers ?d) t"
    by (simp add: conj_commute)
  also have "\<dots> = filter (\<lambda>x. \<not> (P x \<or> (region_mask A x \<and> is_outlier ?d x))) t"
    using region_outliers_row [OF dist] by (intro filter_cong) auto
  finally show ?thesis .
qed

lemma region_loop_cleaned:
  assumes dist: "distinct (map label t)"
    and cl: "cleaned_df st = filter (\<lambda>x. \<not> P x) t"
    and run: "region_loop t st regs = Inr st'"
  shows "cleaned_df st'
           = filter (\<lambda>x. \<not> (P x \<or> (\<exists>A\<in>set regs. region_mask A x
                                      \<and> is_outlier (filter (region_mask A) t) x))) t"
  using cl run
proof (induction regs arbitrary: st P)
  case Nil
  then show ?case by simp
next
  case (Cons A regs)
  from Cons.prems(2) obtain st1 where s1: "process_region t st A = Inr st1"
    and r1: "region_loop t st1 regs = Inr st'"
    by (auto split: sum.splits)
  from process_region_cleaned [OF dist Cons.prems(1) s1]
  have c1: "cleaned_df st1
           = filter (\<lambda>x. \<not> (P x \<or> (region_mask A x \<and> is_outlier (filter (region_mask A) t) x))) t" .
  from Cons.IH [OF c1 r1] show ?case
    by (auto intro: filter_cong)
qed




lemma regions_disjoint:
  "length (filter (\<lambda>A. region_mask A x) get_zircon_spectral_regions) \<le> 1"
  by (simp add: get_zircon_spectral_regions_def region_mask_def)

lemma process_region_returns:
  assumes dist: "distinct (map label t)"
    and cl: "cleaned_df st = filter (\<lambda>x. \<not> P x) t"
    and keep: "\<forall>x\<in>set t. region_mask A x \<longrightarrow> \<not> P x"
    and survive: "filter (region_mask A) t \<noteq> []
                   \<longrightarrow> (\<exists>x\<in>set (filter (region_mask A) t). \<not> is_outlier (filter (region_mask A) t) x)"
  shows "\<exists>st'. process_region t st A = Inr st'"
proof (cases "filter (region_mask A) t = []")
  case True
  then show ?thesis by (simp add: process_region_def)
next
  case False
  let ?d = "filter (region_mask A) t"
  have sub: "region_outliers ?d \<subseteq> set (map label (cleaned_df st))"
  proof
    fix n assume "n \<in> region_outliers ?d"
    then obtain r where r: "r \<in> set ?d" "label r = n" by (auto simp: region_outliers_iff)
    then have "r \<in> set t" "region_mask A r" by simp_all
    with keep cl have "r \<in> set (cleaned_df st)" by simp
    with r show "n \<in> set (map label (cleaned_df st))" by auto
  qed
  from False survive obtain x where x: "x \<in> set ?d" "\<not> is_outlier ?d x" by blast
  then have xt: "x \<in> set t" "region_mask A x" by simp_all
  with region_outliers_row [OF dist xt(1), of A] x
  have "label x \<notin> region_outliers ?d" by simp
  with x have rem: "filter (\<lambda>r. label r \<notin> region_outliers ?d) ?d \<noteq> []"
    by (auto simp: filter_empty_conv)
  show ?thesis
    using False sub rem
    by (simp add: process_region_def Let_def drop_labels_def)
qed

lemma region_loop_returns:
  assumes dist: "distinct (map label t)"
    and cl: "cleaned_df st = filter (\<lambda>x. \<not> P x) t"
    and keep: "\<forall>x\<in>set t. \<forall>A\<in>set regs. region_mask A x \<longrightarrow> \<not> P x"
    and disj: "\<forall>x. length (filter (\<lambda>A. region_mask A x) regs) \<le> 1"
    and survive: "\<forall>A\<in>set regs. filter (region_mask A) t \<noteq> []
                   \<longrightarrow> (\<exists>x\<in>set (filter (region_mask A) t). \<not> is_outlier (filter (region_mask A) t) x)"
  shows "\<exists>st'. region_loop t st regs = Inr st'"
  using cl keep disj survive
proof (induction regs arbitrary: st P)
  case Nil
  show ?case by simp
next
  case (Cons A regs)
  have k: "\<forall>x\<in>set t. region_mask A x \<longrightarrow> \<not> P x" using Cons.prems(2) by simp
  have sv: "filter (region_mask A) t \<noteq> []
                   \<longrightarrow> (\<exists>x\<in>set (filter (region_mask A) t). \<not> is_outlier (filter (region_mask A) t) x)"
    using Cons.prems(4) by simp
  from process_region_returns [OF dist Cons.prems(1) k sv]
  obtain st1 where s1: "process_region t st A = Inr st1" by blast
  from process_region_cleaned [OF dist Cons.prems(1) s1]
  have c1: "cleaned_df st1
           = filter (\<lambda>x. \<not> (P x \<or> (region_mask A x \<and> is_outlier (filter (region_mask A) t) x))) t" .
  have d1: "\<forall>x. length (filter (\<lambda>A. region_mask A x) regs) \<le> 1"
  proof
    fix x
    have "length (filter (\<lambda>A. region_mask A x) regs)
            \<le> length (filter (\<lambda>A. region_mask A x) (A # regs))" by simp
    with Cons.prems(3) show "length (filter (\<lambda>A. region_mask A x) regs) \<le> 1"
      using le_trans by blast
  qed
  have k1: "\<forall>x\<in>set t. \<forall>B\<in>set regs. region_mask B x
              \<longrightarrow> \<not> (P x \<or> (region_mask A x \<and> is_outlier (filter (region_mask A) t) x))"
  proof (intro ballI impI)
    fix x B assume x: "x \<in> set t" and B: "B \<in> set regs" and m: "region_mask B x"
    have np: "\<not> P x" using Cons.prems(2) x B m by auto
    have "\<not> region_mask A x"
    proof
      assume a: "region_mask A x"
      from B m have "filter (\<lambda>A. region_mask A x) regs \<noteq> []"
        by (auto simp: filter_empty_conv)
      then have "1 \<le> length (filter (\<lambda>A. region_mask A x) regs)"
        by (cases "filter (\<lambda>A. region_mask A x) regs") simp_all
      with a have "2 \<le> length (filter (\<lambda>A. region_mask A x) (A # regs))" by simp
      with Cons.prems(3) show False
        by (metis Suc_1 not_less_eq_eq)
    qed
    with np show "\<not> (P x \<or> (region_mask A x \<and> is_outlier (filter (region_mask A) t) x))"
      by simp
  qed
  have sv1: "\<forall>A\<in>set regs. filter (region_mask A) t \<noteq> []
                   \<longrightarrow> (\<exists>x\<in>set (filter (region_mask A) t). \<not> is_outlier (filter (region_mask A) t) x)"
    using Cons.prems(4) by simp
  from Cons.IH [OF c1 k1 d1 sv1] obtain st' where "region_loop t st1 regs = Inr st'" by blast
  with s1 show ?case by simp
qed

lemma detect_cleaned:
  assumes dist: "distinct (map label t)"
    and run: "detect_and_remove_outliers t verbose = Inr (c, rep)"
  shows "c = filter (\<lambda>x. \<not> removed_row t x) t"
proof -
  let ?st0 = "\<lparr>cleaned_df = t, outlier_report = [], total_outliers_removed = 0,
               stats_before_var = None\<rparr>"
  let ?U = "filter (\<lambda>r. \<not> list_ex (\<lambda>reg. region_mask reg r) get_zircon_spectral_regions) t"
  let ?idx = "index_of (\<lambda>r. R2 r < 0.5 \<or> FWHM_Gauss r > 50) ?U"
  from run obtain st where st: "region_loop t ?st0 get_zircon_spectral_regions = Inr st"
    by (auto simp: detect_and_remove_outliers_def split: sum.splits)
  have c0: "cleaned_df ?st0 = filter (\<lambda>x. \<not> False) t" by simp
  from region_loop_cleaned [OF dist c0 st]
  have cs: "cleaned_df st = filter (\<lambda>x. \<not> (\<exists>A\<in>set get_zircon_spectral_regions.
                region_mask A x \<and> is_outlier (filter (region_mask A) t) x)) t" by simp
  have c: "c = filter (\<lambda>r. label r \<notin> set ?idx) (cleaned_df st)"
  proof (cases "length ?U > 0 \<and> length ?idx > 0")
    case True
    with run st show ?thesis
      by (auto simp: detect_and_remove_outliers_def Let_def drop_labels_def
               split: sum.splits if_splits)
  next
    case False
    then have "?idx = []" by (auto simp: index_of_def filter_empty_conv)
    moreover from False run st have "c = cleaned_df st"
      by (auto simp: detect_and_remove_outliers_def Let_def split: sum.splits if_splits)
    ultimately show ?thesis by simp
  qed
  have idx: "\<And>x. x \<in> set t \<Longrightarrow> label x \<in> set ?idx
               \<longleftrightarrow> \<not> list_ex (\<lambda>reg. region_mask reg x) get_zircon_spectral_regions
                   \<and> (R2 x < 0.5 \<or> FWHM_Gauss x > 50)"
  proof -
    fix x assume x: "x \<in> set t"
    show "label x \<in> set ?idx
               \<longleftrightarrow> \<not> list_ex (\<lambda>reg. region_mask reg x) get_zircon_spectral_regions
                   \<and> (R2 x < 0.5 \<or> FWHM_Gauss x > 50)"
    proof
      assume "label x \<in> set ?idx"
      then obtain r where r: "r \<in> set t" "label r = label x"
        "\<not> list_ex (\<lambda>reg. region_mask reg r) get_zircon_spectral_regions"
        "R2 r < 0.5 \<or> FWHM_Gauss r > 50"
        by (auto simp: index_of_def)
      with label_inj [OF dist x r(1) r(2)] show
        "\<not> list_ex (\<lambda>reg. region_mask reg x) get_zircon_spectral_regions
                   \<and> (R2 x < 0.5 \<or> FWHM_Gauss x > 50)" by simp
    next
      assume "\<not> list_ex (\<lambda>reg. region_mask reg x) get_zircon_spectral_regions
                   \<and> (R2 x < 0.5 \<or> FWHM_Gauss x > 50)"
      with x show "label x \<in> set ?idx" by (auto simp: index_of_def)
    qed
  qed
  from c cs have "c = filter (\<lambda>x. \<not> (\<exists>A\<in>set get_zircon_spectral_regions.
                region_mask A x \<and> is_outlier (filter (region_mask A) t) x)
                \<and> label x \<notin> set ?idx) t"
    by (simp add: conj_commute)
  also have "\<dots> = filter (\<lambda>x. \<not> removed_row t x) t"
    using idx by (intro filter_cong) (auto simp: removed_row_def)
  finally show ?thesis .
qed


lemma detect_returns:
  assumes dist: "distinct (map label t)"
    and nonempty: "verbose \<longrightarrow> t \<noteq> []"
    and survive: "\<forall>A\<in>set get_zircon_spectral_regions. filter (region_mask A) t \<noteq> []
                   \<longrightarrow> (\<exists>x\<in>set (filter (region_mask A) t). \<not> is_outlier (filter (region_mask A) t) x)"
  shows "\<exists>c rep. detect_and_remove_outliers t verbose = Inr (c, rep)"
proof -
  let ?st0 = "\<lparr>cleaned_df = t, outlier_report = [], total_outliers_removed = 0,
               stats_before_var = None\<rparr>"
  let ?U = "filter (\<lambda>r. \<not> list_ex (\<lambda>reg. region_mask reg r) get_zircon_spectral_regions) t"
  let ?idx = "index_of (\<lambda>r. R2 r < 0.5 \<or> FWHM_Gauss r > 50) ?U"
  have c0: "cleaned_df ?st0 = filter (\<lambda>x. \<not> False) t" by simp
  have k0: "\<forall>x\<in>set t. \<forall>A\<in>set get_zircon_spectral_regions. region_mask A x \<longrightarrow> \<not> False"
    by simp
  have d0: "\<forall>x. length (filter (\<lambda>A. region_mask A x) get_zircon_spectral_regions) \<le> 1"
    using regions_disjoint by simp
  from region_loop_returns [OF dist c0 k0 d0 survive]
  obtain st where st: "region_loop t ?st0 get_zircon_spectral_regions = Inr st" by blast
  from region_loop_cleaned [OF dist c0 st]
  have cs: "cleaned_df st = filter (\<lambda>x. \<not> (\<exists>A\<in>set get_zircon_spectral_regions.
                region_mask A x \<and> is_outlier (filter (region_mask A) t) x)) t" by simp
  have sub: "set ?idx \<subseteq> set (map label (cleaned_df st))"
  proof
    fix n assume "n \<in> set ?idx"
    then obtain r where r: "r \<in> set t" "label r = n"
        "\<not> list_ex (\<lambda>reg. region_mask reg r) get_zircon_spectral_regions"
      by (auto simp: index_of_def)
    then have "r \<in> set (cleaned_df st)" by (auto simp: cs list_ex_iff)
    with r show "n \<in> set (map label (cleaned_df st))" by auto
  qed
  show ?thesis
    using st sub nonempty
    by (simp add: detect_and_remove_outliers_def Let_def drop_labels_def)
qed

lemma region_unique:
  assumes "A \<in> set get_zircon_spectral_regions" "B \<in> set get_zircon_spectral_regions"
    and "region_mask A x" "region_mask B x"
  shows "A = B"
proof (rule ccontr)
  assume ne: "A \<noteq> B"
  let ?f = "filter (\<lambda>A. region_mask A x) get_zircon_spectral_regions"
  have "{A, B} \<subseteq> set ?f" using assms by simp
  then have "card {A, B} \<le> card (set ?f)" by (intro card_mono) auto
  also have "\<dots> \<le> length ?f" by (rule card_length)
  also have "\<dots> \<le> 1" by (rule regions_disjoint)
  finally show False using ne by simp
qed

lemma removed_row_in_region:
  assumes A: "A \<in> set get_zircon_spectral_regions" and m: "region_mask A x"
  shows "removed_row t x = is_outlier (filter (region_mask A) t) x"
proof -
  have "list_ex (\<lambda>reg. region_mask reg x) get_zircon_spectral_regions"
    using A m by (auto simp: list_ex_iff)
  moreover have "(\<exists>B\<in>set get_zircon_spectral_regions.
                    region_mask B x \<and> is_outlier (filter (region_mask B) t) x)
                 = is_outlier (filter (region_mask A) t) x"
    using A m region_unique [OF A _ m] by blast
  ultimately show ?thesis by (simp add: removed_row_def)
qed

lemma removed_row_unclassified:
  assumes "\<not> list_ex (\<lambda>reg. region_mask reg x) get_zircon_spectral_regions"
  shows "removed_row t x = (R2 x < 0.5 \<or> FWHM_Gauss x > 50)"
  using assms by (auto simp: removed_row_def list_ex_iff)

lemma survive_one_region:
  assumes A: "A \<in> set get_zircon_spectral_regions"
    and cls: "\<forall>x\<in>set t. region_mask A x
                 \<or> \<not> list_ex (\<lambda>reg. region_mask reg x) get_zircon_spectral_regions"
    and ex: "\<exists>x\<in>set (filter (region_mask A) t). \<not> is_outlier (filter (region_mask A) t) x"
  shows "\<forall>B\<in>set get_zircon_spectral_regions. filter (region_mask B) t \<noteq> []
           \<longrightarrow> (\<exists>x\<in>set (filter (region_mask B) t). \<not> is_outlier (filter (region_mask B) t) x)"
proof (intro ballI impI)
  fix B assume B: "B \<in> set get_zircon_spectral_regions" and ne: "filter (region_mask B) t \<noteq> []"
  from ne obtain x where x: "x \<in> set t" "region_mask B x"
    by (auto simp: filter_empty_conv)
  with B have "list_ex (\<lambda>reg. region_mask reg x) get_zircon_spectral_regions"
    by (auto simp: list_ex_iff)
  with cls x have "region_mask A x" by blast
  from region_unique [OF A B this x(2)] have "B = A" by simp
  with ex show "\<exists>x\<in>set (filter (region_mask B) t). \<not> is_outlier (filter (region_mask B) t) x"
    by simp
qed


lemma is_outlier_eval:
  assumes vs: "map FWHM_Gauss d = vs" and len: "length d \<ge> 4"
    and q1: "quantile vs 0.25 = q1" and q3: "quantile vs 0.75 = q3"
    and sd: "pd_std vs = sqrt V" and V: "0 < V" and m: "pd_mean vs = m"
  shows "is_outlier d r
           = (R2 r < 0.3 \<or> FWHM_Gauss r < q1 - 1.5 * (q3 - q1)
              \<or> FWHM_Gauss r > q3 + 1.5 * (q3 - q1)
              \<or> (FWHM_Gauss r - m)\<^sup>2 > 9 * V \<or> FWHM_Gauss r > 60)"
proof -
  have z: "z_outliers_mask vs r = ((FWHM_Gauss r - m)\<^sup>2 > 9 * V)"
    using z_mask_eval [OF sd V, of r] m by simp
  have iq: "iqr_outliers_mask vs r
              = (FWHM_Gauss r < q1 - 1.5 * (q3 - q1) \<or> FWHM_Gauss r > q3 + 1.5 * (q3 - q1))"
    unfolding iqr_outliers_mask_def Let_def q1 q3 by simp
  have p: "pd_std vs > 0" using sd V by simp
  show ?thesis
    unfolding is_outlier_def vs z iq using len p by auto
qed

subsubsection \<open>The pass on the tables\<close>

lemma nu2_region: "(Nu2_SiO4, 430, 450, True) \<in> set get_zircon_spectral_regions"
  by (simp add: get_zircon_spectral_regions_def)


lemma table_a_std: "pd_std [10, 10, 10, 11, 20] = sqrt (96 / 5)" "pd_mean [10, 10, 10, 11, 20] = 61 / 5"
  by (simp_all add: pd_std_def pd_mean_def power2_eq_square)

lemma table_a_regions:
  "filter (region_mask (Nu3_SiO4, 990, 1020, True)) table_a = []"
  "filter (region_mask (Nu1_SiO4, 965, 985, True)) table_a = []"
  "filter (region_mask (Nu2_SiO4, 430, 450, True)) table_a = table_a"
  "filter (region_mask (External_mode_1, 195, 210, False)) table_a = []"
  "filter (region_mask (External_mode_2, 210, 220, False)) table_a = []"
  "filter (region_mask (External_mode_3, 220, 230, False)) table_a = []"
  "filter (region_mask (External_mode_4, 350, 365, True)) table_a = []"
  by (simp_all add: region_mask_def table_a_def mk_row_def)

lemma is_outlier_table_a: "is_outlier table_a r = (R2 r < 0.3 \<or> FWHM_Gauss r < 17 / 2 \<or> FWHM_Gauss r > 25 / 2
             \<or> (FWHM_Gauss r - 61 / 5)\<^sup>2 > 9 * (96 / 5) \<or> FWHM_Gauss r > 60)"
proof -
  have fv: "map FWHM_Gauss table_a = [10, 10, 10, 11, 20]"
    by (simp add: table_a_def mk_row_def)
  have z: "\<And>r. z_outliers_mask [10, 10, 10, 11, 20] r
             = ((FWHM_Gauss r - 61 / 5)\<^sup>2 > 9 * (96 / 5))"
    using z_mask_eval [OF table_a_std(1)] by (simp add: table_a_std(2))
  have iq: "\<And>r. iqr_outliers_mask [10, 10, 10, 11, 20] r
             = (FWHM_Gauss r < 17 / 2 \<or> FWHM_Gauss r > 25 / 2)"
    by (simp add: iqr_outliers_mask_def Let_def quantile_def)
  show ?thesis
    unfolding is_outlier_def fv z iq
    by (auto simp: table_a_def table_a_std(1))
qed

lemma table_a_kept: "filter (\<lambda>x. \<not> removed_row table_a x) table_a = table_a1"
proof -
  have m: "\<And>x. x \<in> set table_a \<Longrightarrow> region_mask (Nu2_SiO4, 430, 450, True) x"
    by (auto simp: table_a_def mk_row_def region_mask_def)
  have rr: "\<And>x. x \<in> set table_a \<Longrightarrow> removed_row table_a x = is_outlier table_a x"
    using removed_row_in_region [OF nu2_region m, of _ table_a] by (simp add: table_a_regions)
  have "filter (\<lambda>x. \<not> removed_row table_a x) table_a
          = filter (\<lambda>x. \<not> is_outlier table_a x) table_a"
    using rr by (intro filter_cong) auto
  also have "\<dots> = table_a1"
    unfolding is_outlier_table_a by (simp add: table_a_def table_a1_def mk_row_def power2_eq_square)
  finally show ?thesis .
qed

lemma detect_table_a: "\<exists>rep. detect_and_remove_outliers table_a True = Inr (table_a1, rep)"
proof -
  have dist: "distinct (map label table_a)" by (simp add: table_a_def mk_row_def)
  have ne: "True \<longrightarrow> table_a \<noteq> []" by (simp add: table_a_def)
  have m: "\<forall>x\<in>set table_a. region_mask (Nu2_SiO4, 430, 450, True) x
             \<or> \<not> list_ex (\<lambda>reg. region_mask reg x) get_zircon_spectral_regions"
    by (auto simp: table_a_def mk_row_def region_mask_def)
  have "\<not> is_outlier table_a (mk_row 0 440 10 0.9)"
    unfolding is_outlier_table_a by (simp add: mk_row_def power2_eq_square)
  moreover have "mk_row 0 440 10 0.9 \<in> set table_a" by (simp add: table_a_def)
  ultimately have ex: "\<exists>x\<in>set (filter (region_mask (Nu2_SiO4, 430, 450, True)) table_a).
          \<not> is_outlier (filter (region_mask (Nu2_SiO4, 430, 450, True)) table_a) x"
    unfolding table_a_regions by blast
  from detect_returns [OF dist ne survive_one_region [OF nu2_region m ex]] obtain c rep where
    r: "detect_and_remove_outliers table_a True = Inr (c, rep)" by blast
  from detect_cleaned [OF dist r] table_a_kept have "c = table_a1" by simp
  with r show ?thesis by blast
qed

lemma is_outlier_table_a1: "is_outlier table_a1 r
   = (R2 r < 0.3 \<or> FWHM_Gauss r < 10 - 1.5 * (41 / 4 - 10)
      \<or> FWHM_Gauss r > 41 / 4 + 1.5 * (41 / 4 - 10)
      \<or> (FWHM_Gauss r - 41 / 4)\<^sup>2 > 9 * (1 / 4) \<or> FWHM_Gauss r > 60)"
proof (rule is_outlier_eval)
  show "map FWHM_Gauss table_a1 = [10, 10, 10, 11]" by (simp add: table_a1_def mk_row_def)
  show "4 \<le> length table_a1" by (simp add: table_a1_def)
  show "quantile [10, 10, 10, 11] 0.25 = 10" by (simp add: quantile_def Let_def)
  show "quantile [10, 10, 10, 11] 0.75 = 41 / 4" by (simp add: quantile_def Let_def)
  show "pd_std [10, 10, 10, 11] = sqrt (1 / 4)"
    by (simp add: pd_std_def pd_mean_def power2_eq_square)
  show "(0::real) < 1 / 4" by simp
  show "pd_mean [10, 10, 10, 11] = 41 / 4" by (simp add: pd_mean_def)
qed


lemma detect_table_a1: "\<exists>rep. detect_and_remove_outliers table_a1 True = Inr (table_a2, rep)"
proof -
  let ?A = "(Nu2_SiO4, 430, 450, True)"
  have dist: "distinct (map label table_a1)" by (simp add: table_a1_def mk_row_def)
  have ne: "True \<longrightarrow> table_a1 \<noteq> []" by (simp add: table_a1_def)
  have all: "\<And>x. x \<in> set table_a1 \<Longrightarrow> region_mask ?A x"
    by (auto simp: table_a1_def mk_row_def region_mask_def)
  have d: "filter (region_mask ?A) table_a1 = table_a1"
    using all by (simp add: filter_id_conv)
  have m: "\<forall>x\<in>set table_a1. region_mask ?A x
             \<or> \<not> list_ex (\<lambda>reg. region_mask reg x) get_zircon_spectral_regions"
    using all by blast
  have "\<not> is_outlier table_a1 (mk_row 0 440 10 0.9)"
    unfolding is_outlier_table_a1 by (simp add: mk_row_def power2_eq_square)
  moreover have "mk_row 0 440 10 0.9 \<in> set table_a1" by (simp add: table_a1_def)
  ultimately have ex: "\<exists>x\<in>set (filter (region_mask ?A) table_a1).
          \<not> is_outlier (filter (region_mask ?A) table_a1) x"
    unfolding d by blast
  from detect_returns [OF dist ne survive_one_region [OF nu2_region m ex]] obtain c rep where
    r: "detect_and_remove_outliers table_a1 True = Inr (c, rep)" by blast
  have rr: "\<And>x. x \<in> set table_a1 \<Longrightarrow> removed_row table_a1 x = is_outlier table_a1 x"
    using removed_row_in_region [OF nu2_region all, of _ table_a1] by (simp add: d)
  have "filter (\<lambda>x. \<not> removed_row table_a1 x) table_a1
          = filter (\<lambda>x. \<not> is_outlier table_a1 x) table_a1"
    using rr by (intro filter_cong) auto
  also have "\<dots> = table_a2"
    unfolding is_outlier_table_a1 by (simp add: table_a1_def table_a2_def mk_row_def power2_eq_square)
  finally have "filter (\<lambda>x. \<not> removed_row table_a1 x) table_a1 = table_a2" .
  with detect_cleaned [OF dist r] have "c = table_a2" by simp
  with r show ?thesis by blast
qed



text \<open>
  C3 (as stated): cleaning table\_a removes the peak with FWHM 20 (above Q3 + 1.5 IQR =
  12.5); cleaning the result again removes the peak with FWHM 11, since the quartiles
  of the four remaining values give the upper bound 10.625.
\<close>

theorem cleaning_not_idempotent_counterexample:
  "map_sum id fst (detect_and_remove_outliers table_a True) = Inr table_a1
   \<and> map_sum id fst (detect_and_remove_outliers table_a1 True) = Inr table_a2
   \<and> length table_a2 < length table_a1"
proof -
  from detect_table_a obtain rep where "detect_and_remove_outliers table_a True = Inr (table_a1, rep)"
    by blast
  moreover from detect_table_a1 obtain rep2 where
    "detect_and_remove_outliers table_a1 True = Inr (table_a2, rep2)" by blast
  ultimately show ?thesis by (simp add: table_a1_def table_a2_def)
qed

text \<open>
  C3 (amended): on a table with distinct labels, when both passes return, the second
  pass removes only rows of the cleaned table that lie in a region, pass the two fixed
  thresholds (R2 at least 0.3, FWHM at most 60) and are flagged by the interquartile or
  the z-score criterion computed on the cleaned region; no peak outside the regions is
  removed; and nothing is removed when every region of the cleaned table has fewer than
  3 peaks.
\<close>

theorem second_pass_statistical_only:
  assumes dist: "distinct (map label t)"
    and p1: "detect_and_remove_outliers t verbose = Inr (c, rep)"
    and p2: "detect_and_remove_outliers c verbose' = Inr (c2, rep2)"
  shows "set c2 \<subseteq> set c
       \<and> (\<forall>x\<in>set c. x \<notin> set c2 \<longrightarrow>
            (\<exists>A\<in>set get_zircon_spectral_regions. region_mask A x
               \<and> \<not> R2 x < 0.3 \<and> \<not> FWHM_Gauss x > 60
               \<and> ((length (filter (region_mask A) c) \<ge> 4
                     \<and> iqr_outliers_mask (map FWHM_Gauss (filter (region_mask A) c)) x)
                   \<or> (length (filter (region_mask A) c) \<ge> 3
                     \<and> pd_std (map FWHM_Gauss (filter (region_mask A) c)) > 0
                     \<and> z_outliers_mask (map FWHM_Gauss (filter (region_mask A) c)) x))))
       \<and> ((\<forall>A\<in>set get_zircon_spectral_regions. length (filter (region_mask A) c) < 3)
            \<longrightarrow> c2 = c)"
proof -
  from detect_cleaned [OF dist p1] have c: "c = filter (\<lambda>x. \<not> removed_row t x) t" .
  have dc: "distinct (map label c)" unfolding c using dist by (rule distinct_map_filter)
  from detect_cleaned [OF dc p2] have c2: "c2 = filter (\<lambda>x. \<not> removed_row c x) c" .
  have sub: "set c2 \<subseteq> set c" unfolding c2 by auto
  have fixed: "\<And>x A. x \<in> set c \<Longrightarrow> A \<in> set get_zircon_spectral_regions \<Longrightarrow> region_mask A x
                  \<Longrightarrow> \<not> R2 x < 0.3 \<and> \<not> FWHM_Gauss x > 60"
  proof -
    fix x A assume x: "x \<in> set c" and A: "A \<in> set get_zircon_spectral_regions"
      and m: "region_mask A x"
    from x c have "\<not> removed_row t x" by simp
    with removed_row_in_region [OF A m, of t]
    have "\<not> is_outlier (filter (region_mask A) t) x" by simp
    then show "\<not> R2 x < 0.3 \<and> \<not> FWHM_Gauss x > 60" by (simp add: is_outlier_def)
  qed
  have uncl: "\<And>x. x \<in> set c
                  \<Longrightarrow> \<not> list_ex (\<lambda>reg. region_mask reg x) get_zircon_spectral_regions
                  \<Longrightarrow> \<not> removed_row c x"
  proof -
    fix x assume x: "x \<in> set c"
      and u: "\<not> list_ex (\<lambda>reg. region_mask reg x) get_zircon_spectral_regions"
    from x c have "\<not> removed_row t x" by simp
    with removed_row_unclassified [OF u] show "\<not> removed_row c x" by simp
  qed
  have second: "\<forall>x\<in>set c. x \<notin> set c2 \<longrightarrow>
            (\<exists>A\<in>set get_zircon_spectral_regions. region_mask A x
               \<and> \<not> R2 x < 0.3 \<and> \<not> FWHM_Gauss x > 60
               \<and> ((length (filter (region_mask A) c) \<ge> 4
                     \<and> iqr_outliers_mask (map FWHM_Gauss (filter (region_mask A) c)) x)
                   \<or> (length (filter (region_mask A) c) \<ge> 3
                     \<and> pd_std (map FWHM_Gauss (filter (region_mask A) c)) > 0
                     \<and> z_outliers_mask (map FWHM_Gauss (filter (region_mask A) c)) x)))"
  proof (intro ballI impI)
    fix x assume x: "x \<in> set c" and nx: "x \<notin> set c2"
    from x nx c2 have rem: "removed_row c x" by simp
    with uncl [OF x] have "list_ex (\<lambda>reg. region_mask reg x) get_zircon_spectral_regions"
      by blast
    then obtain A where A: "A \<in> set get_zircon_spectral_regions" and m: "region_mask A x"
      by (auto simp: list_ex_iff)
    from rem removed_row_in_region [OF A m, of c]
    have o: "is_outlier (filter (region_mask A) c) x" by simp
    from fixed [OF x A m] have f: "\<not> R2 x < 0.3 \<and> \<not> FWHM_Gauss x > 60" .
    from o f have "(length (filter (region_mask A) c) \<ge> 4
                     \<and> iqr_outliers_mask (map FWHM_Gauss (filter (region_mask A) c)) x)
                   \<or> (length (filter (region_mask A) c) \<ge> 3
                     \<and> pd_std (map FWHM_Gauss (filter (region_mask A) c)) > 0
                     \<and> z_outliers_mask (map FWHM_Gauss (filter (region_mask A) c)) x)"
      by (auto simp: is_outlier_def)
    with A m f show "\<exists>A\<in>set get_zircon_spectral_regions. region_mask A x
               \<and> \<not> R2 x < 0.3 \<and> \<not> FWHM_Gauss x > 60
               \<and> ((length (filter (region_mask A) c) \<ge> 4
                     \<and> iqr_outliers_mask (map FWHM_Gauss (filter (region_mask A) c)) x)
                   \<or> (length (filter (region_mask A) c) \<ge> 3
                     \<and> pd_std (map FWHM_Gauss (filter (region_mask A) c)) > 0
                     \<and> z_outliers_mask (map FWHM_Gauss (filter (region_mask A) c)) x))"
      by blast
  qed
  have small: "(\<forall>A\<in>set get_zircon_spectral_regions. length (filter (region_mask A) c) < 3)
            \<longrightarrow> c2 = c"
  proof
    assume s: "\<forall>A\<in>set get_zircon_spectral_regions. length (filter (region_mask A) c) < 3"
    have "\<forall>x\<in>set c. x \<in> set c2"
    proof (rule ccontr)
      assume "\<not> (\<forall>x\<in>set c. x \<in> set c2)"
      then obtain x where "x \<in> set c" "x \<notin> set c2" by blast
      with second obtain A where "A \<in> set get_zircon_spectral_regions"
        "length (filter (region_mask A) c) \<ge> 4 \<or> length (filter (region_mask A) c) \<ge> 3"
        by blast
      with s show False by fastforce
    qed
    then have "\<forall>x\<in>set c. \<not> removed_row c x" using c2 by simp
    then have "filter (\<lambda>x. \<not> removed_row c x) c = c" by (simp add: filter_id_conv)
    with c2 show "c2 = c" by simp
  qed
  from sub second small show ?thesis by blast
qed

theorem second_pass_statistical_only_witness:
  "distinct (map label table_a)
   \<and> (\<exists>rep rep2. detect_and_remove_outliers table_a True = Inr (table_a1, rep)
         \<and> detect_and_remove_outliers table_a1 True = Inr (table_a2, rep2))
   \<and> mk_row 3 440 11 0.9 \<in> set table_a1 \<and> mk_row 3 440 11 0.9 \<notin> set table_a2
   \<and> (\<exists>A\<in>set get_zircon_spectral_regions. region_mask A (mk_row 3 440 11 0.9)
         \<and> ((length (filter (region_mask A) table_a1) \<ge> 4
               \<and> iqr_outliers_mask (map FWHM_Gauss (filter (region_mask A) table_a1))
                    (mk_row 3 440 11 0.9))
             \<or> (length (filter (region_mask A) table_a1) \<ge> 3
               \<and> pd_std (map FWHM_Gauss (filter (region_mask A) table_a1)) > 0
               \<and> z_outliers_mask (map FWHM_Gauss (filter (region_mask A) table_a1))
                    (mk_row 3 440 11 0.9))))"
proof -
  have dist: "distinct (map label table_a)" by (simp add: table_a_def mk_row_def)
  from detect_table_a obtain rep where p1: "detect_and_remove_outliers table_a True = Inr (table_a1, rep)"
    by blast
  from detect_table_a1 obtain rep2 where
    p2: "detect_and_remove_outliers table_a1 True = Inr (table_a2, rep2)" by blast
  have i: "mk_row 3 440 11 0.9 \<in> set table_a1" by (simp add: table_a1_def)
  have o: "mk_row 3 440 11 0.9 \<notin> set table_a2" by (simp add: table_a2_def mk_row_def)
  from second_pass_statistical_only [OF dist p1 p2] i o
  have "\<exists>A\<in>set get_zircon_spectral_regions. region_mask A (mk_row 3 440 11 0.9)
         \<and> \<not> R2 (mk_row 3 440 11 0.9) < 0.3 \<and> \<not> FWHM_Gauss (mk_row 3 440 11 0.9) > 60
         \<and> ((length (filter (region_mask A) table_a1) \<ge> 4
               \<and> iqr_outliers_mask (map FWHM_Gauss (filter (region_mask A) table_a1))
                    (mk_row 3 440 11 0.9))
             \<or> (length (filter (region_mask A) table_a1) \<ge> 3
               \<and> pd_std (map FWHM_Gauss (filter (region_mask A) table_a1)) > 0
               \<and> z_outliers_mask (map FWHM_Gauss (filter (region_mask A) table_a1))
                    (mk_row 3 440 11 0.9)))"
    by blast
  then have "\<exists>A\<in>set get_zircon_spectral_regions. region_mask A (mk_row 3 440 11 0.9)
         \<and> ((length (filter (region_mask A) table_a1) \<ge> 4
               \<and> iqr_outliers_mask (map FWHM_Gauss (filter (region_mask A) table_a1))
                    (mk_row 3 440 11 0.9))
             \<or> (length (filter (region_mask A) table_a1) \<ge> 3
               \<and> pd_std (map FWHM_Gauss (filter (region_mask A) table_a1)) > 0
               \<and> z_outliers_mask (map FWHM_Gauss (filter (region_mask A) table_a1))
                    (mk_row 3 440 11 0.9)))"
    by blast
  with dist p1 p2 i o show ?thesis by blast
qed

end
